(* ===== verification/OB_Prelude.thy ===== *)
theory OB_Prelude
  imports Main "HOL-Library.Word"
begin

text \<open>
  Shared vocabulary of the development: Go's fixed-width integers and byte slices, the
  little-endian byte order of \<open>encoding/binary\<close>, slice expressions, the conversion between Go
  strings and byte slices, and the outcome type of the modelled functions.

  A Go \<open>[]byte\<close> is a list of 8-bit words and a Go \<open>string\<close> is a list of characters, which in
  Isabelle are bytes too, so \<open>len\<close> counts the same thing on both sides.  Lengths and positions
  are natural numbers; where the source narrows or sign-converts an integer the conversion is
  written out at its width.
\<close>

unbundle bit_operations_syntax

type_synonym byte = "8 word"
type_synonym bytes = "byte list"
type_synonym u16 = "16 word"
type_synonym u32 = "32 word"
type_synonym u64 = "64 word"

named_theorems wire_simps \<open>equations that evaluate the byte encodings\<close>
named_theorems wire_roundtrip \<open>decoding after encoding, one rule per encoder\<close>

subsection \<open>Little-endian integers\<close>

text \<open>
  \<open>le_bytes n w\<close> is the sequence \<open>byte(w), byte(w>>8), ...\<close> of \<open>n\<close> bytes (\<open>PutUint16\<close>,
  \<open>PutUint32\<close>, \<open>PutUint64\<close> and the three-byte lengths written by hand); \<open>le_word\<close> is the
  matching \<open>b[0] | b[1]<<8 | ...\<close> in the target width.
\<close>

definition le_bytes :: "nat \<Rightarrow> 'a::len word \<Rightarrow> bytes" where
  "le_bytes n w = map (\<lambda>i. ucast (drop_bit (8 * i) w)) [0..<n]"

fun le_word :: "bytes \<Rightarrow> 'a::len word" where
  "le_word [] = 0"
| "le_word (b # bs) = ucast b OR push_bit 8 (le_word bs)"

declare le_word.simps(2) [simp del, wire_simps]

text \<open>The three-byte lengths the source assembles by hand.\<close>

definition le24 :: "byte \<Rightarrow> byte \<Rightarrow> byte \<Rightarrow> 'a::len word" where
  "le24 a b c = ucast a OR push_bit 8 (ucast b) OR push_bit 16 (ucast c)"

lemma le24_le_word: "le24 a b c = le_word [a, b, c]"
  by (simp add: le24_def le_word.simps push_bit_or)

lemma length_le_bytes [simp]: "length (le_bytes n w) = n"
  by (simp add: le_bytes_def)

lemma le_bytes_eq_Nil [simp]: "le_bytes n w = [] \<longleftrightarrow> n = 0"
  by (simp add: le_bytes_def)

lemma le_bytes_0 [simp]: "le_bytes 0 w = []"
  by (simp add: le_bytes_def)

lemma le_bytes_Suc: "le_bytes (Suc n) w = ucast w # le_bytes n (drop_bit 8 w)"
proof -
  have "[0..<Suc n] = 0 # map Suc [0..<n]"
    by (simp add: map_Suc_upt upt_conv_Cons)
  then show ?thesis
    by (simp add: le_bytes_def add.commute)
qed

lemma le_bytes_numerals [wire_simps]:
  "le_bytes 1 w = [ucast w]"
  "le_bytes 2 w = [ucast w, ucast (drop_bit 8 w)]"
  "le_bytes 3 w = [ucast w, ucast (drop_bit 8 w), ucast (drop_bit 16 w)]"
  "le_bytes 4 w =
     [ucast w, ucast (drop_bit 8 w), ucast (drop_bit 16 w), ucast (drop_bit 24 w)]"
  "le_bytes 8 w =
     [ucast w, ucast (drop_bit 8 w), ucast (drop_bit 16 w), ucast (drop_bit 24 w),
      ucast (drop_bit 32 w), ucast (drop_bit 40 w), ucast (drop_bit 48 w), ucast (drop_bit 56 w)]"
  by (simp_all add: le_bytes_Suc eval_nat_numeral)

text \<open>Bit \<open>i\<close> of a decoded integer is bit \<open>i mod 8\<close> of byte \<open>i div 8\<close>.\<close>

lemma bit_le_word:
  "bit (le_word bs :: 'a::len word) i \<longleftrightarrow>
     i < LENGTH('a) \<and> i < 8 * length bs \<and> bit (bs ! (i div 8)) (i mod 8)"
proof (induction bs arbitrary: i)
  case Nil
  then show ?case by simp
next
  case (Cons b bs)
  show ?case
  proof (cases "i < 8")
    case True
    then show ?thesis by (auto simp: le_word.simps bit_simps)
  next
    case False
    then obtain j where i: "i = j + 8"
      by (metis add.commute le_add_diff_inverse not_less)
    moreover have "(j + 8) div 8 = Suc (j div 8)" by simp
    moreover have "\<not> bit b (j + 8)"
      using bit_imp_le_length [of b "j + 8"] by auto
    ultimately show ?thesis
      by (auto simp: le_word.simps bit_simps Cons simp del: div_add_self2)
  qed
qed

lemma le_word_le_bytes:
  "le_word (le_bytes n w) = take_bit (8 * n) (w :: 'a::len word)"
proof (induction n arbitrary: w)
  case 0
  then show ?case by simp
next
  case (Suc n)
  show ?case
    by (rule bit_word_eqI) (auto simp: le_word.simps le_bytes_Suc Suc bit_simps)
qed

lemma le_word_le_bytes_id [wire_roundtrip]:
  "LENGTH('a) \<le> 8 * n \<Longrightarrow> le_word (le_bytes n w) = (w :: 'a::len word)"
  by (simp add: le_word_le_bytes take_bit_word_eq_self)

lemma le_word_le_bytes_small [wire_roundtrip]:
  "unat w < 2 ^ (8 * n) \<Longrightarrow> le_word (le_bytes n w) = (w :: 'a::len word)"
  by (metis le_word_le_bytes take_bit_nat_eq_self unsigned_take_bit_eq word_unat_eq_iff)

lemma le_bytes_le_word [wire_roundtrip]:
  assumes "length bs = n" and "8 * n \<le> LENGTH('a::len)"
  shows "le_bytes n (le_word bs :: 'a word) = bs"
proof (rule nth_equalityI)
  show "length (le_bytes n (le_word bs :: 'a word)) = length bs"
    using assms by simp
next
  fix i assume "i < length (le_bytes n (le_word bs :: 'a word))"
  with assms have i: "i < n" by simp
  have "ucast (drop_bit (8 * i) (le_word bs :: 'a word)) = bs ! i"
    using i assms by (intro bit_word_eqI) (auto simp: bit_simps bit_le_word)
  then show "le_bytes n (le_word bs :: 'a word) ! i = bs ! i"
    using i by (simp add: le_bytes_def)
qed

lemma unat_le_word: "unat (le_word bs :: 'a::len word) < 256 ^ length bs"
proof -
  have "le_word bs = take_bit (8 * length bs) (le_word bs :: 'a word)"
    by (rule bit_word_eqI) (auto simp: bit_simps bit_le_word)
  then have "unat (le_word bs :: 'a word) = take_bit (8 * length bs) (unat (le_word bs :: 'a word))"
    by (metis unsigned_take_bit_eq)
  then have "unat (le_word bs :: 'a word) < 2 ^ (8 * length bs)"
    by (metis take_bit_nat_less_exp)
  then show ?thesis by (simp add: power_mult)
qed

lemma ucast_le_word:
  assumes "8 * length bs \<le> LENGTH('b)"
  shows "ucast (le_word bs :: 'b::len word) = (le_word bs :: 'a::len word)"
  by (rule bit_word_eqI) (use assms in \<open>auto simp: bit_simps bit_le_word\<close>)

lemma le_bytes_ucast:
  assumes "8 * n \<le> LENGTH('b)"
  shows "le_bytes n (ucast (w :: 'a::len word) :: 'b::len word) = le_bytes n w"
proof -
  have "ucast (drop_bit (8 * i) (ucast w :: 'b word)) = (ucast (drop_bit (8 * i) w) :: byte)"
    if "i < n" for i
    by (rule bit_word_eqI) (use assms that in \<open>auto simp: bit_simps\<close>)
  then show ?thesis by (simp add: le_bytes_def)
qed

lemma unat_le24: "unat (le24 a b c :: 'a::len word) < 16777216"
  using unat_le_word [of "[a, b, c]", where ?'a = 'a] by (simp add: le24_le_word)

lemma le24_le_bytes [wire_roundtrip]:
  "unat w < 16777216 \<Longrightarrow>
     le24 (ucast w) (ucast (drop_bit 8 w)) (ucast (drop_bit 16 w)) = (w :: 'a::len word)"
  using le_word_le_bytes_small [of w 3] by (simp add: le24_le_word le_bytes_numerals)

text \<open>A little-endian length of a list that fits the width is read back as that length.\<close>

lemma unat_of_nat_small:
  "n < 2 ^ LENGTH('a) \<Longrightarrow> unat (word_of_nat n :: 'a::len word) = n"
  by (simp add: unat_of_nat take_bit_nat_eq_self)

lemma unat_le_word_of_nat [wire_roundtrip]:
  assumes "n < 2 ^ (8 * k)" and "n < 2 ^ LENGTH('a)"
  shows "unat (le_word (le_bytes k (word_of_nat n :: 'a::len word)) :: 'a word) = n"
  using assms by (simp add: le_word_le_bytes_small unat_of_nat_small)

subsection \<open>Slices\<close>

text \<open>The slice expression \<open>xs[lo:hi]\<close> for \<open>lo \<le> hi \<le> len(xs)\<close>.\<close>

definition subslice :: "nat \<Rightarrow> nat \<Rightarrow> 'a list \<Rightarrow> 'a list" where
  "subslice lo hi xs = take (hi - lo) (drop lo xs)"

lemma length_subslice [simp]:
  "hi \<le> length xs \<Longrightarrow> length (subslice lo hi xs) = hi - lo"
  by (simp add: subslice_def min.absorb2 diff_le_mono)

lemma subslice_append [simp]: "subslice 0 (length xs) (xs @ ys) = xs"
  by (simp add: subslice_def)

lemma distinct_eq_singleton: "distinct xs \<Longrightarrow> xs = [a] \<longleftrightarrow> set xs = {a}"
  by (cases xs) (auto simp: subset_singleton_iff)

text \<open>Two ways of cutting one list: the shorter front is a prefix of the longer one.\<close>

lemma append_eq_longer:
  assumes "xs @ ys = zs @ ws" and "length zs \<le> length xs"
  obtains us where "xs = zs @ us" and "us @ ys = ws"
  using assms by (auto simp: append_eq_append_conv2)

subsection \<open>Go strings and byte slices\<close>

definition bytes_of :: "string \<Rightarrow> bytes" where
  "bytes_of s = map (\<lambda>c. word_of_nat (of_char c)) s"

definition string_of :: "bytes \<Rightarrow> string" where
  "string_of bs = map (\<lambda>b. char_of (unat b)) bs"

lemma length_bytes_of [simp]: "length (bytes_of s) = length s"
  by (simp add: bytes_of_def)

lemma length_string_of [simp]: "length (string_of bs) = length bs"
  by (simp add: string_of_def)

lemma bytes_of_append [simp]: "bytes_of (s @ t) = bytes_of s @ bytes_of t"
  by (simp add: bytes_of_def)

lemma string_of_bytes_of [simp]: "string_of (bytes_of s) = s"
proof -
  have "char_of (unat (word_of_nat (of_char c) :: byte)) = c" for c
    by (simp add: unat_of_nat take_bit_eq_mod)
  then show ?thesis
    by (simp add: string_of_def bytes_of_def comp_def)
qed

lemma bytes_of_string_of [simp]: "bytes_of (string_of bs) = bs"
proof -
  have "word_of_nat (of_char (char_of (unat b) :: char)) = b" for b :: byte
  proof -
    have "unat b < 256"
      using unsigned_less [of b] by simp
    then show ?thesis by simp
  qed
  then show ?thesis
    by (simp add: string_of_def bytes_of_def comp_def)
qed

text \<open>Go's conversion \<open>int(w)\<close> of an unsigned 64-bit value is the two's complement reading.\<close>

abbreviation go_int :: "u64 \<Rightarrow> int" where
  "go_int w \<equiv> sint w"

text \<open>Signed 64-bit addition, as Go's \<open>int\<close> computes it: the sum wraps.\<close>

definition add_int64 :: "int \<Rightarrow> int \<Rightarrow> int" where
  "add_int64 a b = sint (word_of_int (a + b) :: u64)"

end
