(* ===== verification/Go_Error.thy ===== *)
theory Go_Error
  imports OB_Prelude
begin

text \<open>
  Go errors as values, the outcome of a modelled function, and \<open>errors.go\<close>: the server error
  packet and the classification of errors that retire a connection.

  An error built by \<open>fmt.Errorf\<close> or \<open>errors.New\<close> is \<open>Errorf\<close> with its format string and
  arguments; an argument printed with \<open>%w\<close> is \<open>AWrap\<close> (visible to \<open>errors.Is\<close> and
  \<open>errors.As\<close>), one printed with \<open>%v\<close> is \<open>AErr\<close> (text only).  \<open>NetError\<close> stands for any
  error of the transport that implements \<open>net.Error\<close>, \<open>OtherError\<close> for one that does not.
\<close>

datatype go_error =
    EOF
  | UnexpectedEOF
  | MalformedLenenc
  | BadConn
  | NetClosed
  | DeadlineExceeded
  | CtxErr string
  | NetError string
  | OtherError string
  | SeqErr (seqGot: byte) (seqWant: byte)
  | ServerErr (errNumber: u16) (errSQLState: string) (errMessage: string)
  | Errorf string "fmt_arg list"
and fmt_arg =
    AInt int
  | AStr string
  | AErr go_error
  | AWrap go_error

text \<open>What a call does: return a value, return an error, or panic (a run-time bounds error).\<close>

datatype 'a res = Ok 'a | Err go_error | Panic

fun bind_res :: "'a res \<Rightarrow> ('a \<Rightarrow> 'b res) \<Rightarrow> 'b res" where
  "bind_res (Ok x) f = f x"
| "bind_res (Err e) f = Err e"
| "bind_res Panic f = Panic"

fun is_ok :: "'a res \<Rightarrow> bool" where
  "is_ok (Ok _) = True"
| "is_ok _ = False"

lemma bind_res_cong [fundef_cong]:
  "m = m' \<Longrightarrow> (\<And>x. m' = Ok x \<Longrightarrow> f x = g x) \<Longrightarrow> bind_res m f = bind_res m' g"
  by (cases m') auto

lemma bind_res_eq_Ok [simp]:
  "bind_res m f = Ok y \<longleftrightarrow> (\<exists>x. m = Ok x \<and> f x = Ok y)"
  by (cases m) auto

lemma bind_res_eq_Panic:
  "bind_res m f = Panic \<longleftrightarrow> m = Panic \<or> (\<exists>x. m = Ok x \<and> f x = Panic)"
  by (cases m) auto

lemma bind_res_eq_Err:
  "bind_res m f = Err e \<longleftrightarrow> m = Err e \<or> (\<exists>x. m = Ok x \<and> f x = Err e)"
  by (cases m) auto

lemma is_ok_iff: "is_ok r \<longleftrightarrow> (\<exists>x. r = Ok x)"
  by (cases r) auto

subsection \<open>Calls that change state\<close>

text \<open>
  A method with a receiver of type \<open>'s\<close> returns its outcome and the receiver as the call left it,
  on the error paths too.  \<open>bind_st\<close> is the early return \<open>if err != nil { return ..., err }\<close>.
\<close>

type_synonym ('s, 'a) st = "'s \<Rightarrow> 'a res \<times> 's"

definition bind_st :: "('s, 'a) st \<Rightarrow> ('a \<Rightarrow> ('s, 'b) st) \<Rightarrow> ('s, 'b) st" where
  "bind_st m f s =
     (case m s of (Ok x, s') \<Rightarrow> f x s' | (Err e, s') \<Rightarrow> (Err e, s') | (Panic, s') \<Rightarrow> (Panic, s'))"

definition return_st :: "'a \<Rightarrow> ('s, 'a) st" where
  "return_st x s = (Ok x, s)"

definition fail_st :: "go_error \<Rightarrow> ('s, 'a) st" where
  "fail_st e s = (Err e, s)"

lemma bind_st_simps [simp]:
  "m s = (Ok x, s') \<Longrightarrow> bind_st m f s = f x s'"
  "m s = (Err e, s') \<Longrightarrow> bind_st m f s = (Err e, s')"
  "m s = (Panic, s') \<Longrightarrow> bind_st m f s = (Panic, s')"
  by (simp_all add: bind_st_def)

lemma return_st_apply [simp]: "return_st x s = (Ok x, s)"
  by (simp add: return_st_def)

lemma fail_st_apply [simp]: "fail_st e s = (Err e, s)"
  by (simp add: fail_st_def)

lemma bind_st_Ok_E:
  assumes "bind_st m f s = (Ok y, t)"
  obtains x s' where "m s = (Ok x, s')" and "f x s' = (Ok y, t)"
  using assms by (auto simp: bind_st_def split: prod.splits res.splits)

lemma bind_st_Panic_E:
  assumes "bind_st m f s = (Panic, t)"
  obtains (left) "m s = (Panic, t)"
  | (right) x s' where "m s = (Ok x, s')" and "f x s' = (Panic, t)"
  using assms by (auto simp: bind_st_def split: prod.splits res.splits)

text \<open>A property of states kept by both parts is kept by their sequence.\<close>

lemma bind_st_keeps:
  assumes "\<And>s. P s \<Longrightarrow> P (snd (m s))" and "\<And>x s. P s \<Longrightarrow> P (snd (f x s))" and "P s"
  shows "P (snd (bind_st m f s))"
proof -
  obtain r s' where m: "m s = (r, s')" by (cases "m s")
  with assms(1,3) have "P s'" by (metis snd_conv)
  with m assms(2) show ?thesis by (cases r) (auto simp: bind_st_def)
qed

subsection \<open>The error chain: errors.Is and errors.As\<close>

text \<open>
  \<open>err_matches p e\<close>: some error of the chain of \<open>e\<close> (itself or one wrapped with \<open>%w\<close>, to any
  depth) satisfies \<open>p\<close>.  \<open>errors.Is(e, target)\<close> and \<open>errors.As(e, &t)\<close> are its instances.
\<close>

fun err_matches :: "(go_error \<Rightarrow> bool) \<Rightarrow> go_error \<Rightarrow> bool"
  and arg_matches :: "(go_error \<Rightarrow> bool) \<Rightarrow> fmt_arg \<Rightarrow> bool"
  and args_match :: "(go_error \<Rightarrow> bool) \<Rightarrow> fmt_arg list \<Rightarrow> bool" where
  "err_matches p (Errorf f args) = (p (Errorf f args) \<or> args_match p args)"
| "err_matches p e = p e"
| "arg_matches p (AWrap e) = err_matches p e"
| "arg_matches p _ = False"
| "args_match p [] = False"
| "args_match p (a # as) = (arg_matches p a \<or> args_match p as)"

definition errors_Is :: "go_error \<Rightarrow> go_error \<Rightarrow> bool" where
  "errors_Is e target = err_matches (\<lambda>x. x = target) e"

fun is_ServerErr :: "go_error \<Rightarrow> bool" where
  "is_ServerErr (ServerErr _ _ _) = True"
| "is_ServerErr _ = False"

text \<open>
  The errors of the model that implement \<open>net.Error\<close>: \<open>SeqError\<close> declares it, and so do
  \<open>os.ErrDeadlineExceeded\<close> and \<open>context.DeadlineExceeded\<close>.
\<close>

fun is_net_error :: "go_error \<Rightarrow> bool" where
  "is_net_error (SeqErr _ _) = True"
| "is_net_error (NetError _) = True"
| "is_net_error DeadlineExceeded = True"
| "is_net_error (CtxErr s) = (s = ''context deadline exceeded'')"
| "is_net_error _ = False"

definition errors_As_ServerError :: "go_error \<Rightarrow> bool" where
  "errors_As_ServerError e = err_matches is_ServerErr e"

subsection \<open>errors.go\<close>

definition parseServerError :: "bytes \<Rightarrow> go_error" where
  "parseServerError packet =
     (if length packet < 3 \<or> packet ! 0 \<noteq> 0xff then Errorf ''malformed error packet'' []
      else
        let number = le_word (subslice 1 3 packet);
            hasState = 3 < length packet \<and> packet ! 3 = 0x23 \<and> 9 \<le> length packet;
            state = (if hasState then string_of (subslice 4 9 packet) else []);
            pos = (if hasState then 9 else 3);
            message = (if pos < length packet then string_of (drop pos packet) else [])
        in ServerErr number state message)"

definition isBadConnError :: "go_error \<Rightarrow> bool" where
  "isBadConnError e =
     (if errors_Is e BadConn \<or> errors_Is e EOF \<or> errors_Is e UnexpectedEOF \<or>
         errors_Is e NetClosed \<or> errors_Is e DeadlineExceeded
      then True
      else err_matches is_net_error e)"

text \<open>The packet a server sends for an error, as \<open>parseServerError\<close> expects it.\<close>

definition encode_server_error :: "u16 \<Rightarrow> string \<Rightarrow> string \<Rightarrow> bytes" where
  "encode_server_error number state message =
     [0xff] @ le_bytes 2 number @ (if state = [] then [] else 0x23 # bytes_of state) @
       bytes_of message"

lemma parseServerError_with_state [wire_roundtrip]:
  assumes "length state = 5"
  shows "parseServerError (encode_server_error n state msg) = ServerErr n state msg"
proof -
  have ne: "state \<noteq> []" using assms by auto
  have enc: "encode_server_error n state msg =
      0xff # le_bytes 2 n @ 0x23 # bytes_of state @ bytes_of msg"
    by (simp add: encode_server_error_def ne)
  have num: "subslice (Suc 0) 3 (encode_server_error n state msg) = le_bytes 2 n"
    by (simp add: enc subslice_def)
  have st: "subslice 4 9 (encode_server_error n state msg) = bytes_of state"
    using assms by (simp add: enc subslice_def eval_nat_numeral)
  have rest: "drop 9 (encode_server_error n state msg) = bytes_of msg"
    using assms by (simp add: enc eval_nat_numeral)
  have hd: "encode_server_error n state msg ! 0 = 0xff"
    "encode_server_error n state msg ! 3 = 0x23"
    by (simp_all add: enc nth_append eval_nat_numeral)
  have len: "length (encode_server_error n state msg) = 9 + length msg"
    using assms by (simp add: enc)
  show ?thesis
    by (simp add: parseServerError_def num st rest hd len le_word_le_bytes_id)
qed

lemma err_matches_mono:
  "(\<And>x. p x \<Longrightarrow> q x) \<Longrightarrow> err_matches p e \<Longrightarrow> err_matches q e"
  "(\<And>x. p x \<Longrightarrow> q x) \<Longrightarrow> arg_matches p a \<Longrightarrow> arg_matches q a"
  "(\<And>x. p x \<Longrightarrow> q x) \<Longrightarrow> args_match p as \<Longrightarrow> args_match q as"
  by (induction p e and p a and p as rule: err_matches_arg_matches_args_match.induct) auto

lemma parseServerError_cases:
  "parseServerError packet = Errorf ''malformed error packet'' [] \<or>
   is_ServerErr (parseServerError packet)"
  by (simp add: parseServerError_def Let_def)

end
