(* ===== verification/Wire_Codec.thy ===== *)
theory Wire_Codec
  imports Go_Error
begin

text \<open>
  The interface between a wire format and the code that reads it from a byte slice.  A reader
  takes the unread suffix \<open>src[pos:]\<close> and returns a value and the number of bytes it used; the
  caller advances \<open>pos\<close>.  \<open>wire_parser\<close> states what every such reader promises (it uses some
  bytes, never more than there are, and looks at no byte beyond them), \<open>wire_codec\<close> adds the
  encoder it inverts.  Loops that read a sequence of values are reasoned about once, here.
\<close>

type_synonym 'a reader = "bytes \<Rightarrow> ('a \<times> nat) res"

text \<open>Reading \<open>n\<close> values one after the other, as the callers' loops do.\<close>

fun read_many :: "'a reader \<Rightarrow> nat \<Rightarrow> bytes \<Rightarrow> ('a list \<times> nat) res" where
  "read_many rd 0 bs = Ok ([], 0)"
| "read_many rd (Suc n) bs =
     bind_res (rd bs) (\<lambda>(x, used).
       bind_res (read_many rd n (drop used bs)) (\<lambda>(xs, more). Ok (x # xs, used + more)))"

locale wire_parser =
  fixes rd :: "'a reader"
  assumes used_le: "rd bs = Ok (x, n) \<Longrightarrow> n \<le> length bs"
    and used_pos: "rd bs = Ok (x, n) \<Longrightarrow> 0 < n"
    and reads_prefix: "rd bs = Ok (x, n) \<Longrightarrow> rd (take n bs @ rest) = Ok (x, n)"
begin

lemma read_many_used_le: "read_many rd k bs = Ok (xs, n) \<Longrightarrow> n \<le> length bs"
proof (induction k arbitrary: bs xs n)
  case 0
  then show ?case by simp
next
  case (Suc k)
  then obtain x u ys m where "rd bs = Ok (x, u)" and "read_many rd k (drop u bs) = Ok (ys, m)"
    and "n = u + m" by auto
  with Suc.IH used_le show ?case by fastforce
qed

lemma read_many_length: "read_many rd k bs = Ok (xs, n) \<Longrightarrow> length xs = k"
  by (induction k arbitrary: bs xs n) fastforce+

lemma read_many_used_ge: "read_many rd k bs = Ok (xs, n) \<Longrightarrow> k \<le> n"
proof (induction k arbitrary: bs xs n)
  case 0
  then show ?case by simp
next
  case (Suc k)
  then obtain x u ys m where "rd bs = Ok (x, u)" and "read_many rd k (drop u bs) = Ok (ys, m)"
    and "n = u + m" by auto
  with Suc.IH used_pos show ?case by fastforce
qed

end

locale wire_codec = wire_parser rd for rd :: "'a reader" +
  fixes enc :: "'a \<Rightarrow> bytes"
    and valid :: "'a \<Rightarrow> bool"
  assumes rd_enc: "valid x \<Longrightarrow> rd (enc x @ rest) = Ok (x, length (enc x))"
begin

lemma enc_nonempty: "valid x \<Longrightarrow> enc x \<noteq> []"
  using rd_enc [of x "[]"] used_pos by fastforce

text \<open>No encoding is a proper prefix of another, so a byte stream splits in one way only.\<close>

lemma enc_prefix_free:
  assumes "valid x" and "valid y" and "enc x @ r = enc y @ s"
  shows "x = y \<and> r = s"
  using rd_enc [OF assms(1), of r] rd_enc [OF assms(2), of s] assms(3) by auto

lemma read_many_enc:
  "(\<And>x. x \<in> set xs \<Longrightarrow> valid x) \<Longrightarrow>
   read_many rd (length xs) (concat (map enc xs) @ rest) =
     Ok (xs, length (concat (map enc xs)))"
  by (induction xs) (simp_all add: rd_enc)

end

end
