(* ===== verification/Lenenc.thy ===== *)
theory Lenenc
  imports Wire_Codec
begin

text \<open>
  \<open>internal/protocol/lenenc.go\<close>: MySQL length-encoded integers and strings.  The writers append
  to a destination slice; the readers return the value, the number of bytes consumed and whether
  the field was the NULL marker.
\<close>

subsection \<open>The code\<close>

definition PutLengthEncodedInt :: "bytes \<Rightarrow> u64 \<Rightarrow> bytes" where
  "PutLengthEncodedInt dst n =
     (if n < 251 then dst @ [ucast n]
      else if n < 0x10000 then (dst @ [0xfc]) @ le_bytes 2 (ucast n :: u16)
      else if n < 0x1000000 then
        dst @ [0xfd, ucast n, ucast (drop_bit 8 n), ucast (drop_bit 16 n)]
      else
        dst @ [0xfe,
          ucast n, ucast (drop_bit 8 n), ucast (drop_bit 16 n), ucast (drop_bit 24 n),
          ucast (drop_bit 32 n), ucast (drop_bit 40 n), ucast (drop_bit 48 n),
          ucast (drop_bit 56 n)])"

definition PutLengthEncodedString :: "bytes \<Rightarrow> bytes \<Rightarrow> bytes" where
  "PutLengthEncodedString dst s = PutLengthEncodedInt dst (word_of_nat (length s)) @ s"

definition ReadLengthEncodedInt :: "bytes \<Rightarrow> (u64 \<times> nat \<times> bool) res" where
  "ReadLengthEncodedInt src =
     (if length src = 0 then Err UnexpectedEOF
      else if src ! 0 = 0xfb then Ok (0, 1, True)
      else if src ! 0 = 0xfc then
        (if length src < 3 then Err UnexpectedEOF
         else Ok (ucast (le_word (subslice 1 3 src) :: u16), 3, False))
      else if src ! 0 = 0xfd then
        (if length src < 4 then Err UnexpectedEOF
         else Ok (le24 (src ! 1) (src ! 2) (src ! 3), 4, False))
      else if src ! 0 = 0xfe then
        (if length src < 9 then Err UnexpectedEOF
         else Ok (le_word (subslice 1 9 src), 9, False))
      else if src ! 0 = 0xff then Err MalformedLenenc
      else Ok (ucast (src ! 0), 1, False))"

definition ReadLengthEncodedString :: "bytes \<Rightarrow> (bytes \<times> nat \<times> bool) res" where
  "ReadLengthEncodedString src =
     bind_res (ReadLengthEncodedInt src) (\<lambda>(n, used, isNull).
       if isNull then Ok ([], used, isNull)
       else if length src - used < unat n then Err UnexpectedEOF
       else Ok (subslice used (used + unat n) src, used + unat n, False))"

subsection \<open>Readers and encoders in the shape of the codec interface\<close>

text \<open>The NULL marker is the value \<open>None\<close>.\<close>

definition lenenc_int_reader :: "u64 option reader" where
  "lenenc_int_reader src =
     bind_res (ReadLengthEncodedInt src) (\<lambda>(n, used, isNull).
       Ok (if isNull then None else Some n, used))"

definition lenenc_string_reader :: "bytes option reader" where
  "lenenc_string_reader src =
     bind_res (ReadLengthEncodedString src) (\<lambda>(s, used, isNull).
       Ok (if isNull then None else Some s, used))"

fun lenenc_int :: "u64 option \<Rightarrow> bytes" where
  "lenenc_int None = [0xfb]"
| "lenenc_int (Some n) = PutLengthEncodedInt [] n"

fun lenenc_string :: "bytes option \<Rightarrow> bytes" where
  "lenenc_string None = [0xfb]"
| "lenenc_string (Some s) = PutLengthEncodedString [] s"

text \<open>A Go slice has at most \<open>2^63 - 1\<close> elements.\<close>

definition go_len :: "'a list \<Rightarrow> bool" where
  "go_len xs \<longleftrightarrow> length xs < 2 ^ 63"

fun valid_lenenc_string :: "bytes option \<Rightarrow> bool" where
  "valid_lenenc_string None = True"
| "valid_lenenc_string (Some s) = go_len s"

subsection \<open>Appending\<close>

lemma PutLengthEncodedInt_append:
  "PutLengthEncodedInt dst n = dst @ PutLengthEncodedInt [] n"
  by (simp add: PutLengthEncodedInt_def)

lemma PutLengthEncodedString_append:
  "PutLengthEncodedString dst s = dst @ PutLengthEncodedString [] s"
  by (simp add: PutLengthEncodedString_def PutLengthEncodedInt_append [of dst])

lemma length_PutLengthEncodedInt:
  "length (PutLengthEncodedInt [] n) =
     (if n < 251 then 1 else if n < 0x10000 then 3 else if n < 0x1000000 then 4 else 9)"
  by (simp add: PutLengthEncodedInt_def)

subsection \<open>Reading an integer\<close>

text \<open>
  The reader on a non-empty slice: the first byte selects how many little-endian bytes follow.
\<close>

lemma ReadLengthEncodedInt_Nil [simp]: "ReadLengthEncodedInt [] = Err UnexpectedEOF"
  by (simp add: ReadLengthEncodedInt_def)

lemma ReadLengthEncodedInt_Cons:
  "ReadLengthEncodedInt (b # r) =
     (if b = 0xfb then Ok (0, 1, True)
      else if b = 0xfc then
        (if length r < 2 then Err UnexpectedEOF else Ok (le_word (take 2 r), 3, False))
      else if b = 0xfd then
        (if length r < 3 then Err UnexpectedEOF else Ok (le_word (take 3 r), 4, False))
      else if b = 0xfe then
        (if length r < 8 then Err UnexpectedEOF else Ok (le_word (take 8 r), 9, False))
      else if b = 0xff then Err MalformedLenenc
      else Ok (ucast b, 1, False))"
proof -
  have three: "le24 (r ! 0) (r ! Suc 0) (r ! 2) = (le_word (take 3 r) :: u64)"
    if len: "3 \<le> length r"
  proof -
    obtain x y z rest where r: "r = x # y # z # rest"
      using len by (metis Suc_le_length_iff eval_nat_numeral(2) numeral_2_eq_2 numeral_3_eq_3)
    show ?thesis
      by (simp add: r take_Cons' le24_le_word)
  qed
  show ?thesis
    using three
    by (auto simp: ReadLengthEncodedInt_def subslice_def ucast_le_word not_less Suc_le_eq)
qed

lemma PutLengthEncodedInt_cases:
  "PutLengthEncodedInt [] n =
     (if n < 251 then [ucast n]
      else if n < 0x10000 then 0xfc # le_bytes 2 n
      else if n < 0x1000000 then 0xfd # le_bytes 3 n
      else 0xfe # le_bytes 8 n)"
proof -
  have "le_bytes 2 (ucast n :: u16) = le_bytes 2 n"
    by (simp add: le_bytes_ucast)
  then show ?thesis
    by (simp add: PutLengthEncodedInt_def le_bytes_numerals(3,5))
qed

lemma ReadLengthEncodedInt_used:
  "ReadLengthEncodedInt src = Ok (v, used, isNull) \<Longrightarrow>
     0 < used \<and> used \<le> length src \<and> used \<le> 9"
  by (cases src) (auto simp: ReadLengthEncodedInt_Cons split: if_splits)

lemma ReadLengthEncodedInt_prefix:
  "ReadLengthEncodedInt src = Ok (v, used, isNull) \<Longrightarrow>
   ReadLengthEncodedInt (take used src @ rest) = Ok (v, used, isNull)"
  by (cases src) (auto simp: ReadLengthEncodedInt_Cons min_def split: if_splits)

lemma small_byte:
  assumes "n < 251"
  shows "ucast (ucast (n :: u64) :: byte) = n" and "unat (ucast n :: byte) < 251"
proof -
  have n: "unat n < 251" using assms by (simp add: word_less_nat_alt)
  then have u: "unat (ucast n :: byte) = unat n"
    by (simp add: unsigned_ucast_eq take_bit_nat_eq_self)
  with n show "unat (ucast n :: byte) < 251" by simp
  from n show "ucast (ucast n :: byte) = n"
    by (simp add: word_unat_eq_iff unsigned_ucast_eq unsigned_take_bit_eq take_bit_nat_eq_self)
qed

lemma ReadLengthEncodedInt_Put [wire_roundtrip]:
  "ReadLengthEncodedInt (PutLengthEncodedInt [] n @ rest) =
     Ok (n, length (PutLengthEncodedInt [] n), False)"
proof (cases "n < 251")
  case True
  have "(ucast n :: byte) \<noteq> k" if "k \<in> {0xfb, 0xfc, 0xfd, 0xfe, 0xff}" for k
    using small_byte(2) [OF True] that by auto
  then show ?thesis
    using True small_byte(1) [OF True]
    by (simp add: PutLengthEncodedInt_cases ReadLengthEncodedInt_Cons)
next
  case False
  have "unat n < 2 ^ (8 * 2)" if "n < 0x10000" using that by (simp add: word_less_nat_alt)
  moreover have "unat n < 2 ^ (8 * 3)" if "n < 0x1000000"
    using that by (simp add: word_less_nat_alt)
  ultimately show ?thesis
    using False
    by (simp add: PutLengthEncodedInt_cases ReadLengthEncodedInt_Cons
        le_word_le_bytes_small le_word_le_bytes_id)
qed

subsection \<open>Reading a string\<close>

lemma ReadLengthEncodedString_used:
  "ReadLengthEncodedString src = Ok (s, used, isNull) \<Longrightarrow>
     0 < used \<and> used \<le> length src \<and> length s < used"
  by (auto simp: ReadLengthEncodedString_def subslice_def not_less split: if_splits
      dest!: ReadLengthEncodedInt_used)

lemma ReadLengthEncodedString_prefix:
  assumes "ReadLengthEncodedString src = Ok (s, used, isNull)"
  shows "ReadLengthEncodedString (take used src @ rest) = Ok (s, used, isNull)"
proof -
  from assms obtain n u null where int: "ReadLengthEncodedInt src = Ok (n, u, null)"
    by (auto simp: ReadLengthEncodedString_def)
  have u: "0 < u" "u \<le> length src" using ReadLengthEncodedInt_used [OF int] by auto
  show ?thesis
  proof (cases null)
    case True
    with int assms have "used = u" "s = []" "isNull"
      by (auto simp: ReadLengthEncodedString_def)
    with ReadLengthEncodedInt_prefix [OF int, of rest] True show ?thesis
      by (simp add: ReadLengthEncodedString_def)
  next
    case False
    with int assms have eqs: "used = u + unat n" "s = take (unat n) (drop u src)" "\<not> isNull"
      and fits: "unat n \<le> length src - u"
      by (auto simp: ReadLengthEncodedString_def subslice_def split: if_splits)
    have "take used src @ rest = take u src @ (s @ rest)"
      using eqs u by (simp add: take_add)
    then have int': "ReadLengthEncodedInt (take used src @ rest) = Ok (n, u, False)"
      using ReadLengthEncodedInt_prefix [OF int, of "s @ rest"] False by simp
    have "length s = unat n" using eqs fits by simp
    then show ?thesis
      using int' eqs fits u
      by (simp add: ReadLengthEncodedString_def subslice_def take_add)
  qed
qed

lemma ReadLengthEncodedString_Put [wire_roundtrip]:
  assumes "go_len s"
  shows "ReadLengthEncodedString (PutLengthEncodedString [] s @ rest) =
    Ok (s, length (PutLengthEncodedString [] s), False)"
proof -
  have "unat (word_of_nat (length s) :: u64) = length s"
    using assms by (intro unat_of_nat_small) (simp add: go_len_def)
  then show ?thesis
    by (simp add: ReadLengthEncodedString_def PutLengthEncodedString_def
        ReadLengthEncodedInt_Put subslice_def)
qed

subsection \<open>The codec interface\<close>

interpretation int_codec: wire_codec lenenc_int_reader lenenc_int "\<lambda>_. True"
proof unfold_locales
  fix bs x n rest
  assume "lenenc_int_reader bs = Ok (x, n)"
  then obtain v isNull where r: "ReadLengthEncodedInt bs = Ok (v, n, isNull)"
    and x: "x = (if isNull then None else Some v)"
    by (auto simp: lenenc_int_reader_def)
  show "n \<le> length bs" and "0 < n"
    using ReadLengthEncodedInt_used [OF r] by auto
  show "lenenc_int_reader (take n bs @ rest) = Ok (x, n)"
    using ReadLengthEncodedInt_prefix [OF r] x by (simp add: lenenc_int_reader_def)
next
  fix x rest
  show "lenenc_int_reader (lenenc_int x @ rest) = Ok (x, length (lenenc_int x))"
    by (cases x)
      (simp_all add: lenenc_int_reader_def ReadLengthEncodedInt_Cons ReadLengthEncodedInt_Put)
qed

interpretation string_codec: wire_codec lenenc_string_reader lenenc_string valid_lenenc_string
proof unfold_locales
  fix bs x n rest
  assume "lenenc_string_reader bs = Ok (x, n)"
  then obtain s isNull where r: "ReadLengthEncodedString bs = Ok (s, n, isNull)"
    and x: "x = (if isNull then None else Some s)"
    by (auto simp: lenenc_string_reader_def)
  show "n \<le> length bs" and "0 < n"
    using ReadLengthEncodedString_used [OF r] by auto
  show "lenenc_string_reader (take n bs @ rest) = Ok (x, n)"
    using ReadLengthEncodedString_prefix [OF r] x by (simp add: lenenc_string_reader_def)
next
  fix x rest
  assume valid: "valid_lenenc_string x"
  show "lenenc_string_reader (lenenc_string x @ rest) = Ok (x, length (lenenc_string x))"
  proof (cases x)
    case None
    then show ?thesis
      by (simp add: lenenc_string_reader_def ReadLengthEncodedString_def ReadLengthEncodedInt_Cons)
  next
    case (Some s)
    with valid show ?thesis
      by (simp add: lenenc_string_reader_def ReadLengthEncodedString_Put)
  qed
qed

subsection \<open>Properties\<close>

text \<open>
  C38: What \<open>PutLengthEncodedInt\<close> and \<open>PutLengthEncodedString\<close> append to a slice is read back
  as the same integer or string, whatever follows it, and exactly the appended bytes are used.
\<close>

theorem lenenc_roundtrip:
  assumes "go_len s"
  shows "ReadLengthEncodedInt (drop (length dst) (PutLengthEncodedInt dst n) @ rest) =
      Ok (n, length (PutLengthEncodedInt dst n) - length dst, False) \<and>
    ReadLengthEncodedString (drop (length dst) (PutLengthEncodedString dst s) @ rest) =
      Ok (s, length (PutLengthEncodedString dst s) - length dst, False)"
  by (simp add: PutLengthEncodedInt_append [of dst] PutLengthEncodedString_append [of dst]
      ReadLengthEncodedInt_Put ReadLengthEncodedString_Put assms)

theorem lenenc_roundtrip_witness:
  "ReadLengthEncodedString [2, 65, 66, 9] = Ok ([65, 66], 3, False) \<and>
   ReadLengthEncodedInt [0xfc, 0, 1, 7] = Ok (256, 3, False)"
proof -
  have wrap: "(256 :: byte) = 0" by simp
  show ?thesis
    using lenenc_roundtrip [of "[65, 66]" "[]" 256 "[7]"] lenenc_roundtrip [of "[65, 66]" "[]" 256 "[9]"]
    by (simp add: wrap go_len_def PutLengthEncodedInt_def PutLengthEncodedString_def wire_simps)
qed

text \<open>
  on arbitrary bytes the readers never use more bytes than there are, never return a string
  longer than what they used, and their result depends on the bytes they used only, so a value at
  the end of a packet and one in the middle of it are read alike.
\<close>

theorem lenenc_reads_are_local:
  assumes "ReadLengthEncodedString src = Ok (s, used, isNull)"
  shows "0 < used \<and> used \<le> length src \<and> length s < used \<and>
    (\<forall>rest. ReadLengthEncodedString (take used src @ rest) = Ok (s, used, isNull))"
  using ReadLengthEncodedString_used [OF assms] ReadLengthEncodedString_prefix [OF assms] by blast

theorem lenenc_reads_are_local_witness:
  "ReadLengthEncodedString [1, 65, 66] = Ok ([65], 2, False) \<and>
   ReadLengthEncodedString [1, 65, 0xff, 0xff] = Ok ([65], 2, False)"
proof -
  have "ReadLengthEncodedString [1, 65, 66] = Ok ([65], 2, False)"
    by (simp add: ReadLengthEncodedString_def ReadLengthEncodedInt_Cons subslice_def)
  with lenenc_reads_are_local [OF this] show ?thesis by (auto dest!: spec [of _ "[0xff, 0xff]"])
qed

end
