(* ===== verification/Ob20.thy ===== *)
theory Ob20
  imports Lenenc
begin

text \<open>
  \<open>internal/protocol/ob20.go\<close>: the OceanBase 2.0 frame header with its CRC16, the CRC32C payload
  checksum, and the typed extra-info records a frame may carry.
\<close>

subsection \<open>Constants\<close>

definition OB20MagicNum :: u16 where "OB20MagicNum = 0x20AB"
definition OB20Version :: u16 where "OB20Version = 20"
definition CompressHeaderLen :: nat where "CompressHeaderLen = 7"
definition OB20HeaderLen :: nat where "OB20HeaderLen = 24"
definition TotalHeaderLen :: nat where "TotalHeaderLen = 31"
definition OB20TailLen :: nat where "OB20TailLen = 4"
definition OB20ExtraLengthField :: nat where "OB20ExtraLengthField = 4"

definition OB20FlagExtraInfo :: u32 where "OB20FlagExtraInfo = push_bit 0 1"
definition OB20FlagLast :: u32 where "OB20FlagLast = push_bit 1 1"
definition OB20FlagProxyReroute :: u32 where "OB20FlagProxyReroute = push_bit 2 1"
definition OB20FlagNewExtraInfo :: u32 where "OB20FlagNewExtraInfo = push_bit 3 1"

definition OB20ExtraInfoTypeFullTrace :: u16 where "OB20ExtraInfoTypeFullTrace = 2003"
definition OB20ExtraInfoTypePartitionID :: u16 where "OB20ExtraInfoTypePartitionID = 2005"

lemmas ob20_consts = OB20MagicNum_def OB20Version_def CompressHeaderLen_def OB20HeaderLen_def
  TotalHeaderLen_def OB20TailLen_def OB20ExtraLengthField_def

lemmas ob20_flags = OB20FlagExtraInfo_def OB20FlagLast_def OB20FlagProxyReroute_def
  OB20FlagNewExtraInfo_def

subsection \<open>Checksums\<close>

text \<open>
  The inner loop that fills a table entry: \<open>j\<close> shifts of the reflected register, each followed by
  the polynomial when a one is shifted out.
\<close>

fun crc_bits :: "'a::len word \<Rightarrow> nat \<Rightarrow> 'a word \<Rightarrow> 'a word" where
  "crc_bits poly 0 crc = crc"
| "crc_bits poly (Suc j) crc =
     crc_bits poly j (if crc AND 1 \<noteq> 0 then drop_bit 1 crc XOR poly else drop_bit 1 crc)"

definition crc16IBMTable :: "u16 list" where
  "crc16IBMTable = map (\<lambda>i. crc_bits 0xA001 8 (word_of_nat i)) [0..<256]"

definition CRC16 :: "bytes \<Rightarrow> u16" where
  "CRC16 data =
     foldl (\<lambda>crc b. drop_bit 8 crc XOR (crc16IBMTable ! unat ((ucast crc XOR b) AND 0xff))) 0 data"

definition crc32cOBTable :: "u32 list" where
  "crc32cOBTable = map (\<lambda>i. crc_bits 0x82F63B78 8 (word_of_nat i)) [0..<256]"

definition OB20PayloadChecksum :: "bytes \<Rightarrow> u32" where
  "OB20PayloadChecksum data =
     foldl (\<lambda>crc b. drop_bit 8 crc XOR (crc32cOBTable ! unat (ucast crc XOR b))) 0 data"

subsection \<open>The frame header\<close>

record OB20Header =
  CompressLength :: u32
  CompressSeqNo :: byte
  UncompressLength :: u32
  MagicNum :: u16
  Version :: u16
  ConnectionID :: u32
  RequestID :: u32
  PacketSeq :: byte
  PayloadLen :: u32
  Flag :: u32
  Reserved :: u16
  HeaderCRC :: u16

text \<open>The first 29 bytes, over which the CRC is computed.\<close>

definition header_fields :: "OB20Header \<Rightarrow> bytes" where
  "header_fields h =
     [ucast (CompressLength h), ucast (drop_bit 8 (CompressLength h)),
      ucast (drop_bit 16 (CompressLength h)),
      CompressSeqNo h,
      ucast (UncompressLength h), ucast (drop_bit 8 (UncompressLength h)),
      ucast (drop_bit 16 (UncompressLength h))] @
     le_bytes 2 (MagicNum h) @
     le_bytes 2 (Version h) @
     le_bytes 4 (ConnectionID h) @
     [ucast (RequestID h), ucast (drop_bit 8 (RequestID h)), ucast (drop_bit 16 (RequestID h)),
      PacketSeq h] @
     le_bytes 4 (PayloadLen h) @
     le_bytes 4 (Flag h) @
     le_bytes 2 (Reserved h)"

text \<open>\<open>Encode\<close> fills the 31-byte array it is given and stores the CRC in the header.\<close>

definition OB20Header_Encode :: "OB20Header \<Rightarrow> bytes \<times> OB20Header" where
  "OB20Header_Encode h =
     (let crc = CRC16 (header_fields h)
      in (header_fields h @ le_bytes 2 crc, h\<lparr>HeaderCRC := crc\<rparr>))"

text \<open>\<open>Decode\<close> reports failure as \<open>false\<close>; the caller then drops the header.\<close>

definition OB20Header_Decode :: "bytes \<Rightarrow> OB20Header option" where
  "OB20Header_Decode buf =
     (if length buf < TotalHeaderLen then None
      else
        let magic = le_word (subslice 7 9 buf); version = le_word (subslice 9 11 buf)
        in if magic \<noteq> OB20MagicNum \<or> version \<noteq> OB20Version then None
        else
          let h = \<lparr>CompressLength = le24 (buf ! 0) (buf ! 1) (buf ! 2),
                   CompressSeqNo = buf ! 3,
                   UncompressLength = le24 (buf ! 4) (buf ! 5) (buf ! 6),
                   MagicNum = magic, Version = version,
                   ConnectionID = le_word (subslice 11 15 buf),
                   RequestID = le24 (buf ! 15) (buf ! 16) (buf ! 17),
                   PacketSeq = buf ! 18,
                   PayloadLen = le_word (subslice 19 23 buf),
                   Flag = le_word (subslice 23 27 buf),
                   Reserved = le_word (subslice 27 29 buf),
                   HeaderCRC = le_word (subslice 29 31 buf)\<rparr>
          in if HeaderCRC h \<noteq> 0
             then (if HeaderCRC h = CRC16 (subslice 0 29 buf) then Some h else None)
             else Some h)"

definition PeekIsOB20 :: "bytes \<Rightarrow> bool" where
  "PeekIsOB20 buf =
     (if length buf < TotalHeaderLen then False
      else le_word (subslice 7 9 buf) = OB20MagicNum \<and> le_word (subslice 9 11 buf) = OB20Version)"

subsection \<open>Extra info\<close>

record OB20ExtraInfo =
  Type :: u16
  Data :: bytes

definition OB20ExtraInfo_Encode :: "OB20ExtraInfo \<Rightarrow> bytes" where
  "OB20ExtraInfo_Encode e =
     le_bytes 2 (Type e) @ le_bytes 4 (word_of_nat (length (Data e)) :: u32) @ Data e"

definition OB20ExtraInfo_TotalLen :: "OB20ExtraInfo \<Rightarrow> nat" where
  "OB20ExtraInfo_TotalLen e = 6 + length (Data e)"

function ParseOB20ExtraInfo_loop :: "OB20ExtraInfo list \<Rightarrow> bytes \<Rightarrow> OB20ExtraInfo list res" where
  "ParseOB20ExtraInfo_loop infos data =
     (if data = [] then Ok infos
      else if length data < 6 then Ok infos
      else
        let typ = le_word (subslice 0 2 data);
            len = unat (le_word (subslice 2 6 data) :: u32);
            rest = drop 6 data
        in if length rest < len then Err UnexpectedEOF
           else ParseOB20ExtraInfo_loop (infos @ [\<lparr>Type = typ, Data = subslice 0 len rest\<rparr>])
                  (drop len rest))"
  by pat_completeness auto
termination
  by (relation "measure (\<lambda>(infos, data). length data)") auto

definition ParseOB20ExtraInfo :: "bytes \<Rightarrow> OB20ExtraInfo list res" where
  "ParseOB20ExtraInfo data = ParseOB20ExtraInfo_loop [] data"

definition BuildFLTExtraInfo :: "bytes \<Rightarrow> bytes \<Rightarrow> bytes" where
  "BuildFLTExtraInfo traceID spanID =
     PutLengthEncodedString (PutLengthEncodedString [0x01] traceID @ [0x02]) spanID"

declare ParseOB20ExtraInfo_loop.simps [simp del]

subsection \<open>A bit-serial reference for the checksums\<close>

text \<open>
  The textbook reflected CRC: exclude-or the next byte into the register, then shift eight times.
  The table-driven loops compute the same register.
\<close>

definition crc_byte :: "'a::len word \<Rightarrow> 'a word \<Rightarrow> byte \<Rightarrow> 'a word" where
  "crc_byte poly crc b = crc_bits poly 8 (crc XOR ucast b)"

definition crc_serial :: "'a::len word \<Rightarrow> bytes \<Rightarrow> 'a word" where
  "crc_serial poly data = foldl (crc_byte poly) 0 data"

lemma crc_shift_eq:
  "(if c AND 1 \<noteq> 0 then drop_bit 1 c XOR poly else drop_bit 1 c) =
   drop_bit 1 c XOR (if bit c 0 then poly else (0 :: 'a::len word))"
  by (simp add: and_one_eq bit_0 odd_iff_mod_2_eq_one)

lemma crc_bits_8 [wire_simps]:
  "crc_bits poly 8 c = crc_bits poly (Suc (Suc (Suc (Suc (Suc (Suc (Suc (Suc 0)))))))) c"
  by (simp add: eval_nat_numeral)

text \<open>The register update is linear over exclusive or.\<close>

lemma crc_bits_xor: "crc_bits poly n (a XOR b) = crc_bits poly n a XOR crc_bits poly n b"
proof (induction n arbitrary: a b)
  case 0
  then show ?case by simp
next
  case (Suc n)
  have "drop_bit 1 (a XOR b) XOR (if bit (a XOR b) 0 then poly else 0) =
     (drop_bit 1 a XOR (if bit a 0 then poly else 0)) XOR
     (drop_bit 1 b XOR (if bit b 0 then poly else 0))"
    by (rule bit_word_eqI) (auto simp: bit_simps)
  then show ?case by (simp only: crc_bits.simps crc_shift_eq Suc)
qed

lemma crc_bits_clear:
  "(\<And>i. i < n \<Longrightarrow> \<not> bit c i) \<Longrightarrow> crc_bits poly n c = drop_bit n c"
proof (induction n arbitrary: c)
  case 0
  then show ?case by simp
next
  case (Suc n)
  have "\<not> bit c 0" using Suc.prems by blast
  moreover have "crc_bits poly n (drop_bit 1 c) = drop_bit n (drop_bit 1 c)"
    by (rule Suc.IH) (use Suc.prems in \<open>auto simp: bit_simps\<close>)
  ultimately show ?case
    by (simp only: crc_bits.simps crc_shift_eq) (simp add: drop_bit_drop_bit)
qed

lemma crc_bits_add: "crc_bits poly (m + n) c = crc_bits poly n (crc_bits poly m c)"
  by (induction m arbitrary: c) auto

text \<open>When the polynomial has its top bit set, no two registers merge.\<close>

lemma crc_bits_inj:
  assumes top: "bit poly (LENGTH('a) - 1)"
  shows "crc_bits poly n a = crc_bits poly n (b :: 'a::len word) \<Longrightarrow> a = b"
proof (induction n arbitrary: a b)
  case 0
  then show ?case by simp
next
  case (Suc n)
  define s where "s c = drop_bit 1 c XOR (if bit c 0 then poly else (0 :: 'a word))" for c
  have "crc_bits poly n (s a) = crc_bits poly n (s b)"
    using Suc.prems by (simp only: crc_bits.simps crc_shift_eq s_def)
  then have eq: "s a = s b" by (rule Suc.IH)
  have "bit (s c) (LENGTH('a) - 1) = bit c 0" for c
    using top by (auto simp: s_def bit_simps dest: bit_imp_le_length)
  with eq have zero: "bit a 0 = bit b 0" by metis
  have "drop_bit 1 c = s c XOR (if bit c 0 then poly else 0)" for c
    by (simp add: s_def xor.assoc)
  with eq zero have "drop_bit 1 a = drop_bit 1 b" by metis
  then have "bit a (Suc i) = bit b (Suc i)" for i
    by (metis bit_drop_bit_eq comp_apply plus_1_eq_Suc)
  with zero have "bit a i = bit b i" for i by (cases i) auto
  then show ?case by (simp add: bit_eq_iff)
qed

lemma crc_table_step:
  assumes "8 \<le> LENGTH('a)"
  shows "drop_bit 8 crc XOR crc_bits poly 8 (ucast ((ucast crc :: byte) XOR b)) =
    crc_byte poly (crc :: 'a::len word) b"
proof -
  define hi where "hi = push_bit 8 (drop_bit 8 crc)"
  have "crc XOR ucast b = hi XOR ucast ((ucast crc :: byte) XOR b)"
    using assms by (intro bit_word_eqI) (auto simp: hi_def bit_simps dest: bit_imp_le_length)
  moreover have "crc_bits poly 8 hi = drop_bit 8 crc"
    using assms by (subst crc_bits_clear)
      (auto simp: hi_def bit_simps intro!: bit_word_eqI dest: bit_imp_le_length)
  ultimately show ?thesis
    by (simp add: crc_byte_def crc_bits_xor)
qed

lemma crc_table_nth:
  "map (\<lambda>i. crc_bits poly 8 (word_of_nat i :: 'a::len word)) [0..<256] ! unat (x :: byte) =
     crc_bits poly 8 (ucast x)"
proof -
  have "unat x < 256" using unsigned_less [of x] by simp
  then show ?thesis by simp
qed

lemma CRC16_serial: "CRC16 data = crc_serial 0xA001 data"
proof -
  have "(\<lambda>crc b. drop_bit 8 crc XOR (crc16IBMTable ! unat ((ucast crc XOR b) AND 0xff))) =
      crc_byte 0xA001"
  proof (intro ext)
    fix crc :: u16 and b :: byte
    have "(0xff :: byte) = - 1" by simp
    then have "((ucast crc XOR b) AND 0xff) = ucast crc XOR b"
      by (simp only: and.right_neutral)
    then show "drop_bit 8 crc XOR (crc16IBMTable ! unat ((ucast crc XOR b) AND 0xff)) =
        crc_byte 0xA001 crc b"
      by (simp add: crc16IBMTable_def crc_table_nth crc_table_step)
  qed
  then show ?thesis by (simp add: CRC16_def crc_serial_def)
qed

lemma OB20PayloadChecksum_serial: "OB20PayloadChecksum data = crc_serial 0x82F63B78 data"
proof -
  have "(\<lambda>crc b. drop_bit 8 crc XOR (crc32cOBTable ! unat (ucast crc XOR b))) =
      crc_byte 0x82F63B78"
    by (intro ext) (simp add: crc32cOBTable_def crc_table_nth crc_table_step)
  then show ?thesis by (simp add: OB20PayloadChecksum_def crc_serial_def)
qed

subsection \<open>Error detection\<close>

text \<open>
  Over a window of at most as many bytes as the register has, the register starts as an injective
  image of the window; later bytes never merge two registers.  So changing bytes inside one
  window always changes the checksum.
\<close>

lemma foldl_crc_byte_window:
  "8 * length bs \<le> LENGTH('a) \<Longrightarrow>
   foldl (crc_byte poly) crc bs =
     crc_bits poly (8 * length bs) (crc XOR le_word bs :: 'a::len word)"
proof (induction bs arbitrary: crc)
  case Nil
  then show ?case by simp
next
  case (Cons b bs)
  have "crc_bits poly 8 (push_bit 8 (le_word bs)) = (le_word bs :: 'a word)"
    using Cons.prems
    by (subst crc_bits_clear) (auto simp: bit_le_word bit_simps intro!: bit_word_eqI)
  moreover have
    "ucast b OR push_bit 8 (le_word bs) = (ucast b XOR push_bit 8 (le_word bs) :: 'a word)"
    by (rule bit_word_eqI) (auto simp: bit_simps dest: bit_imp_le_length)
  ultimately have "crc_byte poly crc b XOR le_word bs = crc_bits poly 8 (crc XOR le_word (b # bs))"
    by (simp add: crc_byte_def crc_bits_xor le_word.simps xor.assoc)
  with Cons show ?case
    by (simp add: crc_bits_add add.commute)
qed

lemma foldl_crc_byte_inj:
  assumes "bit poly (LENGTH('a) - 1)"
  shows "foldl (crc_byte poly) c bs = foldl (crc_byte poly) d bs \<Longrightarrow> c = (d :: 'a::len word)"
proof (induction bs arbitrary: c d)
  case Nil
  then show ?case by simp
next
  case (Cons b bs)
  then have "crc_byte poly c b = crc_byte poly d b" by simp
  then have "c XOR ucast b = d XOR ucast b"
    using crc_bits_inj [OF assms] unfolding crc_byte_def by blast
  then show ?case by (metis xor.assoc xor.right_neutral xor_self_eq)
qed

lemma crc_serial_window:
  fixes poly :: "'a::len word"
  assumes top: "bit poly (LENGTH('a) - 1)"
    and len: "length xs = length ys" "8 * length xs \<le> LENGTH('a)" and ne: "xs \<noteq> ys"
  shows "crc_serial poly (pre @ xs @ post) \<noteq> crc_serial poly (pre @ ys @ post)"
proof
  define c where "c = foldl (crc_byte poly) 0 pre"
  assume "crc_serial poly (pre @ xs @ post) = crc_serial poly (pre @ ys @ post)"
  then have "foldl (crc_byte poly) c xs = foldl (crc_byte poly) c ys"
    using foldl_crc_byte_inj [OF top] by (simp add: crc_serial_def c_def)
  then have "c XOR le_word xs = c XOR (le_word ys :: 'a word)"
    using len crc_bits_inj [OF top] by (simp add: foldl_crc_byte_window)
  then have "le_word xs = (le_word ys :: 'a word)"
    by (metis xor.assoc xor.left_neutral xor_self_eq)
  then have "xs = ys"
    using len by (metis le_bytes_le_word)
  with ne show False ..
qed

subsection \<open>Header round trip and corruption\<close>

lemma length_header_fields [simp]: "length (header_fields h) = 29"
  by (simp add: header_fields_def)

lemma length_Encode [simp]: "length (fst (OB20Header_Encode h)) = 31"
  by (simp add: OB20Header_Encode_def Let_def)

text \<open>The widths the wire format has for the three-byte fields.\<close>

definition header_fits :: "OB20Header \<Rightarrow> bool" where
  "header_fits h \<longleftrightarrow>
     unat (CompressLength h) < 16777216 \<and> unat (UncompressLength h) < 16777216 \<and>
     unat (RequestID h) < 16777216 \<and> MagicNum h = OB20MagicNum \<and> Version h = OB20Version"

text \<open>Reading the fields of a 31-byte buffer whose first 29 bytes are \<open>header_fields h\<close>.\<close>

lemma header_field_nth:
  "(header_fields h @ t) ! 0 = ucast (CompressLength h)"
  "(header_fields h @ t) ! 1 = ucast (drop_bit 8 (CompressLength h))"
  "(header_fields h @ t) ! 2 = ucast (drop_bit 16 (CompressLength h))"
  "(header_fields h @ t) ! 3 = CompressSeqNo h"
  "(header_fields h @ t) ! 4 = ucast (UncompressLength h)"
  "(header_fields h @ t) ! 5 = ucast (drop_bit 8 (UncompressLength h))"
  "(header_fields h @ t) ! 6 = ucast (drop_bit 16 (UncompressLength h))"
  "(header_fields h @ t) ! 15 = ucast (RequestID h)"
  "(header_fields h @ t) ! 16 = ucast (drop_bit 8 (RequestID h))"
  "(header_fields h @ t) ! 17 = ucast (drop_bit 16 (RequestID h))"
  "(header_fields h @ t) ! 18 = PacketSeq h"
  by (simp_all add: header_fields_def le_bytes_numerals)

lemma header_field_subslice:
  "subslice 7 9 (header_fields h @ t) = le_bytes 2 (MagicNum h)"
  "subslice 9 11 (header_fields h @ t) = le_bytes 2 (Version h)"
  "subslice 11 15 (header_fields h @ t) = le_bytes 4 (ConnectionID h)"
  "subslice 19 23 (header_fields h @ t) = le_bytes 4 (PayloadLen h)"
  "subslice 23 27 (header_fields h @ t) = le_bytes 4 (Flag h)"
  "subslice 27 29 (header_fields h @ t) = le_bytes 2 (Reserved h)"
  "subslice 29 31 (header_fields h @ t) = take 2 t"
  "subslice 0 29 (header_fields h @ t) = header_fields h"
  by (simp_all add: header_fields_def subslice_def le_bytes_numerals)

lemmas header_reads = header_field_nth header_field_nth [simplified One_nat_def]
  header_field_subslice

lemma Decode_fields:
  assumes "header_fits h" and "length t = 2"
  shows "OB20Header_Decode (header_fields h @ t) =
    (let h' = h\<lparr>HeaderCRC := le_word t\<rparr>
     in if le_word t = (0 :: u16) \<or> le_word t = CRC16 (header_fields h) then Some h' else None)"
  using assms
  by (cases h)
    (simp add: OB20Header_Decode_def TotalHeaderLen_def Let_def header_reads header_fits_def
      le_word_le_bytes_id le24_le_bytes)

lemma Encode_eq:
  "fst (OB20Header_Encode h) = header_fields h @ le_bytes 2 (CRC16 (header_fields h))"
  "snd (OB20Header_Encode h) = h\<lparr>HeaderCRC := CRC16 (header_fields h)\<rparr>"
  by (simp_all add: OB20Header_Encode_def Let_def)

text \<open>
  C27: the table-driven \<open>CRC16\<close> and \<open>OB20PayloadChecksum\<close> compute the reflected CRC with
  polynomial \<open>0xA001\<close> and \<open>0x82F63B78\<close>: initial register 0, no final exclusive or.
\<close>

theorem checksums_are_reflected_crcs:
  "CRC16 data = crc_serial 0xA001 data \<and>
   OB20PayloadChecksum data = crc_serial 0x82F63B78 data"
  by (simp add: CRC16_serial OB20PayloadChecksum_serial)

text \<open>
  A header that respects the three-byte fields and carries the OB20 magic and version is
  decoded to exactly the header that was encoded, CRC field included; with the two CRC bytes
  cleared, as \<open>WritePacket\<close> does when checksums are disabled, it is accepted too.
\<close>

theorem ob20_header_roundtrip:
  assumes "header_fits h"
  shows "OB20Header_Decode (fst (OB20Header_Encode h)) = Some (snd (OB20Header_Encode h)) \<and>
    OB20Header_Decode (take 29 (fst (OB20Header_Encode h)) @ [0, 0]) = Some (h\<lparr>HeaderCRC := 0\<rparr>)"
  using assms by (simp add: Encode_eq Decode_fields le_word_le_bytes_id le_word.simps)

text \<open>A frame header for a 12-byte payload, with its CRC.\<close>

definition sample_header :: OB20Header where
  "sample_header = \<lparr>CompressLength = 40, CompressSeqNo = 1, UncompressLength = 0,
     MagicNum = 0x20AB, Version = 20, ConnectionID = 7, RequestID = 1, PacketSeq = 1,
     PayloadLen = 12, Flag = 2, Reserved = 0, HeaderCRC = 0\<rparr>"

lemma sample_header_fits: "header_fits sample_header"
  by (simp add: sample_header_def header_fits_def OB20MagicNum_def OB20Version_def)

lemma sample_header_bytes:
  "fst (OB20Header_Encode sample_header) =
     [40, 0, 0, 1, 0, 0, 0, 0xAB, 0x20, 20, 0, 7, 0, 0, 0, 1, 0, 0, 1, 12, 0, 0, 0, 2, 0, 0, 0,
      0, 0, 0xC8, 0xE8]"
  and sample_header_crc: "HeaderCRC (snd (OB20Header_Encode sample_header)) = 0xE8C8"
proof -
  have "CRC16 (header_fields sample_header) = 0xE8C8"
    by (simp add: CRC16_serial sample_header_def header_fields_def crc_serial_def crc_byte_def
        wire_simps)
  then show "fst (OB20Header_Encode sample_header) =
     [40, 0, 0, 1, 0, 0, 0, 0xAB, 0x20, 20, 0, 7, 0, 0, 0, 1, 0, 0, 1, 12, 0, 0, 0, 2, 0, 0, 0,
      0, 0, 0xC8, 0xE8]"
    and "HeaderCRC (snd (OB20Header_Encode sample_header)) = 0xE8C8"
    by (simp_all add: Encode_eq) (simp add: header_fields_def sample_header_def wire_simps)
qed

theorem ob20_header_roundtrip_witness:
  "header_fits sample_header \<and>
   OB20Header_Decode [40, 0, 0, 1, 0, 0, 0, 0xAB, 0x20, 20, 0, 7, 0, 0, 0, 1, 0, 0, 1, 12, 0, 0, 0,
     2, 0, 0, 0, 0, 0, 0xC8, 0xE8] = Some (sample_header\<lparr>HeaderCRC := 0xE8C8\<rparr>)"
proof -
  have "snd (OB20Header_Encode sample_header) = sample_header\<lparr>HeaderCRC := 0xE8C8\<rparr>"
    using sample_header_crc by (simp add: Encode_eq)
  with ob20_header_roundtrip [OF sample_header_fits] show ?thesis
    by (simp add: sample_header_fits sample_header_bytes)
qed

text \<open>The checksum of a header followed by its own checksum is zero, and only by that one.\<close>

lemma CRC16_appended:
  assumes "length t = 2"
  shows "CRC16 (data @ t) = 0 \<longleftrightarrow> le_word t = CRC16 data"
proof -
  have top: "bit (0xA001 :: u16) (LENGTH(16) - 1)" by simp
  have app: "CRC16 (data @ t) = crc_bits 0xA001 16 (CRC16 data XOR le_word t)"
    using assms by (simp add: CRC16_serial crc_serial_def foldl_crc_byte_window)
  have zero: "crc_bits 0xA001 16 (0 :: u16) = 0" using crc_bits_xor [of "0xA001 :: u16" 16 0 0] by simp
  have "crc_bits 0xA001 16 x = 0 \<longleftrightarrow> x = 0" for x :: u16
    using crc_bits_inj [OF top, of 16 x 0] unfolding zero by (metis zero)
  then have "CRC16 (data @ t) = 0 \<longleftrightarrow> CRC16 data XOR le_word t = 0" unfolding app .
  moreover have "x XOR y = 0 \<longleftrightarrow> y = x" for x y :: u16
    by (auto simp: bit_eq_iff bit_xor_iff)
  ultimately show ?thesis by simp
qed

lemma le_word_zero: "length t = 2 \<Longrightarrow> le_word t = (0 :: u16) \<longleftrightarrow> t = [0, 0]"
  using le_bytes_le_word [of t, where 'a = 16] by (auto simp: le_word.simps le_bytes_numerals)

text \<open>What \<open>Decode\<close> accepts: the magic number and version, and a checksum that is absent or right.\<close>

lemma Decode_accepts:
  assumes "length buf = 31"
  shows "OB20Header_Decode buf \<noteq> None \<longleftrightarrow>
    PeekIsOB20 buf \<and> (drop 29 buf = [0, 0] \<or> CRC16 buf = 0)"
proof -
  have "CRC16 buf = 0 \<longleftrightarrow> le_word (drop 29 buf) = CRC16 (take 29 buf)"
    using CRC16_appended [of "drop 29 buf" "take 29 buf"] assms by simp
  moreover have "le_word (drop 29 buf) = (0 :: u16) \<longleftrightarrow> drop 29 buf = [0, 0]"
    using assms by (intro le_word_zero) simp
  ultimately show ?thesis
    using assms by (auto simp: OB20Header_Decode_def PeekIsOB20_def TotalHeaderLen_def subslice_def Let_def)
qed

text \<open>
  C25: corrupting one or two consecutive bytes anywhere in the 31 bytes of an encoded header makes
  \<open>Decode\<close> reject it, whatever the bytes are, with one exception: when the two checksum bytes of
  the corrupted header are both zero, which \<open>Decode\<close> takes to mean that the sender disabled
  checksums, only the magic number and the version are looked at.  So clearing the two checksum
  bytes of a good header is accepted.
\<close>

theorem ob20_header_corruption_detected:
  assumes buf: "fst (OB20Header_Encode h) = pre @ xs @ post"
    and window: "length xs \<le> 2" "length ys = length xs" and change: "ys \<noteq> xs"
  shows "OB20Header_Decode (pre @ ys @ post) \<noteq> None \<longleftrightarrow>
    drop 29 (pre @ ys @ post) = [0, 0] \<and> PeekIsOB20 (pre @ ys @ post)"
proof -
  have len: "length (pre @ ys @ post) = 31"
    using buf window length_Encode [of h] by (metis length_append)
  have "CRC16 (pre @ xs @ post) = 0"
    unfolding buf [symmetric] by (simp add: Encode_eq CRC16_appended le_word_le_bytes_id)
  moreover have "crc_serial 0xA001 (pre @ ys @ post) \<noteq> (crc_serial 0xA001 (pre @ xs @ post) :: u16)"
    using window change by (intro crc_serial_window) auto
  ultimately have "CRC16 (pre @ ys @ post) \<noteq> 0" by (simp add: CRC16_serial)
  with Decode_accepts [OF len] show ?thesis by blast
qed

theorem ob20_header_corruption_witness:
  "OB20Header_Decode [40, 0, 0, 1, 0, 0, 0, 0xAB, 0x20, 20, 0, 9, 1, 0, 0, 1, 0, 0, 1, 12, 0, 0, 0,
     2, 0, 0, 0, 0, 0, 0xC8, 0xE8] = None \<and>
   OB20Header_Decode [40, 0, 0, 1, 0, 0, 0, 0xAB, 0x20, 20, 0, 7, 0, 0, 0, 1, 0, 0, 1, 12, 0, 0, 0,
     2, 0, 0, 0, 0, 0, 0, 0] \<noteq> None"
  using ob20_header_corruption_detected
    [of sample_header "[40, 0, 0, 1, 0, 0, 0, 0xAB, 0x20, 20, 0]" "[7, 0]"
      "[0, 0, 1, 0, 0, 1, 12, 0, 0, 0, 2, 0, 0, 0, 0, 0, 0xC8, 0xE8]" "[9, 1]"]
    ob20_header_corruption_detected
    [of sample_header "[40, 0, 0, 1, 0, 0, 0, 0xAB, 0x20, 20, 0, 7, 0, 0, 0, 1, 0, 0, 1, 12, 0, 0, 0, 2, 0, 0, 0, 0, 0]"
      "[0xC8, 0xE8]" "[]" "[0, 0]"]
  by (simp add: sample_header_bytes PeekIsOB20_def TotalHeaderLen_def subslice_def OB20MagicNum_def
      OB20Version_def wire_simps)

text \<open>
  C26: corrupting up to four consecutive bytes of a frame's payload always changes
  \<open>OB20PayloadChecksum\<close>.
\<close>

theorem payload_burst_detected:
  assumes "length ys = length xs" and "length xs \<le> 4" and "ys \<noteq> xs"
  shows "OB20PayloadChecksum (pre @ ys @ post) \<noteq> OB20PayloadChecksum (pre @ xs @ post)"
  unfolding OB20PayloadChecksum_serial
  using assms by (intro crc_serial_window) auto

theorem payload_burst_detected_witness:
  "OB20PayloadChecksum ([1, 2] @ [9, 8, 7, 6] @ [3]) \<noteq> OB20PayloadChecksum [1, 2, 0, 0, 0, 0, 3]"
  using payload_burst_detected [of "[9, 8, 7, 6]" "[0, 0, 0, 0]" "[1, 2]" "[3]"] by simp

subsection \<open>Extra info records\<close>

lemma length_ExtraInfo_Encode [simp]:
  "length (OB20ExtraInfo_Encode e) = OB20ExtraInfo_TotalLen e"
  by (simp add: OB20ExtraInfo_Encode_def OB20ExtraInfo_TotalLen_def)

lemma ParseOB20ExtraInfo_step:
  assumes "length (Data e) < 2 ^ 32"
  shows "ParseOB20ExtraInfo_loop infos (OB20ExtraInfo_Encode e @ rest) =
    ParseOB20ExtraInfo_loop (infos @ [e]) rest"
proof -
  have reads: "subslice 0 2 (OB20ExtraInfo_Encode e @ rest) = le_bytes 2 (Type e)"
    "subslice 2 6 (OB20ExtraInfo_Encode e @ rest) =
       le_bytes 4 (word_of_nat (length (Data e)) :: u32)"
    "drop 6 (OB20ExtraInfo_Encode e @ rest) = Data e @ rest"
    by (simp_all add: OB20ExtraInfo_Encode_def subslice_def)
  have len: "unat (le_word (le_bytes 4 (word_of_nat (length (Data e)) :: u32)) :: u32) =
      length (Data e)"
    using assms by (intro unat_le_word_of_nat) auto
  have ne: "OB20ExtraInfo_Encode e @ rest \<noteq> []" "\<not> length (OB20ExtraInfo_Encode e @ rest) < 6"
    by (auto simp: OB20ExtraInfo_Encode_def)
  show ?thesis
    by (subst ParseOB20ExtraInfo_loop.simps)
      (simp only: ne reads len if_False Let_def, cases e,
        simp add: le_word_le_bytes_id subslice_def)
qed

lemma ParseOB20ExtraInfo_loop_encoded:
  assumes "\<forall>e \<in> set es. length (Data e) < 2 ^ 32" and "length tail < 6"
  shows "ParseOB20ExtraInfo_loop infos (concat (map OB20ExtraInfo_Encode es) @ tail) =
    Ok (infos @ es)"
  using assms(1)
proof (induction es arbitrary: infos)
  case Nil
  then show ?case
    using assms(2) by (simp add: ParseOB20ExtraInfo_loop.simps)
next
  case (Cons e es)
  then show ?case by (simp add: ParseOB20ExtraInfo_step)
qed

text \<open>
  Parsing the concatenation of encoded extra-info records returns the records in order; up to
  five trailing bytes, too few for another record, are ignored.
\<close>

theorem extra_info_roundtrip:
  assumes "\<forall>e \<in> set es. length (Data e) < 2 ^ 32" and "length tail < 6"
  shows "ParseOB20ExtraInfo (concat (map OB20ExtraInfo_Encode es) @ tail) = Ok es"
  using ParseOB20ExtraInfo_loop_encoded [OF assms, of "[]"] by (simp add: ParseOB20ExtraInfo_def)

theorem extra_info_roundtrip_witness:
  "ParseOB20ExtraInfo [0xD5, 7, 2, 0, 0, 0, 0x0A, 0x0B, 0xD3, 7, 0, 0, 0, 0, 0xFF] =
     Ok [\<lparr>Type = 2005, Data = [0x0A, 0x0B]\<rparr>, \<lparr>Type = 2003, Data = []\<rparr>]"
proof -
  let ?es = "[\<lparr>Type = 2005, Data = [0x0A, 0x0B]\<rparr>, \<lparr>Type = 2003, Data = []\<rparr>]"
  have "concat (map OB20ExtraInfo_Encode ?es) @ [0xFF] =
      [0xD5, 7, 2, 0, 0, 0, 0x0A, 0x0B, 0xD3, 7, 0, 0, 0, 0, 0xFF]"
    by (simp add: OB20ExtraInfo_Encode_def wire_simps)
  then show ?thesis
    using extra_info_roundtrip [of ?es "[0xFF]"] by simp
qed

end
