(* ===== verification/Packet.thy ===== *)
theory Packet
  imports Ob20
begin

text \<open>
  \<open>internal/protocol/packet.go\<close>: packets over a byte stream, in three framings: plain MySQL
  packets, OceanBase 2.0 frames and the compressed protocol.

  The \<open>io.ReadWriter\<close> under a \<open>PacketConn\<close> is part of the state: \<open>rx\<close> holds the bytes the peer
  will deliver, after which reads fail with \<open>rxEnd\<close> (\<open>io.EOF\<close> or an error of the network);
  \<open>tx\<close> holds the bytes written, and \<open>txFail\<close> says for each coming \<open>Write\<close> whether it fails.
  The trace writer only receives diagnostics and \<open>compressBuf\<close> is reset before each use; neither
  is part of the model.  \<open>compress/zlib\<close> is a parameter: \<open>zopen\<close> opens a stream and yields the
  bytes it inflates to and the error after them, \<open>deflate\<close> is what the writer produces.
\<close>

subsection \<open>State and constants\<close>

definition maxPayloadLen :: nat where "maxPayloadLen = 2 ^ 24 - 1"

definition maxOB20Chunk :: nat where
  "maxOB20Chunk = maxPayloadLen - OB20HeaderLen - OB20TailLen - 4"

record packet_conn =
  rx :: bytes
  rxEnd :: go_error
  tx :: bytes
  txFail :: "go_error option list"
  seq :: byte
  ob20 :: bool
  ob20Magic :: u16
  connectionID :: u32
  requestID :: u32
  extraInfos :: "OB20ExtraInfo list"
  mysqlBuf :: bytes
  ob20NewExtraInfo :: bool
  ob20Checksum :: bool
  compressed :: bool

type_synonym 'a pst = "(packet_conn, 'a) st"
type_synonym zlib_open = "bytes \<Rightarrow> (bytes \<times> go_error) res"

definition NewPacketConn :: "bytes \<Rightarrow> go_error \<Rightarrow> packet_conn" where
  "NewPacketConn incoming end_error =
     \<lparr>rx = incoming, rxEnd = end_error, tx = [], txFail = [], seq = 0, ob20 = False,
      ob20Magic = 0, connectionID = 0, requestID = 0, extraInfos = [], mysqlBuf = [],
      ob20NewExtraInfo = False, ob20Checksum = False, compressed = False\<rparr>"

definition ResetSequence :: "packet_conn \<Rightarrow> packet_conn" where
  "ResetSequence c = c\<lparr>seq := 0\<rparr>"

definition EnableOB20 :: "u32 \<Rightarrow> u16 \<Rightarrow> bool \<Rightarrow> bool \<Rightarrow> packet_conn \<Rightarrow> packet_conn" where
  "EnableOB20 connID magic newExtraInfo disableChecksum c =
     c\<lparr>ob20 := True, ob20Magic := magic, connectionID := connID,
       ob20NewExtraInfo := newExtraInfo, ob20Checksum := \<not> disableChecksum\<rparr>"

definition AddExtraInfo :: "u16 \<Rightarrow> bytes \<Rightarrow> packet_conn \<Rightarrow> packet_conn" where
  "AddExtraInfo typ data c = c\<lparr>extraInfos := extraInfos c @ [\<lparr>Type = typ, Data = data\<rparr>]\<rparr>"

definition ClearExtraInfo :: "packet_conn \<Rightarrow> packet_conn" where
  "ClearExtraInfo c = c\<lparr>extraInfos := []\<rparr>"

definition NextRequest :: "packet_conn \<Rightarrow> packet_conn" where
  "NextRequest c = c\<lparr>requestID := requestID c + 1\<rparr>"

definition EnableCompression :: "packet_conn \<Rightarrow> packet_conn" where
  "EnableCompression c = c\<lparr>compressed := True\<rparr>"

subsection \<open>The byte stream\<close>

text \<open>\<open>io.ReadFull\<close> on a source that delivers \<open>content\<close> and then fails with \<open>e\<close>.\<close>

definition read_full_src :: "nat \<Rightarrow> bytes \<Rightarrow> go_error \<Rightarrow> bytes res \<times> bytes" where
  "read_full_src n content e =
     (if n \<le> length content then (Ok (take n content), drop n content)
      else if content = [] then (Err e, [])
      else (Err (if e = EOF then UnexpectedEOF else e), []))"

definition readFull :: "nat \<Rightarrow> bytes pst" where
  "readFull n c =
     (let (r, rest) = read_full_src n (rx c) (rxEnd c) in (r, c\<lparr>rx := rest\<rparr>))"

definition writeRaw :: "bytes \<Rightarrow> unit pst" where
  "writeRaw b c =
     (case txFail c of
        [] \<Rightarrow> (Ok (), c\<lparr>tx := tx c @ b\<rparr>)
      | None # later \<Rightarrow> (Ok (), c\<lparr>tx := tx c @ b, txFail := later\<rparr>)
      | Some e # later \<Rightarrow> (Err e, c\<lparr>txFail := later\<rparr>))"

subsection \<open>Reading\<close>

text \<open>One OB20 frame: its MySQL bytes are appended to \<open>mysqlBuf\<close>.\<close>

definition readOB20Frame :: "unit pst" where
  "readOB20Frame =
     bind_st (readFull TotalHeaderLen) (\<lambda>obHeader.
       case OB20Header_Decode obHeader of
         None \<Rightarrow> fail_st (Errorf ''invalid OB 2.0 header'' [])
       | Some h \<Rightarrow>
           let expectedCompressLen =
             (word_of_nat (OB20HeaderLen + unat (PayloadLen h) + OB20TailLen) :: u32)
           in if CompressLength h \<noteq> expectedCompressLen then
                fail_st (Errorf ''OB20 packet length mismatch: compressLength=%d, expected=%d (payload=%d)''
                  [AInt (uint (CompressLength h)), AInt (uint expectedCompressLen),
                   AInt (uint (PayloadLen h))])
              else if UncompressLength h \<noteq> 0 then
                fail_st (Errorf ''OB20 unexpected uncompress length: %d''
                  [AInt (uint (UncompressLength h))])
              else
                bind_st (readFull (unat (PayloadLen h))) (\<lambda>obPayload.
                bind_st (readFull 4) (\<lambda>obTrailer.
                  let expectedChecksum = le_word obTrailer
                  in if expectedChecksum \<noteq> 0 \<and> OB20PayloadChecksum obPayload \<noteq> expectedChecksum then
                       fail_st (Errorf ''invalid OB 2.0 payload checksum: expected 0x%08x, got 0x%08x''
                         [AInt (uint expectedChecksum), AInt (uint (OB20PayloadChecksum obPayload))])
                     else if Flag h AND OB20FlagExtraInfo \<noteq> 0 then
                       (if length obPayload < OB20ExtraLengthField then
                          fail_st (Errorf ''truncated extra_length in OB20 payload'' [])
                        else
                          let extraLength = (le_word (subslice 0 4 obPayload) :: u32);
                              extraTotal = OB20ExtraLengthField + unat extraLength
                          in if length obPayload < extraTotal then
                               fail_st (Errorf ''truncated extra_info: declared %d bytes, payload has %d''
                                 [AInt (int extraTotal), AInt (int (length obPayload))])
                             else (\<lambda>c. (Ok (), c\<lparr>mysqlBuf := mysqlBuf c @ drop extraTotal obPayload\<rparr>)))
                     else (\<lambda>c. (Ok (), c\<lparr>mysqlBuf := mysqlBuf c @ obPayload\<rparr>)))))"

text \<open>The three length bytes at the start of a MySQL packet.\<close>

definition mysql_len :: "bytes \<Rightarrow> nat" where
  "mysql_len buf = unat (le24 (buf ! 0) (buf ! 1) (buf ! 2) :: u32)"

text \<open>
  The inner loop of the compressed branch: take complete MySQL packets off \<open>mysqlBuf\<close> until one
  is shorter than the maximum (the result is then complete) or no complete packet is left.
\<close>

function drain_mysql :: "bytes \<Rightarrow> packet_conn \<Rightarrow> (bytes \<times> bool) \<times> packet_conn" where
  "drain_mysql out c =
     (let buf = mysqlBuf c; mysqlLen = mysql_len buf
      in if length buf < 4 then ((out, False), c)
         else if length buf < 4 + mysqlLen then ((out, False), c)
         else
           let out' = out @ subslice 4 (4 + mysqlLen) buf;
               c' = c\<lparr>mysqlBuf := drop (4 + mysqlLen) buf, seq := seq c + 1\<rparr>
           in if mysqlLen < maxPayloadLen then ((out', True), c') else drain_mysql out' c')"
  by pat_completeness auto
termination
  by (relation "measure (\<lambda>(out, c). length (mysqlBuf c))") auto

declare drain_mysql.simps [simp del]

text \<open>
  One iteration of the compressed branch.  The flag says whether \<open>ReadPacket\<close> returns the
  bytes collected or goes round the loop again.
\<close>

definition readCompressedFrame :: "zlib_open \<Rightarrow> bytes \<Rightarrow> (bytes \<times> bool) pst" where
  "readCompressedFrame zopen out =
     bind_st (readFull 7) (\<lambda>hdr.
       let compressLen = unat (le24 (hdr ! 0) (hdr ! 1) (hdr ! 2) :: u32);
           uncompressLen = unat (le24 (hdr ! 4) (hdr ! 5) (hdr ! 6) :: u32)
       in bind_st (readFull compressLen) (\<lambda>compressedPayload.
         if uncompressLen = 0 then return_st (out @ compressedPayload, True)
         else case zopen compressedPayload of
           Err e \<Rightarrow> fail_st (Errorf ''zlib decompression failed: %w'' [AWrap e])
         | Panic \<Rightarrow> (\<lambda>c. (Panic, c))
         | Ok (content, e) \<Rightarrow>
             (case fst (read_full_src uncompressLen content e) of
                Err e' \<Rightarrow> fail_st (Errorf ''zlib read failed: %w'' [AWrap e'])
              | Panic \<Rightarrow> (\<lambda>c. (Panic, c))
              | Ok decompressed \<Rightarrow> (\<lambda>c.
                  let ((out', complete), c') =
                    drain_mysql out (c\<lparr>mysqlBuf := mysqlBuf c @ decompressed\<rparr>)
                  in (Ok (out', complete \<or> 0 < length out'), c')))))"

text \<open>One iteration of the plain branch: the payload read and whether it was the last one.\<close>

definition readPlainFrame :: "bytes \<Rightarrow> (bytes \<times> bool) pst" where
  "readPlainFrame out =
     bind_st (readFull 4) (\<lambda>header c.
       let payloadLen = mysql_len header; gotSeq = header ! 3
       in if gotSeq \<noteq> seq c then (Err (SeqErr gotSeq (seq c)), c)
          else
            bind_st (readFull payloadLen) (\<lambda>payload.
              return_st (out @ payload, payloadLen < maxPayloadLen)) (c\<lparr>seq := seq c + 1\<rparr>))"

subsection \<open>What reading consumes\<close>

lemma readFull_Ok:
  assumes "readFull n c = (Ok b, c')"
  shows "rx c = b @ rx c'" and "length b = n" and "c' = c\<lparr>rx := rx c'\<rparr>"
  using assms
  by (auto simp: readFull_def read_full_src_def split: if_splits)

lemma readFull_OkE:
  assumes "readFull n c = (Ok b, c')"
  obtains rest where "rx c = b @ rest" and "length b = n" and "c' = c\<lparr>rx := rest\<rparr>"
  using readFull_Ok [OF assms] that by blast

lemma readFull_append [simp]:
  "length b = n \<Longrightarrow> rx c = b @ rest \<Longrightarrow> readFull n c = (Ok b, c\<lparr>rx := rest\<rparr>)"
  by (simp add: readFull_def read_full_src_def)

lemma readFull_not_Panic: "fst (readFull n c) \<noteq> Panic"
  by (auto simp: readFull_def read_full_src_def split: prod.splits)

lemma readOB20Frame_shrinks:
  assumes "readOB20Frame c = (Ok u, c')"
  shows "length (rx c') < length (rx c)"
proof -
  from assms obtain hd c1 where h: "readFull TotalHeaderLen c = (Ok hd, c1)"
    unfolding readOB20Frame_def by (rule bind_st_Ok_E)
  have l1: "length (rx c) = 31 + length (rx c1)"
    using readFull_Ok(1,2) [OF h] by (simp add: TotalHeaderLen_def)
  from assms h obtain p n c2 t c3
    where "readFull n c1 = (Ok p, c2)" and "readFull 4 c2 = (Ok t, c3)" and "rx c' = rx c3"
    by (auto simp: readOB20Frame_def Let_def split: option.splits if_splits elim!: bind_st_Ok_E)
  with l1 readFull_Ok(1) show ?thesis
    by (metis add_strict_increasing le_add2 length_append zero_less_numeral le_trans not_less)
qed

lemma drain_mysql_rx: "drain_mysql out c = (r, c') \<Longrightarrow> rx c' = rx c"
proof -
  have "rx (snd (drain_mysql out c)) = rx c"
  proof (induction out c rule: drain_mysql.induct)
    case (1 out c)
    then show ?case by (subst drain_mysql.simps) (simp add: Let_def)
  qed
  then show "drain_mysql out c = (r, c') \<Longrightarrow> rx c' = rx c" by simp
qed

lemma readCompressedFrame_shrinks:
  assumes "readCompressedFrame zopen out c = (Ok r, c')"
  shows "length (rx c') < length (rx c)"
proof -
  from assms obtain hd c1 where h: "readFull 7 c = (Ok hd, c1)"
    unfolding readCompressedFrame_def by (rule bind_st_Ok_E)
  have l1: "length (rx c) = 7 + length (rx c1)"
    using readFull_Ok(1,2) [OF h] by simp
  from assms h obtain p n c2 where n: "readFull n c1 = (Ok p, c2)" and "rx c' = rx c2"
    by (auto simp: readCompressedFrame_def Let_def split: res.splits if_splits prod.splits
        elim!: bind_st_Ok_E dest!: drain_mysql_rx)
  with l1 readFull_Ok(1) [OF n] show ?thesis by simp
qed

lemma readPlainFrame_shrinks:
  assumes "readPlainFrame out c = (Ok r, c')"
  shows "length (rx c') < length (rx c)"
proof -
  from assms obtain hd c1 where h: "readFull 4 c = (Ok hd, c1)"
    unfolding readPlainFrame_def by (rule bind_st_Ok_E)
  have l1: "length (rx c) = 4 + length (rx c1)"
    using readFull_Ok(1,2) [OF h] by simp
  from assms h obtain p n c2 where "readFull n (c1\<lparr>seq := seq c1 + 1\<rparr>) = (Ok p, c2)"
    and "rx c' = rx c2"
    by (auto simp: readPlainFrame_def Let_def split: if_splits elim!: bind_st_Ok_E)
  with l1 readFull_Ok(1) [of n "c1\<lparr>seq := seq c1 + 1\<rparr>"] show ?thesis by fastforce
qed

subsection \<open>ReadPacket\<close>

function ReadPacket_loop :: "zlib_open \<Rightarrow> bytes \<Rightarrow> bytes pst" where
  "ReadPacket_loop zopen out c =
     (if ob20 c then
        (let buf = mysqlBuf c; mysqlLen = mysql_len buf
         in if 4 \<le> length buf \<and> 4 + mysqlLen \<le> length buf then
              let out' = out @ subslice 4 (4 + mysqlLen) buf;
                  c' = c\<lparr>mysqlBuf := drop (4 + mysqlLen) buf\<rparr>
              in if mysqlLen < maxPayloadLen then (Ok out', c')
                 else ReadPacket_loop zopen out' c'
            else case readOB20Frame c of
                   (Ok _, c') \<Rightarrow> ReadPacket_loop zopen out c'
                 | (Err e, c') \<Rightarrow> (Err e, c')
                 | (Panic, c') \<Rightarrow> (Panic, c'))
      else if compressed c then
        (case readCompressedFrame zopen out c of
           (Ok (out', complete), c') \<Rightarrow>
             if complete then (Ok out', c') else ReadPacket_loop zopen out' c'
         | (Err e, c') \<Rightarrow> (Err e, c')
         | (Panic, c') \<Rightarrow> (Panic, c'))
      else
        (case readPlainFrame out c of
           (Ok (out', complete), c') \<Rightarrow>
             if complete then (Ok out', c') else ReadPacket_loop zopen out' c'
         | (Err e, c') \<Rightarrow> (Err e, c')
         | (Panic, c') \<Rightarrow> (Panic, c')))"
  by pat_completeness auto
termination
  by (relation "measures [\<lambda>(z, out, c). length (rx c), \<lambda>(z, out, c). length (mysqlBuf c)]")
    (auto dest!: readOB20Frame_shrinks [OF sym] readCompressedFrame_shrinks [OF sym]
      readPlainFrame_shrinks [OF sym])

definition ReadPacket :: "zlib_open \<Rightarrow> bytes pst" where
  "ReadPacket zopen c = ReadPacket_loop zopen [] c"

declare ReadPacket_loop.simps [simp del]

subsection \<open>WritePacket\<close>

text \<open>A MySQL packet: three length bytes, the sequence number, the chunk.\<close>

definition mysql_frame :: "byte \<Rightarrow> bytes \<Rightarrow> bytes" where
  "mysql_frame s chunk = le_bytes 3 (word_of_nat (length chunk) :: u32) @ [s] @ chunk"

definition extra_len :: "OB20ExtraInfo list \<Rightarrow> nat" where
  "extra_len infos = sum_list (map OB20ExtraInfo_TotalLen infos)"

text \<open>\<open>payloadBuf\<close>: in OB20 mode the encoded extra info precedes the MySQL packet.\<close>

definition payload_buf :: "packet_conn \<Rightarrow> bytes \<Rightarrow> bytes" where
  "payload_buf c chunk =
     (let extraLen = (if ob20 c then extra_len (extraInfos c) else 0)
      in if ob20 c \<and> 0 < extraLen then
           le_bytes 4 (word_of_nat extraLen :: u32) @
           concat (map OB20ExtraInfo_Encode (extraInfos c)) @ mysql_frame (seq c) chunk
         else mysql_frame (seq c) chunk)"

text \<open>The frame header written before \<open>payloadBuf\<close>; \<open>c\<close> is the state after \<open>c.seq++\<close>.\<close>

definition ob20_header_for :: "packet_conn \<Rightarrow> byte \<Rightarrow> bytes \<Rightarrow> u32 \<Rightarrow> OB20Header" where
  "ob20_header_for c s payloadBuf flag =
     \<lparr>CompressLength = word_of_nat (TotalHeaderLen - CompressHeaderLen + length payloadBuf + OB20TailLen),
      CompressSeqNo = s, UncompressLength = 0, MagicNum = ob20Magic c, Version = OB20Version,
      ConnectionID = connectionID c, RequestID = requestID c AND 0x00FFFFFF, PacketSeq = s,
      PayloadLen = word_of_nat (length payloadBuf), Flag = flag, Reserved = 0, HeaderCRC = 0\<rparr>"

definition ob20_flag :: "packet_conn \<Rightarrow> nat \<Rightarrow> u32" where
  "ob20_flag c extraLen =
     (let flag = OB20FlagLast;
          flag = (if 0 < extraLen then flag OR OB20FlagExtraInfo else flag)
      in if ob20NewExtraInfo c then flag OR OB20FlagNewExtraInfo else flag)"

definition ob20_header_buf :: "packet_conn \<Rightarrow> OB20Header \<Rightarrow> bytes" where
  "ob20_header_buf c h =
     (let buf = fst (OB20Header_Encode h)
      in if ob20Checksum c then buf else buf[TotalHeaderLen - 2 := 0, TotalHeaderLen - 1 := 0])"

definition ob20_trailer :: "packet_conn \<Rightarrow> bytes \<Rightarrow> bytes" where
  "ob20_trailer c payloadBuf =
     le_bytes 4 (if ob20Checksum c then OB20PayloadChecksum payloadBuf else 0)"

definition write_ob20_frame :: "OB20Header \<Rightarrow> bytes \<Rightarrow> unit pst" where
  "write_ob20_frame h payloadBuf c =
     bind_st (writeRaw (ob20_header_buf c h)) (\<lambda>_.
     bind_st (writeRaw payloadBuf) (\<lambda>_.
       writeRaw (ob20_trailer c payloadBuf))) c"

definition compressed_header :: "nat \<Rightarrow> byte \<Rightarrow> nat \<Rightarrow> bytes" where
  "compressed_header len s uncompressLen =
     le_bytes 3 (word_of_nat len :: u32) @ [s] @ le_bytes 3 (word_of_nat uncompressLen :: u32)"

text \<open>One iteration of the loop of \<open>WritePacket\<close>: build the packet, advance \<open>seq\<close>, write it.\<close>

definition writeChunk :: "(bytes \<Rightarrow> bytes) \<Rightarrow> bytes \<Rightarrow> unit pst" where
  "writeChunk deflate chunk c =
     (let extraLen = (if ob20 c then extra_len (extraInfos c) else 0);
          payloadBuf = payload_buf c chunk;
          c = c\<lparr>seq := seq c + 1\<rparr>
      in if ob20 c then
           write_ob20_frame (ob20_header_for c (seq c - 1) payloadBuf (ob20_flag c extraLen)) payloadBuf c
         else if compressed c \<and> 50 < length payloadBuf then
           (let compressedPayload = deflate payloadBuf
            in if length compressedPayload < length payloadBuf then
                 bind_st (writeRaw (compressed_header (length compressedPayload) (seq c - 1) (length payloadBuf)))
                   (\<lambda>_. writeRaw compressedPayload) c
               else
                 bind_st (writeRaw (compressed_header (length payloadBuf) (seq c - 1) 0))
                   (\<lambda>_. writeRaw payloadBuf) c)
         else writeRaw payloadBuf c)"

definition writeEmptyContinuation :: "unit pst" where
  "writeEmptyContinuation c =
     (let mysqlHeader = mysql_frame (seq c) []; s = seq c; c = c\<lparr>seq := seq c + 1\<rparr>
      in if ob20 c then
           write_ob20_frame (ob20_header_for c s mysqlHeader (ob20_flag c 0)) mysqlHeader c
         else writeRaw mysqlHeader c)"

definition chunk_limit :: "packet_conn \<Rightarrow> nat" where
  "chunk_limit c = (if ob20 c then maxOB20Chunk else maxPayloadLen)"

lemma chunk_limit_pos: "0 < chunk_limit c"
  by (simp add: chunk_limit_def maxOB20Chunk_def maxPayloadLen_def OB20HeaderLen_def OB20TailLen_def)

function WritePacket :: "(bytes \<Rightarrow> bytes) \<Rightarrow> bytes \<Rightarrow> unit pst" where
  "WritePacket deflate payload c =
     (let chunkLen = min (length payload) (chunk_limit c)
      in case writeChunk deflate (take chunkLen payload) c of
           (Ok _, c') \<Rightarrow>
             if chunkLen < chunk_limit c then (Ok (), c')
             else if drop chunkLen payload = [] then writeEmptyContinuation c'
             else WritePacket deflate (drop chunkLen payload) c'
         | (Err e, c') \<Rightarrow> (Err e, c')
         | (Panic, c') \<Rightarrow> (Panic, c'))"
  by pat_completeness auto
termination
proof (relation "measure (\<lambda>(d, payload, c). length payload)", goal_cases)
  case 1
  show ?case by simp
next
  case (2 deflate payload c)
  then show ?case using chunk_limit_pos [of c] by auto
qed

declare WritePacket.simps [simp del]

end
