(* ===== verification/Packet_Framing.thy ===== *)
theory Packet_Framing
  imports Packet
begin

text \<open>
  Correctness of the packet layer: what one side writes, the other side reads back.  The framing
  contract is the locale \<open>packet_framing\<close>; it is interpreted on \<open>WritePacket\<close> and
  \<open>ReadPacket\<close> for the plain MySQL protocol and for OceanBase 2.0 frames.
\<close>

subsection \<open>The framing contract\<close>

text \<open>
  A sender and a receiver that are \<open>synced\<close> stay so after a valid message, the message is
  delivered unchanged, and the receiver stops at the last byte that was sent for it.
\<close>

fun send_all :: "(bytes \<Rightarrow> unit pst) \<Rightarrow> bytes list \<Rightarrow> unit pst" where
  "send_all send [] = return_st ()"
| "send_all send (p # ps) = bind_st (send p) (\<lambda>_. send_all send ps)"

fun recv_all :: "bytes pst \<Rightarrow> nat \<Rightarrow> bytes list pst" where
  "recv_all recv 0 = return_st []"
| "recv_all recv (Suc n) =
     bind_st recv (\<lambda>p. bind_st (recv_all recv n) (\<lambda>ps. return_st (p # ps)))"

text \<open>The bytes of a sequence of messages, given the bytes of one and the sender after it.\<close>

fun wires :: "('s \<Rightarrow> bytes \<Rightarrow> bytes) \<Rightarrow> ('s \<Rightarrow> bytes \<Rightarrow> 's) \<Rightarrow> 's \<Rightarrow> bytes list \<Rightarrow> bytes" where
  "wires wire sent s [] = []"
| "wires wire sent s (p # ps) = wire s p @ wires wire sent (sent s p) ps"

locale packet_framing =
  fixes send :: "bytes \<Rightarrow> unit pst"
    and recv :: "bytes pst"
    and valid :: "bytes \<Rightarrow> bool"
    and synced :: "packet_conn \<Rightarrow> packet_conn \<Rightarrow> bool"
    and wire :: "packet_conn \<Rightarrow> bytes \<Rightarrow> bytes"
    and sent :: "packet_conn \<Rightarrow> bytes \<Rightarrow> packet_conn"
  assumes send_ok: "synced s r \<Longrightarrow> valid p \<Longrightarrow>
      send p s = (Ok (), sent s p) \<and> tx (sent s p) = tx s @ wire s p"
    and recv_ok: "synced s r \<Longrightarrow> valid p \<Longrightarrow> rx r = wire s p @ rest \<Longrightarrow>
      \<exists>r'. recv r = (Ok p, r') \<and> rx r' = rest \<and> synced (sent s p) r'"
    and synced_rx: "synced s r \<Longrightarrow> synced s (r\<lparr>rx := bs\<rparr>)"
begin

lemma stream:
  assumes "synced s r" and "\<forall>p \<in> set ps. valid p" and "rx r = wires wire sent s ps @ rest"
  shows "\<exists>s' r'. send_all send ps s = (Ok (), s') \<and> tx s' = tx s @ wires wire sent s ps \<and>
    recv_all recv (length ps) r = (Ok ps, r') \<and> rx r' = rest \<and> synced s' r'"
  using assms
proof (induction ps arbitrary: s r)
  case Nil
  then show ?case by simp
next
  case (Cons p ps)
  then obtain r1 where r1: "recv r = (Ok p, r1)" "rx r1 = wires wire sent (sent s p) ps @ rest"
    "synced (sent s p) r1"
    using recv_ok [of s r p "wires wire sent (sent s p) ps @ rest"] by auto
  have s1: "send p s = (Ok (), sent s p)" "tx (sent s p) = tx s @ wire s p"
    using send_ok [of s r p] Cons.prems by auto
  from Cons.IH [OF r1(3) _ r1(2)] Cons.prems(2) obtain s' r' where
    "send_all send ps (sent s p) = (Ok (), s')"
    "tx s' = tx (sent s p) @ wires wire sent (sent s p) ps"
    "recv_all recv (length ps) r1 = (Ok ps, r')" "rx r' = rest" "synced s' r'"
    by auto
  with r1 s1 show ?case by simp
qed

text \<open>A whole session: the receiver's stream is what the sender wrote, and nothing is left.\<close>

lemma session:
  assumes "synced s r" and "\<forall>p \<in> set ps. valid p" and "tx s = []"
    and "rx r = tx (snd (send_all send ps s))"
  shows "fst (send_all send ps s) = Ok () \<and>
    (\<exists>r'. recv_all recv (length ps) r = (Ok ps, r') \<and> rx r' = [])"
proof -
  from stream [of s "r\<lparr>rx := wires wire sent s ps\<rparr>" ps "[]"] assms(1,2) synced_rx
  obtain s' r' where sent_all: "send_all send ps s = (Ok (), s')" "tx s' = tx s @ wires wire sent s ps"
    and recv: "recv_all recv (length ps) (r\<lparr>rx := wires wire sent s ps\<rparr>) = (Ok ps, r')" "rx r' = []"
    by fastforce
  then have "r\<lparr>rx := wires wire sent s ps\<rparr> = r" using assms(3,4) by simp
  with sent_all recv show ?thesis by auto
qed

end

subsection \<open>Writing\<close>

text \<open>
  The plain protocol splits a payload into packets of \<open>maxPayloadLen\<close> bytes, the last of which
  is shorter (and empty when the length is a multiple of the maximum).
\<close>

function plain_frames :: "byte \<Rightarrow> bytes \<Rightarrow> bytes" where
  "plain_frames s p =
     (if length p < maxPayloadLen then mysql_frame s p
      else mysql_frame s (take maxPayloadLen p) @ plain_frames (s + 1) (drop maxPayloadLen p))"
  by pat_completeness auto
termination
  by (relation "measure (\<lambda>(s, p). length p)") (auto simp: maxPayloadLen_def)

declare plain_frames.simps [simp del]

definition plain_count :: "bytes \<Rightarrow> nat" where
  "plain_count p = length p div maxPayloadLen + 1"

lemma maxPayloadLen_pos [simp]: "0 < maxPayloadLen"
  by (simp add: maxPayloadLen_def)

lemma drop_max_shorter: "maxPayloadLen \<le> length p \<Longrightarrow> length (drop maxPayloadLen p) < length p"
  by (auto simp: maxPayloadLen_def)

lemma plain_count_simps:
  "length p < maxPayloadLen \<Longrightarrow> plain_count p = 1"
  "maxPayloadLen \<le> length p \<Longrightarrow> plain_count p = Suc (plain_count (drop maxPayloadLen p))"
  by (simp_all add: plain_count_def le_div_geq)

lemma writeRaw_Ok [simp]: "txFail c = [] \<Longrightarrow> writeRaw b c = (Ok (), c\<lparr>tx := tx c @ b\<rparr>)"
  by (simp add: writeRaw_def)

lemma writeChunk_plain:
  assumes "\<not> ob20 c" and "\<not> compressed c" and "txFail c = []"
  shows "writeChunk deflate chunk c =
    (Ok (), c\<lparr>tx := tx c @ mysql_frame (seq c) chunk, seq := seq c + 1\<rparr>)"
  using assms by (simp add: writeChunk_def payload_buf_def Let_def)

lemma writeEmpty_plain:
  assumes "\<not> ob20 c" and "txFail c = []"
  shows "writeEmptyContinuation c = (Ok (), c\<lparr>tx := tx c @ mysql_frame (seq c) [], seq := seq c + 1\<rparr>)"
  using assms by (simp add: writeEmptyContinuation_def Let_def)

lemma WritePacket_plain:
  assumes "\<not> ob20 c" and "\<not> compressed c" and "txFail c = []"
  shows "WritePacket deflate p c =
    (Ok (), c\<lparr>tx := tx c @ plain_frames (seq c) p, seq := seq c + word_of_nat (plain_count p)\<rparr>)"
  using assms
proof (induction p arbitrary: c rule: length_induct)
  case (1 p)
  have lim: "chunk_limit d = maxPayloadLen" if "\<not> ob20 d" for d :: packet_conn
    using that by (simp add: chunk_limit_def)
  show ?case
  proof (cases "length p < maxPayloadLen")
    case True
    with 1 show ?thesis
      by (subst WritePacket.simps)
        (simp add: lim writeChunk_plain plain_frames.simps plain_count_simps Let_def)
  next
    case False
    let ?q = "drop maxPayloadLen p"
    have w: "WritePacket deflate p c =
        (if ?q = [] then writeEmptyContinuation else WritePacket deflate ?q)
          (c\<lparr>tx := tx c @ mysql_frame (seq c) (take maxPayloadLen p), seq := seq c + 1\<rparr>)"
      using False 1 by (subst WritePacket.simps) (simp add: lim writeChunk_plain Let_def min_def)
    have f: "plain_frames s p = mysql_frame s (take maxPayloadLen p) @ plain_frames (s + 1) ?q" for s
      using False by (simp add: plain_frames.simps [of s p])
    have n: "plain_count p = Suc (plain_count ?q)"
      using False by (simp add: plain_count_simps(2))
    show ?thesis
    proof (cases "?q = []")
      case True
      moreover have "plain_frames s [] = mysql_frame s []" for s by (simp add: plain_frames.simps)
      moreover have "plain_count [] = 1" by (simp add: plain_count_simps)
      ultimately show ?thesis
        unfolding w n f using 1 True by (simp add: writeEmpty_plain add.assoc)
    next
      case False
      then have "length ?q < length p" by (intro drop_max_shorter) auto
      with 1 False show ?thesis unfolding w n f by (simp add: add.assoc)
    qed
  qed
qed

subsection \<open>Reading\<close>

lemma length_mysql_frame [simp]: "length (mysql_frame s p) = 4 + length p"
  by (simp add: mysql_frame_def)

lemma mysql_len_frame [simp]:
  assumes "length p \<le> maxPayloadLen"
  shows "mysql_len (mysql_frame s p @ rest) = length p"
proof -
  have small: "length p < 16777216" using assms by (simp add: maxPayloadLen_def)
  then have "unat (word_of_nat (length p) :: u32) = length p"
    by (intro unat_of_nat_small) simp
  with small show ?thesis
    by (simp add: mysql_len_def mysql_frame_def le_bytes_numerals le24_le_bytes)
qed

lemma mysql_len_header [simp]:
  "length (p :: bytes) \<le> maxPayloadLen \<Longrightarrow>
     mysql_len (le_bytes 3 (word_of_nat (length p) :: u32) @ s # rest) = length p"
  using mysql_len_frame [of p s rest] by (simp add: mysql_frame_def mysql_len_def nth_append)

lemma readPlainFrame_ok:
  assumes "rx c = mysql_frame (seq c) p @ rest" and "length p \<le> maxPayloadLen"
  shows "readPlainFrame out c =
    (Ok (out @ p, length p < maxPayloadLen), c\<lparr>rx := rest, seq := seq c + 1\<rparr>)"
proof -
  let ?hd = "le_bytes 3 (word_of_nat (length p) :: u32) @ [seq c]"
  have h: "readFull 4 c = (Ok ?hd, c\<lparr>rx := p @ rest\<rparr>)"
    using assms(1) by (intro readFull_append) (simp_all add: mysql_frame_def)
  have "mysql_len ?hd = length p" and "?hd ! 3 = seq c"
    using assms(2) by (simp_all add: nth_append)
  then show ?thesis
    by (simp add: readPlainFrame_def h Let_def)
qed

lemma ReadPacket_loop_plain:
  assumes "\<not> ob20 c" and "\<not> compressed c" and "rx c = plain_frames (seq c) p @ rest"
  shows "ReadPacket_loop zopen out c =
    (Ok (out @ p), c\<lparr>rx := rest, seq := seq c + word_of_nat (plain_count p)\<rparr>)"
  using assms
proof (induction p arbitrary: out c rule: length_induct)
  case (1 p)
  show ?case
  proof (cases "length p < maxPayloadLen")
    case True
    with 1 have "readPlainFrame out c = (Ok (out @ p, True), c\<lparr>rx := rest, seq := seq c + 1\<rparr>)"
      by (simp add: plain_frames.simps readPlainFrame_ok)
    with 1 True show ?thesis
      by (subst ReadPacket_loop.simps) (simp add: plain_count_simps)
  next
    case False
    let ?q = "drop maxPayloadLen p" and ?h = "take maxPayloadLen p"
    have fr: "rx c = mysql_frame (seq c) ?h @ plain_frames (seq c + 1) ?q @ rest"
      using 1(4) False by (simp add: plain_frames.simps [of "seq c" p])
    have "readPlainFrame out c =
        (Ok (out @ ?h, False), c\<lparr>rx := plain_frames (seq c + 1) ?q @ rest, seq := seq c + 1\<rparr>)"
      using readPlainFrame_ok [OF fr] False by (simp add: min_def)
    moreover have "length ?q < length p" using False by (intro drop_max_shorter) simp
    ultimately show ?thesis
      using 1(2,3) False
        1(1) [rule_format, of ?q "c\<lparr>rx := plain_frames (seq c + 1) ?q @ rest, seq := seq c + 1\<rparr>"
          "out @ ?h"]
      by (subst ReadPacket_loop.simps) (simp add: plain_count_simps add.assoc)
  qed
qed

subsection \<open>The plain protocol\<close>

definition plain_synced :: "packet_conn \<Rightarrow> packet_conn \<Rightarrow> bool" where
  "plain_synced s r \<longleftrightarrow>
     \<not> ob20 s \<and> \<not> compressed s \<and> txFail s = [] \<and> \<not> ob20 r \<and> \<not> compressed r \<and> seq s = seq r"

definition plain_wire :: "packet_conn \<Rightarrow> bytes \<Rightarrow> bytes" where
  "plain_wire s p = plain_frames (seq s) p"

definition plain_sent :: "packet_conn \<Rightarrow> bytes \<Rightarrow> packet_conn" where
  "plain_sent s p = s\<lparr>tx := tx s @ plain_wire s p, seq := seq s + word_of_nat (plain_count p)\<rparr>"

interpretation plain: packet_framing "WritePacket deflate" "ReadPacket zopen" "\<lambda>_. True"
    plain_synced plain_wire plain_sent for deflate zopen
proof (unfold_locales, goal_cases)
  case (1 s r p)
  then show ?case
    by (simp add: plain_synced_def plain_sent_def plain_wire_def WritePacket_plain)
next
  case (2 s r p rest)
  then show ?case
    by (simp add: plain_synced_def plain_sent_def plain_wire_def ReadPacket_def
        ReadPacket_loop_plain)
next
  case (3 s r bs)
  then show ?case by (simp add: plain_synced_def)
qed

text \<open>
  C10: over the plain protocol any sequence of payloads, of any length, is read back by the peer
  exactly as it was written: payloads of 16 MiB and more are split and reassembled, the one-byte
  sequence number wraps on both sides together, and no byte is left over.
\<close>

theorem plain_session_roundtrip:
  assumes "plain_synced s r" and "tx s = []"
    and "rx r = tx (snd (send_all (WritePacket deflate) ps s))"
  shows "fst (send_all (WritePacket deflate) ps s) = Ok () \<and>
    (\<exists>r'. recv_all (ReadPacket zopen) (length ps) r = (Ok ps, r') \<and> rx r' = [])"
  using plain.session [of s r ps] assms by simp

theorem plain_session_roundtrip_witness:
  "\<exists>r'. recv_all (ReadPacket (\<lambda>_. Err EOF)) 2
     (NewPacketConn [1, 0, 0, 0, 0x0E, 2, 0, 0, 1, 3, 65] EOF) = (Ok [[0x0E], [3, 65]], r') \<and>
     rx r' = []"
proof -
  let ?s = "NewPacketConn [] EOF" and ?ps = "[[0x0E], [3, 65]] :: bytes list"
  have frames: "plain_frames 0 [0x0E] = [1, 0, 0, 0, 0x0E]" "plain_frames 1 [3, 65] = [2, 0, 0, 1, 3, 65]"
    by (simp_all add: plain_frames.simps maxPayloadLen_def mysql_frame_def wire_simps)
  have "tx (snd (send_all (WritePacket id) ?ps ?s)) = [1, 0, 0, 0, 0x0E, 2, 0, 0, 1, 3, 65]"
    by (simp add: WritePacket_plain NewPacketConn_def frames plain_count_simps maxPayloadLen_def)
  then show ?thesis
    using plain_session_roundtrip [of ?s "NewPacketConn [1, 0, 0, 0, 0x0E, 2, 0, 0, 1, 3, 65] EOF"
        id ?ps "\<lambda>_. Err EOF"]
    by (simp add: plain_synced_def NewPacketConn_def numeral_2_eq_2)
qed

subsection \<open>What a plain stream must contain\<close>

lemma mysql_len_less: "mysql_len buf < 16777216"
  by (simp add: mysql_len_def unat_le24)

text \<open>A four-byte header is the header of a frame of the length it declares.\<close>

lemma mysql_header_frame:
  assumes "length h = 4" and "length p = mysql_len h"
  shows "h @ p = mysql_frame (h ! 3) p"
proof -
  obtain x y z w where h: "h = [x, y, z, w]"
    using assms(1) by (auto simp: length_Suc_conv eval_nat_numeral)
  have "(word_of_nat (length p) :: u32) = le_word [x, y, z]"
    using assms(2) by (simp add: h mysql_len_def le24_le_word)
  then show ?thesis
    by (simp add: h mysql_frame_def le_bytes_le_word)
qed

lemma readPlainFrame_Ok:
  assumes "readPlainFrame out c = (Ok (out', complete), c')"
  obtains p rest where "rx c = mysql_frame (seq c) p @ rest" and "length p \<le> maxPayloadLen"
    and "out' = out @ p" and "complete = (length p < maxPayloadLen)"
    and "c' = c\<lparr>rx := rest, seq := seq c + 1\<rparr>"
proof -
  from assms obtain h c1 p c2 where h: "readFull 4 c = (Ok h, c1)" and s: "h ! 3 = seq c1"
    and p: "readFull (mysql_len h) (c1\<lparr>seq := seq c1 + 1\<rparr>) = (Ok p, c2)"
    and res: "out' = out @ p" "complete = (mysql_len h < maxPayloadLen)" "c' = c2"
    by (auto simp: readPlainFrame_def Let_def split: if_splits elim!: bind_st_Ok_E)
  from h obtain r1 where c1: "rx c = h @ r1" "length h = 4" "c1 = c\<lparr>rx := r1\<rparr>"
    by (rule readFull_OkE)
  from p obtain r2 where c2: "r1 = p @ r2" "length p = mysql_len h"
    "c2 = c\<lparr>rx := r2, seq := seq c + 1\<rparr>"
    by (rule readFull_OkE) (simp add: c1(3))
  have "length p \<le> maxPayloadLen"
    using c2(2) mysql_len_less [of h] by (simp add: maxPayloadLen_def)
  moreover have "rx c = mysql_frame (seq c) p @ r2"
    using mysql_header_frame [of h p] c1 c2 s by simp
  ultimately show ?thesis using that [of p r2] res c2 by simp
qed

lemma ReadPacket_loop_plain_Ok:
  assumes "\<not> ob20 c" and "\<not> compressed c" and "ReadPacket_loop zopen out c = (Ok b, c')"
  shows "\<exists>p. b = out @ p \<and> rx c = plain_frames (seq c) p @ rx c'"
  using assms
proof (induction "length (rx c)" arbitrary: c out rule: less_induct)
  case less
  from less.prems obtain out1 fin c1 where f: "readPlainFrame out c = (Ok (out1, fin), c1)"
    and rest: "if fin then (Ok out1, c1) = (Ok b, c') else ReadPacket_loop zopen out1 c1 = (Ok b, c')"
    by (subst (asm) ReadPacket_loop.simps) (auto split: prod.splits res.splits if_splits)
  from f obtain p r where p: "rx c = mysql_frame (seq c) p @ r" "length p \<le> maxPayloadLen"
    "out1 = out @ p" "fin = (length p < maxPayloadLen)" "c1 = c\<lparr>rx := r, seq := seq c + 1\<rparr>"
    by (rule readPlainFrame_Ok)
  show ?case
  proof (cases fin)
    case True
    then have "plain_frames (seq c) p = mysql_frame (seq c) p"
      using p(4) by (simp add: plain_frames.simps [of "seq c" p])
    with True p rest show ?thesis by auto
  next
    case False
    obtain q where q: "b = out1 @ q" "r = plain_frames (seq c + 1) q @ rx c'"
    proof -
      have "length (rx c1) < length (rx c)" by (rule readPlainFrame_shrinks [OF f])
      moreover have "\<not> ob20 c1" "\<not> compressed c1" using less.prems(1,2) by (simp_all add: p(5))
      moreover have "ReadPacket_loop zopen out1 c1 = (Ok b, c')" using rest False by simp
      ultimately obtain q where "b = out1 @ q" "rx c1 = plain_frames (seq c1) q @ rx c'"
        using less.hyps [of c1 out1] by blast
      then show thesis using that by (simp add: p(5))
    qed
    have "plain_frames (seq c) (p @ q) = mysql_frame (seq c) p @ plain_frames (seq c + 1) q"
      using p(2,4) False by (subst plain_frames.simps) simp
    with p q show ?thesis by (intro exI [of _ "p @ q"]) simp
  qed
qed

text \<open>
  C21: in the plain protocol \<open>ReadPacket\<close> succeeds with a payload exactly when the bytes to be
  read start with the frames \<open>WritePacket\<close> produces for that payload from the expected sequence
  number on; it consumes those bytes and no others.
\<close>

theorem plain_read_exact:
  assumes "\<not> ob20 c" and "\<not> compressed c"
  shows "(\<exists>c'. ReadPacket zopen c = (Ok p, c') \<and> rx c' = rest) \<longleftrightarrow>
    rx c = plain_frames (seq c) p @ rest"
proof
  assume "rx c = plain_frames (seq c) p @ rest"
  then show "\<exists>c'. ReadPacket zopen c = (Ok p, c') \<and> rx c' = rest"
    using assms by (simp add: ReadPacket_def ReadPacket_loop_plain)
next
  assume "\<exists>c'. ReadPacket zopen c = (Ok p, c') \<and> rx c' = rest"
  then show "rx c = plain_frames (seq c) p @ rest"
    using ReadPacket_loop_plain_Ok [OF assms, of zopen "[]"] by (auto simp: ReadPacket_def)
qed

theorem plain_read_exact_witness:
  "(\<exists>c'. ReadPacket (\<lambda>_. Err EOF) (NewPacketConn [1, 0, 0, 0, 7, 9] EOF) = (Ok [7], c') \<and> rx c' = [9]) \<and>
   \<not> (\<exists>c'. ReadPacket (\<lambda>_. Err EOF) (NewPacketConn [1, 0, 0, 5, 7, 9] EOF) = (Ok [7], c') \<and> rx c' = [9])"
  by (simp add: plain_read_exact NewPacketConn_def plain_frames.simps maxPayloadLen_def
      mysql_frame_def wire_simps)

end
