(* ===== verification/Packet_Compressed.thy ===== *)
theory Packet_Compressed
  imports Packet_Framing
begin

text \<open>
  The compressed protocol of \<open>packet.go\<close> and the errors of the plain one.  \<open>compress/zlib\<close> is a
  parameter; that the reader inflates what the writer deflated is a hypothesis where it is used.
\<close>

subsection \<open>Sequence errors\<close>

text \<open>
  in the plain protocol a packet whose sequence number is not the expected one is rejected
  with \<open>SeqError\<close> before its payload is read, and that error is one that retires the connection.
\<close>

theorem sequence_mismatch_retires:
  assumes "\<not> ob20 c" and "\<not> compressed c" and "rx c = h @ rest" and "length h = 4"
    and "h ! 3 \<noteq> seq c"
  shows "ReadPacket zopen c = (Err (SeqErr (h ! 3) (seq c)), c\<lparr>rx := rest\<rparr>) \<and>
    isBadConnError (SeqErr (h ! 3) (seq c))"
proof -
  have "readFull 4 c = (Ok h, c\<lparr>rx := rest\<rparr>)" using assms(3,4) by simp
  then have "readPlainFrame [] c = (Err (SeqErr (h ! 3) (seq c)), c\<lparr>rx := rest\<rparr>)"
    using assms(5) by (simp add: readPlainFrame_def Let_def)
  with assms(1,2) show ?thesis
    by (simp add: ReadPacket_def ReadPacket_loop.simps isBadConnError_def)
qed

theorem sequence_mismatch_retires_witness:
  "ReadPacket (\<lambda>_. Err EOF) (NewPacketConn [1, 0, 0, 3, 9] EOF) =
     (Err (SeqErr 3 0), NewPacketConn [9] EOF)"
  using sequence_mismatch_retires
    [of "NewPacketConn [1, 0, 0, 3, 9] EOF" "[1, 0, 0, 3]" "[9]" "\<lambda>_. Err EOF"]
  by (simp add: NewPacketConn_def)

subsection \<open>Writing and reading one compressed packet\<close>

lemma WritePacket_single:
  assumes "\<not> ob20 c" and "length p < maxPayloadLen" and "writeChunk deflate p c = (Ok (), c')"
  shows "WritePacket deflate p c = (Ok (), c')"
  using assms by (subst WritePacket.simps) (simp add: chunk_limit_def Let_def)

lemma writeChunk_compressed:
  assumes "\<not> ob20 c" and "compressed c" and "txFail c = []"
  shows "writeChunk deflate p c =
    (let f = mysql_frame (seq c) p; z = deflate f
     in (Ok (), c\<lparr>tx := tx c @
           (if length f \<le> 50 then f
            else if length z < length f then compressed_header (length z) (seq c) (length f) @ z
            else compressed_header (length f) (seq c) 0 @ f),
         seq := seq c + 1\<rparr>))"
  using assms by (simp add: writeChunk_def payload_buf_def Let_def)

lemma le24_of_nat:
  assumes "n < 16777216"
  shows "unat (le24 (ucast (word_of_nat n :: u32)) (ucast (drop_bit 8 (word_of_nat n :: u32)))
    (ucast (drop_bit 16 (word_of_nat n :: u32))) :: u32) = n"
proof -
  have "unat (word_of_nat n :: u32) = n" using assms by (intro unat_of_nat_small) simp
  with assms show ?thesis by (simp add: le24_le_bytes)
qed

lemma le24_0: "le24 0 0 0 = 0"
  by (simp add: le24_def)

text \<open>The reader on a packet with a compressed header: stored, or inflated and split.\<close>

lemma readCompressedFrame_stored:
  assumes "rx c = compressed_header (length z) s 0 @ z @ rest" and "length z < 16777216"
  shows "readCompressedFrame zopen out c = (Ok (out @ z, True), c\<lparr>rx := rest\<rparr>)"
proof -
  have "readFull 7 c = (Ok (compressed_header (length z) s 0), c\<lparr>rx := z @ rest\<rparr>)"
    using assms(1) by (intro readFull_append) (simp_all add: compressed_header_def)
  with assms(2) show ?thesis
    by (simp add: readCompressedFrame_def compressed_header_def le_bytes_numerals le24_of_nat
        le24_0 Let_def)
qed

lemma readCompressedFrame_inflated:
  assumes rx: "rx c = compressed_header (length z) s (length f) @ z @ rest"
    and len: "length z < 16777216" "length f < 16777216" "f \<noteq> []"
    and z: "zopen z = Ok (f @ more_data, e)"
  shows "readCompressedFrame zopen out c =
    (let ((out', complete), c') =
       drain_mysql out (c\<lparr>rx := rest, mysqlBuf := mysqlBuf c @ f\<rparr>)
     in (Ok (out', complete \<or> out' \<noteq> []), c'))"
proof -
  have hd: "readFull 7 c = (Ok (compressed_header (length z) s (length f)), c\<lparr>rx := z @ rest\<rparr>)"
    using rx by (intro readFull_append) (simp_all add: compressed_header_def)
  have "fst (read_full_src (length f) (f @ more_data) e) = Ok f"
    by (simp add: read_full_src_def)
  with len z show ?thesis
    by (simp add: readCompressedFrame_def hd compressed_header_def le_bytes_numerals le24_of_nat
        Let_def)
qed

lemma drain_mysql_frame:
  assumes "mysqlBuf c = mysql_frame s p" and "length p < maxPayloadLen"
  shows "drain_mysql out c = ((out @ p, True), c\<lparr>mysqlBuf := [], seq := seq c + 1\<rparr>)"
proof -
  have "mysql_len (mysqlBuf c) = length p"
    using mysql_len_frame [of p s "[]"] assms by simp
  moreover have "subslice 4 (4 + length p) (mysqlBuf c) = p"
    using assms(1) by (simp add: subslice_def mysql_frame_def)
  ultimately show ?thesis
    using assms by (subst drain_mysql.simps) (simp add: Let_def)
qed

text \<open>The connection in compressed mode with an empty buffer.\<close>

definition compressed_synced :: "packet_conn \<Rightarrow> packet_conn \<Rightarrow> bool" where
  "compressed_synced s r \<longleftrightarrow>
     \<not> ob20 s \<and> compressed s \<and> txFail s = [] \<and> \<not> ob20 r \<and> compressed r \<and> mysqlBuf r = [] \<and>
     seq s = seq r"

text \<open>
  C22: in compressed mode a payload whose MySQL packet is longer than 50 bytes, shorter than the
  16 MiB limit and made smaller by zlib is read back unchanged, provided that zlib inflates what
  it deflated.
\<close>

theorem compressed_packet_roundtrip:
  assumes "compressed_synced s r" and "tx s = []" and "rx r = tx (snd (WritePacket deflate p s))"
    and "46 < length p" and "4 + length p < maxPayloadLen"
    and "length (deflate (mysql_frame (seq s) p)) < 4 + length p"
    and "zopen (deflate (mysql_frame (seq s) p)) = Ok (mysql_frame (seq s) p, EOF)"
  shows "\<exists>r'. ReadPacket zopen r = (Ok p, r') \<and> rx r' = [] \<and>
    compressed_synced (snd (WritePacket deflate p s)) r'"
proof -
  let ?f = "mysql_frame (seq s) p" and ?z = "deflate (mysql_frame (seq s) p)"
  have w: "WritePacket deflate p s =
      (Ok (), s\<lparr>tx := compressed_header (length ?z) (seq s) (length ?f) @ ?z, seq := seq s + 1\<rparr>)"
    using assms by (intro WritePacket_single) (simp_all add: compressed_synced_def writeChunk_compressed Let_def)
  then have rx: "rx r = compressed_header (length ?z) (seq s) (length ?f) @ ?z @ []"
    using assms(3) by simp
  have "readCompressedFrame zopen [] r =
      (Ok (p, True), r\<lparr>rx := [], mysqlBuf := [], seq := seq r + 1\<rparr>)"
    using readCompressedFrame_inflated [OF rx, of zopen "[]" EOF "[]"] assms
      drain_mysql_frame [of "r\<lparr>rx := [], mysqlBuf := ?f\<rparr>" "seq s" p "[]"]
    by (simp add: compressed_synced_def maxPayloadLen_def) (simp add: mysql_frame_def)
  then have "ReadPacket zopen r = (Ok p, r\<lparr>rx := [], mysqlBuf := [], seq := seq r + 1\<rparr>)"
    using assms(1) by (simp add: ReadPacket_def ReadPacket_loop.simps compressed_synced_def)
  with assms(1) w show ?thesis by (simp add: compressed_synced_def)
qed

text \<open>A client connection with compression negotiated.\<close>

definition sample_compressed :: "bytes \<Rightarrow> packet_conn" where
  "sample_compressed incoming = EnableCompression (NewPacketConn incoming EOF)"

lemma sample_compressed_simps [simp]:
  "\<not> ob20 (sample_compressed b)" "compressed (sample_compressed b)" "mysqlBuf (sample_compressed b) = []"
  "rx (sample_compressed b) = b" "tx (sample_compressed b) = []" "txFail (sample_compressed b) = []"
  "seq (sample_compressed b) = 0"
  by (simp_all add: sample_compressed_def EnableCompression_def NewPacketConn_def)

theorem compressed_packet_roundtrip_witness:
  "let p = replicate 60 65; z = (\<lambda>b. if b = mysql_frame 0 p then [0x78] else b);
       u = (\<lambda>b. if b = [0x78] then Ok (mysql_frame 0 p, EOF) else Ok (b, EOF));
       r = sample_compressed (tx (snd (WritePacket z p (sample_compressed []))))
   in \<exists>r'. ReadPacket u r = (Ok p, r') \<and> rx r' = []"
proof -
  let ?p = "replicate 60 65 :: bytes"
  let ?z = "\<lambda>b :: bytes. if b = mysql_frame 0 ?p then [0x78] else b"
  let ?u = "\<lambda>b :: bytes. if b = [0x78] then Ok (mysql_frame 0 ?p, EOF) else Ok (b, EOF)"
  let ?r = "sample_compressed (tx (snd (WritePacket ?z ?p (sample_compressed []))))"
  have "\<exists>r'. ReadPacket ?u ?r = (Ok ?p, r') \<and> rx r' = [] \<and>
      compressed_synced (snd (WritePacket ?z ?p (sample_compressed []))) r'"
    by (rule compressed_packet_roundtrip) (simp_all add: compressed_synced_def maxPayloadLen_def)
  then show ?thesis unfolding Let_def by blast
qed

text \<open>
  A MySQL packet read as if it had a compressed header: its four header bytes and the first three
  of its payload are taken for the seven, so that the payload comes up three bytes short.
\<close>

lemma readCompressedFrame_plain_packet:
  assumes "rx c = mysql_frame s p" and "length p < maxPayloadLen" and "rxEnd c = EOF"
  shows "fst (readCompressedFrame zopen [] c) = Err (if length p = 3 then EOF else UnexpectedEOF)"
proof (cases "length p < 3")
  case True
  then show ?thesis
    using assms by (auto simp: readCompressedFrame_def readFull_def read_full_src_def mysql_frame_def)
next
  case False
  then have p: "p = take 3 p @ drop 3 p" "length (take 3 p) = 3" by simp_all
  let ?h = "le_bytes 3 (word_of_nat (length p) :: u32) @ [s] @ take 3 p"
  have "readFull 7 c = (Ok ?h, c\<lparr>rx := drop 3 p\<rparr>)"
    using assms(1) p by (intro readFull_append) (simp_all add: mysql_frame_def)
  moreover have "unat (le24 (?h ! 0) (?h ! 1) (?h ! 2) :: u32) = length p"
    using assms(2) by (simp add: le_bytes_numerals le24_of_nat maxPayloadLen_def)
  moreover have "fst (readFull (length p) (c\<lparr>rx := drop 3 p\<rparr>)) = Err (if length p = 3 then EOF else UnexpectedEOF)"
    using assms(3) False by (auto simp: readFull_def read_full_src_def)
  ultimately show ?thesis
    by (cases "readFull (length p) (c\<lparr>rx := drop 3 p\<rparr>)") (simp add: readCompressedFrame_def Let_def)
qed

text \<open>
  C23: the packets that compressed mode does not compress are not read back.  A payload of at most
  46 bytes (50 with its packet header) is written as a plain MySQL packet with no compressed header
  before it, and the reader of that stream, which takes seven bytes as the compressed header,
  reports the end of the stream.  A longer one that zlib does not make smaller is stored behind a
  compressed header, and the reader returns the MySQL packet with its four-byte header as the
  payload.
\<close>

theorem compressed_stored_not_read_back:
  assumes "compressed_synced s r" and "tx s = []" and "rx r = tx (snd (WritePacket deflate p s))"
    and "rxEnd r = EOF" and "4 + length p < maxPayloadLen"
    and "46 < length p \<longrightarrow> 4 + length p \<le> length (deflate (mysql_frame (seq s) p))"
  shows "tx (snd (WritePacket deflate p s)) =
      (if length p \<le> 46 then mysql_frame (seq s) p
       else compressed_header (4 + length p) (seq s) 0 @ mysql_frame (seq s) p) \<and>
    fst (ReadPacket zopen r) =
      (if length p = 3 then Err EOF else if length p \<le> 46 then Err UnexpectedEOF
       else Ok (mysql_frame (seq s) p))"
proof (cases "length p \<le> 46")
  case True
  let ?f = "mysql_frame (seq s) p"
  have "WritePacket deflate p s = (Ok (), s\<lparr>tx := ?f, seq := seq s + 1\<rparr>)"
    using assms True
    by (intro WritePacket_single) (simp_all add: compressed_synced_def writeChunk_compressed maxPayloadLen_def)
  then have w: "tx (snd (WritePacket deflate p s)) = ?f" by simp
  have "fst (readCompressedFrame zopen [] r) = Err (if length p = 3 then EOF else UnexpectedEOF)"
    using assms w by (intro readCompressedFrame_plain_packet) simp_all
  then have "fst (ReadPacket zopen r) = Err (if length p = 3 then EOF else UnexpectedEOF)"
    using assms(1)
    by (cases "readCompressedFrame zopen [] r") (simp add: ReadPacket_def ReadPacket_loop.simps compressed_synced_def)
  with w True show ?thesis by simp
next
  case False
  let ?f = "mysql_frame (seq s) p"
  have "WritePacket deflate p s =
      (Ok (), s\<lparr>tx := compressed_header (length ?f) (seq s) 0 @ ?f, seq := seq s + 1\<rparr>)"
    using assms False
    by (intro WritePacket_single) (auto simp: compressed_synced_def writeChunk_compressed Let_def)
  then have w: "tx (snd (WritePacket deflate p s)) = compressed_header (length ?f) (seq s) 0 @ ?f" by simp
  then have "rx r = compressed_header (length ?f) (seq s) 0 @ ?f @ []" using assms(3) by simp
  then have "readCompressedFrame zopen [] r = (Ok ([] @ ?f, True), r\<lparr>rx := []\<rparr>)"
    using assms(5) by (intro readCompressedFrame_stored) (auto simp: maxPayloadLen_def)
  then have "fst (ReadPacket zopen r) = Ok ?f"
    using assms(1) by (simp add: ReadPacket_def ReadPacket_loop.simps compressed_synced_def)
  with w False show ?thesis by (simp add: add.commute)
qed

theorem compressed_stored_not_read_back_witness:
  "let p = replicate 50 65; r = sample_compressed (tx (snd (WritePacket id p (sample_compressed []))));
       q = [14]; r' = sample_compressed (tx (snd (WritePacket id q (sample_compressed []))))
   in fst (ReadPacket (\<lambda>_. Err EOF) r) = Ok ([50, 0, 0, 0] @ p) \<and>
      rx r' = [1, 0, 0, 0, 14] \<and> fst (ReadPacket (\<lambda>_. Err EOF) r') = Err UnexpectedEOF"
proof -
  let ?p = "replicate 50 65 :: bytes" and ?q = "[14] :: bytes"
  let ?r = "\<lambda>p. sample_compressed (tx (snd (WritePacket id p (sample_compressed []))))"
  have stop: "rxEnd (?r p) = EOF" for p
    by (simp add: sample_compressed_def EnableCompression_def NewPacketConn_def)
  have sync: "compressed_synced (sample_compressed []) (?r p)" for p by (simp add: compressed_synced_def)
  have cond: "4 + length p < maxPayloadLen" "46 < length p \<longrightarrow> 4 + length p \<le> length (id (mysql_frame 0 p))"
    if "length p \<le> 50" for p
    using that by (simp_all add: maxPayloadLen_def)
  have "fst (ReadPacket (\<lambda>_. Err EOF) (?r ?p)) = Ok (mysql_frame 0 ?p)"
    using conjunct2 [OF compressed_stored_not_read_back [OF sync [of ?p] _ _ stop [of ?p], of id ?p "\<lambda>_. Err EOF"]]
      cond [of ?p]
    by simp
  moreover have "tx (snd (WritePacket id ?q (sample_compressed []))) = mysql_frame 0 ?q"
    using conjunct1 [OF compressed_stored_not_read_back [OF sync [of ?q] _ _ stop [of ?q], of id ?q "\<lambda>_. Err EOF"]]
      cond [of ?q]
    by simp
  moreover have "fst (ReadPacket (\<lambda>_. Err EOF) (?r ?q)) = Err UnexpectedEOF"
    using conjunct2 [OF compressed_stored_not_read_back [OF sync [of ?q] _ _ stop [of ?q], of id ?q "\<lambda>_. Err EOF"]]
      cond [of ?q]
    by simp
  moreover have "mysql_frame 0 ?p = [50, 0, 0, 0] @ ?p" "mysql_frame 0 ?q = [1, 0, 0, 0, 14]"
    by (simp_all add: mysql_frame_def wire_simps)
  ultimately show ?thesis by (simp only: Let_def sample_compressed_simps)
qed

end
