(* ===== verification/Go_Strings.thy ===== *)
theory Go_Strings
  imports Go_Error "HOL-Library.Char_ord"
begin

text \<open>
  The functions of Go's \<open>strings\<close> and \<open>strconv\<close> packages the driver uses, on byte strings.  Case
  mapping and white space are those of ASCII: the driver applies them to keywords, option values
  and SQL text, and bytes above \<open>0x7f\<close> are left alone.
\<close>

subsection \<open>Characters\<close>

definition NL :: char where "NL = CHR 0x0A"
definition SQ :: char where "SQ = CHR 0x27"
definition DQ :: char where "DQ = CHR 0x22"
definition BQ :: char where "BQ = CHR 0x60"
definition BSL :: char where "BSL = CHR 0x5C"

lemmas quote_chars = NL_def SQ_def DQ_def BQ_def BSL_def

definition is_digit :: "char \<Rightarrow> bool" where
  "is_digit c \<longleftrightarrow> CHR ''0'' \<le> c \<and> c \<le> CHR ''9''"

definition is_upper :: "char \<Rightarrow> bool" where
  "is_upper c \<longleftrightarrow> CHR ''A'' \<le> c \<and> c \<le> CHR ''Z''"

definition is_lower :: "char \<Rightarrow> bool" where
  "is_lower c \<longleftrightarrow> CHR ''a'' \<le> c \<and> c \<le> CHR ''z''"

definition is_space :: "char \<Rightarrow> bool" where
  "is_space c \<longleftrightarrow> c \<in> {CHR '' '', CHR 0x09, CHR 0x0A, CHR 0x0B, CHR 0x0C, CHR 0x0D}"

definition to_lower :: "char \<Rightarrow> char" where
  "to_lower c = (if is_upper c then char_of (of_char c + 32 :: nat) else c)"

definition to_upper :: "char \<Rightarrow> char" where
  "to_upper c = (if is_lower c then char_of (of_char c - 32 :: nat) else c)"

subsection \<open>The strings package\<close>

definition ToLower :: "string \<Rightarrow> string" where "ToLower s = map to_lower s"
definition ToUpper :: "string \<Rightarrow> string" where "ToUpper s = map to_upper s"

definition EqualFold :: "string \<Rightarrow> string \<Rightarrow> bool" where
  "EqualFold s t \<longleftrightarrow> ToLower s = ToLower t"

definition TrimSpace :: "string \<Rightarrow> string" where
  "TrimSpace s = rev (dropWhile is_space (rev (dropWhile is_space s)))"

definition HasPrefix :: "string \<Rightarrow> string \<Rightarrow> bool" where
  "HasPrefix s p \<longleftrightarrow> take (length p) s = p"

definition TrimPrefix :: "string \<Rightarrow> string \<Rightarrow> string" where
  "TrimPrefix s p = (if HasPrefix s p then drop (length p) s else s)"

definition TrimSuffix :: "string \<Rightarrow> string \<Rightarrow> string" where
  "TrimSuffix s p = (if HasPrefix (rev s) (rev p) then take (length s - length p) s else s)"

fun Contains :: "string \<Rightarrow> string \<Rightarrow> bool" where
  "Contains [] p = (p = [])"
| "Contains (c # s) p = (HasPrefix (c # s) p \<or> Contains s p)"

definition ContainsAny :: "string \<Rightarrow> string \<Rightarrow> bool" where
  "ContainsAny s chars = list_ex (\<lambda>c. c \<in> set chars) s"

text \<open>\<open>IndexByte\<close>: \<open>None\<close> stands for -1.\<close>

fun IndexByte :: "string \<Rightarrow> char \<Rightarrow> nat option" where
  "IndexByte [] c = None"
| "IndexByte (x # s) c = (if x = c then Some 0 else map_option Suc (IndexByte s c))"

text \<open>\<open>Cut\<close> around the first occurrence of a separator: before, after, found.\<close>

fun Cut :: "string \<Rightarrow> string \<Rightarrow> string \<times> string \<times> bool" where
  "Cut [] sep = ([], [], sep = [])"
| "Cut (c # s) sep =
     (if HasPrefix (c # s) sep then ([], drop (length sep) (c # s), True)
      else let (before, rest, found) = Cut s sep in (c # before, rest, found))"

text \<open>\<open>Split\<close> at every occurrence of a one-byte separator.\<close>

fun SplitByte :: "string \<Rightarrow> char \<Rightarrow> string list" where
  "SplitByte [] c = [[]]"
| "SplitByte (x # s) c =
     (if x = c then [] # SplitByte s c
      else case SplitByte s c of [] \<Rightarrow> [[x]] | p # ps \<Rightarrow> (x # p) # ps)"

text \<open>\<open>Fields\<close>: the maximal runs of non-space characters.\<close>

function Fields :: "string \<Rightarrow> string list" where
  "Fields s =
     (let t = dropWhile is_space s
      in if t = [] then []
         else takeWhile (\<lambda>c. \<not> is_space c) t # Fields (dropWhile (\<lambda>c. \<not> is_space c) t))"
  by pat_completeness auto
termination
proof (relation "measure length", goal_cases)
  case 1
  show ?case by simp
next
  case (2 s t)
  from 2(2) obtain x xs where t: "t = x # xs" by (metis neq_Nil_conv)
  have "\<not> is_space (hd t)" using 2 by (metis hd_dropWhile)
  then have "length (dropWhile (\<lambda>c. \<not> is_space c) t) < length t"
    using length_dropWhile_le [of "\<lambda>c. \<not> is_space c" xs] by (simp add: t)
  then show ?case
    using 2 length_dropWhile_le [of is_space s] by simp
qed

declare Fields.simps [simp del]

fun Join :: "string list \<Rightarrow> string \<Rightarrow> string" where
  "Join [] sep = []"
| "Join [s] sep = s"
| "Join (s # t # ss) sep = s @ sep @ Join (t # ss) sep"

text \<open>\<open>Repeat\<close> with a count of 0 or more (the callers pass \<open>len(columns)-1\<close>).\<close>

definition Repeat :: "string \<Rightarrow> nat \<Rightarrow> string" where
  "Repeat s n = concat (replicate n s)"

subsection \<open>The strconv package, base 10\<close>

definition digit_char :: "nat \<Rightarrow> char" where
  "digit_char d = char_of (48 + d)"

definition digit_val :: "char \<Rightarrow> nat" where
  "digit_val c = of_char c - 48"

fun dec :: "nat \<Rightarrow> string" where
  "dec n = (if n < 10 then [digit_char n] else dec (n div 10) @ [digit_char (n mod 10)])"

declare dec.simps [simp del]

definition FormatInt :: "int \<Rightarrow> string" where
  "FormatInt i = (if i < 0 then CHR ''-'' # dec (nat (- i)) else dec (nat i))"

definition FormatUint :: "u64 \<Rightarrow> string" where
  "FormatUint w = dec (unat w)"

definition dec_val :: "string \<Rightarrow> nat" where
  "dec_val s = foldl (\<lambda>n c. 10 * n + digit_val c) 0 s"

definition all_digits :: "string \<Rightarrow> bool" where
  "all_digits s \<longleftrightarrow> s \<noteq> [] \<and> list_all is_digit s"

text \<open>\<open>ParseInt(s, 10, 64)\<close>; \<open>None\<close> is a syntax or range error.\<close>

definition ParseInt :: "string \<Rightarrow> int option" where
  "ParseInt s =
     (let neg = (s \<noteq> [] \<and> hd s = CHR ''-'');
          body = (if s \<noteq> [] \<and> hd s \<in> {CHR ''-'', CHR ''+''} then tl s else s)
      in if \<not> all_digits body then None
         else let v = (if neg then - int (dec_val body) else int (dec_val body))
              in if - (2 ^ 63) \<le> v \<and> v < 2 ^ 63 then Some v else None)"

text \<open>
  \<open>ParseUint(s, 10, 64)\<close>: the value and whether it succeeded.  On a range error the value is the
  largest one, on a syntax error it is 0; the driver uses the value in both cases.
\<close>

definition ParseUint :: "string \<Rightarrow> u64 \<times> bool" where
  "ParseUint s =
     (if \<not> all_digits s then (0, False)
      else if dec_val s < 2 ^ 64 then (word_of_nat (dec_val s), True)
      else (- 1, False))"

text \<open>Decimal digits padded with zeros to a width, as \<open>%0nd\<close> prints a non-negative number.\<close>

definition pad_dec :: "nat \<Rightarrow> nat \<Rightarrow> string" where
  "pad_dec width n = (let d = dec n in replicate (width - length d) (CHR ''0'') @ d)"

subsection \<open>Facts\<close>

lemma digit_char_val:
  assumes "d < 10"
  shows "digit_val (digit_char d) = d" and "is_digit (digit_char d)"
proof -
  have of: "of_char (digit_char d) = 48 + d"
    using assms by (simp add: digit_char_def)
  then show "digit_val (digit_char d) = d"
    by (simp add: digit_val_def)
  show "is_digit (digit_char d)"
    using of assms by (simp add: is_digit_def less_eq_char_def)
qed

lemma dec_val_append_digit: "dec_val (s @ [c]) = 10 * dec_val s + digit_val c"
  by (simp add: dec_val_def)

lemma dec_digits: "all_digits (dec n)"
proof (induction n rule: dec.induct)
  case (1 n)
  then show ?case
    by (subst dec.simps) (auto simp: all_digits_def digit_char_val)
qed

lemma dec_val_dec [simp]: "dec_val (dec n) = n"
proof (induction n rule: dec.induct)
  case (1 n)
  then show ?case
    by (subst dec.simps) (simp add: dec_val_append_digit digit_char_val, simp add: dec_val_def digit_char_val)
qed

lemma hd_digit: "all_digits s \<Longrightarrow> hd s \<noteq> CHR ''-'' \<and> hd s \<noteq> CHR ''+''"
  by (cases s) (auto simp: all_digits_def is_digit_def less_eq_char_def)

lemma ParseInt_FormatInt:
  assumes "- (2 ^ 63) \<le> i" and "i < 2 ^ 63"
  shows "ParseInt (FormatInt i) = Some i"
proof (cases "i < 0")
  case True
  with assms show ?thesis
    using dec_digits [of "nat (- i)"] by (simp add: ParseInt_def FormatInt_def Let_def)
next
  case False
  with assms show ?thesis
    using dec_digits [of "nat i"] hd_digit [OF dec_digits [of "nat i"]]
    by (simp add: ParseInt_def FormatInt_def Let_def)
qed

lemma ParseUint_FormatUint: "ParseUint (FormatUint w) = (w, True)"
  using unsigned_less [of w] by (simp add: ParseUint_def FormatUint_def dec_digits)

lemma Cut_concat: "Cut s sep = (before, rest, True) \<Longrightarrow> s = before @ sep @ rest"
proof (induction s arbitrary: before rest)
  case Nil
  then show ?case by simp
next
  case (Cons c s)
  show ?case
  proof (cases "HasPrefix (c # s) sep")
    case True
    then have "take (length sep) (c # s) = sep" by (simp add: HasPrefix_def)
    with Cons.prems True show ?thesis by (metis Cut.simps(2) append_Nil append_take_drop_id prod.inject)
  next
    case False
    then obtain b where "Cut s sep = (b, rest, True)" and "before = c # b"
      using Cons.prems by (auto split: prod.splits)
    with Cons.IH show ?thesis by simp
  qed
qed

lemma TrimSpace_idem [simp]: "TrimSpace (TrimSpace s) = TrimSpace s"
proof -
  define t where "t = dropWhile is_space s"
  define u where "u = rev (dropWhile is_space (rev t))"
  have "dropWhile is_space u = u"
  proof (cases u)
    case Nil
    then show ?thesis by simp
  next
    case (Cons x xs)
    then have "t \<noteq> []" by (auto simp: u_def)
    moreover obtain v where "t = u @ v"
      by (metis rev_append rev_rev_ident takeWhile_dropWhile_id u_def)
    ultimately have "hd t = x" using Cons by auto
    moreover have "\<not> is_space (hd t)" using \<open>t \<noteq> []\<close> hd_dropWhile [of is_space s] by (simp add: t_def)
    ultimately show ?thesis using Cons by simp
  qed
  then show ?thesis
    by (simp add: TrimSpace_def t_def [symmetric] u_def)
qed

subsection \<open>Padded decimals\<close>

lemma length_dec_le: "n < 10 ^ w \<Longrightarrow> 0 < w \<Longrightarrow> length (dec n) \<le> w"
proof (induction n arbitrary: w rule: dec.induct)
  case (1 n)
  show ?case
  proof (cases "n < 10")
    case True
    then show ?thesis using 1(3) by (subst dec.simps) simp
  next
    case False
    then obtain v where w: "w = Suc v" and v: "0 < v"
      using 1(2,3) by (cases w; cases "w - 1") auto
    have "n div 10 < 10 ^ v" using 1(2) by (simp add: w less_mult_imp_div_less mult.commute)
    then have "length (dec (n div 10)) \<le> v" using 1(1) False v by blast
    then show ?thesis using False by (subst dec.simps) (simp add: w)
  qed
qed

lemma length_pad_dec: "n < 10 ^ w \<Longrightarrow> 0 < w \<Longrightarrow> length (pad_dec w n) = w"
  using length_dec_le [of n w] by (simp add: pad_dec_def Let_def)

lemma pad_dec_digits: "list_all is_digit (pad_dec w n)"
  using dec_digits [of n] by (auto simp: pad_dec_def Let_def all_digits_def list_all_iff is_digit_def less_eq_char_def)

lemma dec_val_zeros: "dec_val (replicate k (CHR ''0'') @ s) = dec_val s"
  by (induction k) (simp_all add: dec_val_def digit_val_def)

lemma dec_val_pad_dec [simp]: "dec_val (pad_dec w n) = n"
  by (simp add: pad_dec_def Let_def dec_val_zeros)

lemma dec_val_trailing_zeros: "dec_val (s @ replicate k (CHR ''0'')) = dec_val s * 10 ^ k"
  by (induction k arbitrary: s)
    (simp_all add: replicate_append_same [symmetric] dec_val_append_digit digit_val_def
      flip: append_assoc del: replicate_append_same)

lemma digit_char_0: "digit_char 0 = CHR ''0''"
  by code_simp

lemma pad_dec_2:
  assumes "n < 100"
  shows "pad_dec 2 n = [digit_char (n div 10), digit_char (n mod 10)]"
proof (cases "n < 10")
  case True
  then show ?thesis by (simp add: pad_dec_def dec.simps [of n] digit_char_0)
next
  case False
  moreover have "n div 10 < 10" using assms by simp
  ultimately show ?thesis by (simp add: pad_dec_def dec.simps [of n] dec.simps [of "n div 10"])
qed

end
