(* ===== verification/Go_Time.thy ===== *)
theory Go_Time
  imports Go_Strings
begin

text \<open>
  The part of Go's \<open>time\<close> package the driver uses: locations as a list of zone transitions,
  instants, the proleptic Gregorian calendar, \<open>time.Date\<close> with its two-step search for the
  offset, \<open>ZoneBounds\<close>, and the layout \<open>2006-01-02 15:04:05.999999999\<close>.  A location whose
  zone rules repeat for ever is represented by its transitions up to the last year in use.
\<close>

subsection \<open>Locations and instants\<close>

record location =
  zoneName :: string
  baseOffset :: int
  transitions :: "(int \<times> int) list"

record go_time =
  unixSec :: int
  nanos :: int
  timeLoc :: location

definition UTC :: location where
  "UTC = \<lparr>zoneName = ''UTC'', baseOffset = 0, transitions = []\<rparr>"

definition FixedZone :: "string \<Rightarrow> int \<Rightarrow> location" where
  "FixedZone name offset = \<lparr>zoneName = name, baseOffset = offset, transitions = []\<rparr>"

text \<open>
  \<open>Location.lookup\<close>: the offset in force at an instant and the interval in which it is; \<open>None\<close>
  is an interval without end on that side.
\<close>

fun lookup_from :: "int \<Rightarrow> int option \<Rightarrow> (int \<times> int) list \<Rightarrow> int \<Rightarrow> int \<times> int option \<times> int option" where
  "lookup_from off start [] sec = (off, start, None)"
| "lookup_from off start ((when, off') # ts) sec =
     (if sec < when then (off, start, Some when) else lookup_from off' (Some when) ts sec)"

definition lookup :: "location \<Rightarrow> int \<Rightarrow> int \<times> int option \<times> int option" where
  "lookup l sec = lookup_from (baseOffset l) None (transitions l) sec"

definition zone_offset :: "location \<Rightarrow> int \<Rightarrow> int" where
  "zone_offset l sec = fst (lookup l sec)"

subsection \<open>The calendar\<close>

definition leap :: "int \<Rightarrow> bool" where
  "leap y \<longleftrightarrow> y mod 4 = 0 \<and> (y mod 100 \<noteq> 0 \<or> y mod 400 = 0)"

text \<open>Days from 1 January of year 1 to 1 January of year \<open>y\<close>.\<close>

definition days_before_year :: "int \<Rightarrow> int" where
  "days_before_year y = 365 * (y - 1) + (y - 1) div 4 - (y - 1) div 100 + (y - 1) div 400"

definition month_table :: "int list" where
  "month_table = [0, 31, 59, 90, 120, 151, 181, 212, 243, 273, 304, 334, 365]"

definition days_before_month :: "bool \<Rightarrow> int \<Rightarrow> int" where
  "days_before_month lp m = month_table ! nat (m - 1) + (if lp \<and> 2 < m then 1 else 0)"

definition month_len :: "int \<Rightarrow> int \<Rightarrow> int" where
  "month_len y m = days_before_month (leap y) (m + 1) - days_before_month (leap y) m"

definition days_of_civil :: "int \<Rightarrow> int \<Rightarrow> int \<Rightarrow> int" where
  "days_of_civil y m d = days_before_year y + days_before_month (leap y) m + d - 1"

text \<open>Year and day in the year from a day number, by cycles of 400, 100, 4 and 1 years.\<close>

definition year_yday :: "int \<Rightarrow> int \<times> int" where
  "year_yday n =
     (let a = n div 146097; r = n mod 146097;
          b = (let q = r div 36524 in q - q div 4); r1 = r - 36524 * b;
          c = r1 div 1461; r2 = r1 - 1461 * c;
          e = (let q = r2 div 365 in q - q div 4)
      in (400 * a + 100 * b + 4 * c + e + 1, r2 - 365 * e))"

definition month_of :: "bool \<Rightarrow> int \<Rightarrow> int" where
  "month_of lp yday =
     int (length (filter (\<lambda>m. days_before_month lp m \<le> yday) [1, 2, 3, 4, 5, 6, 7, 8, 9, 10, 11, 12]))"

definition civil_of_days :: "int \<Rightarrow> int \<times> int \<times> int" where
  "civil_of_days n =
     (let (y, yday) = year_yday n; m = month_of (leap y) yday
      in (y, m, yday - days_before_month (leap y) m + 1))"

definition valid_date :: "int \<Rightarrow> int \<Rightarrow> int \<Rightarrow> bool" where
  "valid_date y m d \<longleftrightarrow> 1 \<le> m \<and> m \<le> 12 \<and> 1 \<le> d \<and> d \<le> month_len y m"

text \<open>Wall clock readings and the seconds since 1970 they denote at offset zero.\<close>

record wall =
  wYear :: int
  wMonth :: int
  wDay :: int
  wHour :: int
  wMinute :: int
  wSecond :: int

definition secs_of_wall :: "wall \<Rightarrow> int" where
  "secs_of_wall w =
     (days_of_civil (wYear w) (wMonth w) (wDay w) - 719162) * 86400 +
     wHour w * 3600 + wMinute w * 60 + wSecond w"

definition wall_of_secs :: "int \<Rightarrow> wall" where
  "wall_of_secs t =
     (let (y, m, d) = civil_of_days (t div 86400 + 719162); r = t mod 86400
      in \<lparr>wYear = y, wMonth = m, wDay = d, wHour = r div 3600, wMinute = r mod 3600 div 60,
          wSecond = r mod 60\<rparr>)"

definition valid_wall :: "wall \<Rightarrow> bool" where
  "valid_wall w \<longleftrightarrow>
     valid_date (wYear w) (wMonth w) (wDay w) \<and> 0 \<le> wHour w \<and> wHour w < 24 \<and>
     0 \<le> wMinute w \<and> wMinute w < 60 \<and> 0 \<le> wSecond w \<and> wSecond w < 60"

subsection \<open>Operations on instants\<close>

definition time_wall :: "go_time \<Rightarrow> wall" where
  "time_wall t = wall_of_secs (unixSec t + zone_offset (timeLoc t) (unixSec t))"

text \<open>The zero \<open>time.Time\<close> is 1 January of year 1, 00:00 UTC.\<close>

definition zero_sec :: int where "zero_sec = - 62135596800"

definition zero_time :: go_time where
  "zero_time = \<lparr>unixSec = zero_sec, nanos = 0, timeLoc = UTC\<rparr>"

definition IsZero :: "go_time \<Rightarrow> bool" where
  "IsZero t \<longleftrightarrow> unixSec t = zero_sec \<and> nanos t = 0"

definition time_In :: "go_time \<Rightarrow> location \<Rightarrow> go_time" where
  "time_In t l = t\<lparr>timeLoc := l\<rparr>"

definition time_UTC :: "go_time \<Rightarrow> go_time" where
  "time_UTC t = time_In t UTC"

definition time_Equal :: "go_time \<Rightarrow> go_time \<Rightarrow> bool" where
  "time_Equal t u \<longleftrightarrow> unixSec t = unixSec u \<and> nanos t = nanos u"

text \<open>\<open>time.Date\<close>: fields out of range carry over; the offset is searched in two steps.\<close>

definition time_Date :: "int \<Rightarrow> int \<Rightarrow> int \<Rightarrow> int \<Rightarrow> int \<Rightarrow> int \<Rightarrow> int \<Rightarrow> location \<Rightarrow> go_time" where
  "time_Date year month day hour minute sec nsec loc =
     (let m = month - 1;
          unix = secs_of_wall \<lparr>wYear = year + m div 12, wMonth = m mod 12 + 1, wDay = day,
                   wHour = hour, wMinute = minute, wSecond = sec + nsec div 1000000000\<rparr>;
          (offset, start, stop) = lookup loc unix;
          utc = unix - offset;
          outside = (case start of None \<Rightarrow> False | Some s \<Rightarrow> utc < s) \<or>
                    (case stop of None \<Rightarrow> False | Some e \<Rightarrow> e \<le> utc);
          sec' = (if offset = 0 then unix
                  else if outside then unix - zone_offset loc utc else utc)
      in \<lparr>unixSec = sec', nanos = nsec mod 1000000000, timeLoc = loc\<rparr>)"

text \<open>\<open>ZoneBounds\<close>: the zero time where the interval is unbounded.\<close>

definition ZoneBounds :: "go_time \<Rightarrow> go_time \<times> go_time" where
  "ZoneBounds t =
     (let (_, start, stop) = lookup (timeLoc t) (unixSec t);
          at = (\<lambda>b. case b of None \<Rightarrow> zero_time
                   | Some s \<Rightarrow> \<lparr>unixSec = s, nanos = 0, timeLoc = timeLoc t\<rparr>)
      in (at start, at stop))"

text \<open>\<open>t.Add(-time.Nanosecond)\<close>.\<close>

definition minus_nano :: "go_time \<Rightarrow> go_time" where
  "minus_nano t =
     (if nanos t = 0 then t\<lparr>unixSec := unixSec t - 1, nanos := 999999999\<rparr>
      else t\<lparr>nanos := nanos t - 1\<rparr>)"

definition add_seconds :: "go_time \<Rightarrow> int \<Rightarrow> go_time" where
  "add_seconds t s = t\<lparr>unixSec := unixSec t + s\<rparr>"

text \<open>The layout \<open>2006-01-02 15:04:05.999999999\<close>: trailing zeros of the fraction are dropped.\<close>

definition fraction9 :: "nat \<Rightarrow> string" where
  "fraction9 ns =
     (let digits = rev (dropWhile (\<lambda>c. c = CHR ''0'') (rev (pad_dec 9 ns)))
      in if digits = [] then [] else CHR ''.'' # digits)"

definition time_Format :: "go_time \<Rightarrow> string" where
  "time_Format t =
     (let w = time_wall t;
          year = (if wYear w < 0 then CHR ''-'' # pad_dec 4 (nat (- wYear w)) else pad_dec 4 (nat (wYear w)))
      in year @ ''-'' @ pad_dec 2 (nat (wMonth w)) @ ''-'' @ pad_dec 2 (nat (wDay w)) @ '' '' @
         pad_dec 2 (nat (wHour w)) @ '':'' @ pad_dec 2 (nat (wMinute w)) @ '':'' @
         pad_dec 2 (nat (wSecond w)) @ fraction9 (nat (nanos t)))"

subsection \<open>The calendar is a bijection\<close>

lemma days_before_year_cycles:
  assumes "0 \<le> b" "b \<le> 3" "0 \<le> c" "c \<le> 24" "0 \<le> e" "e \<le> 3"
  shows "days_before_year (400 * a + 100 * b + 4 * c + e + 1) = 146097 * a + 36524 * b + 1461 * c + 365 * e"
proof -
  let ?y = "400 * a + 100 * b + 4 * c + e"
  have "?y div 4 = 100 * a + 25 * b + c" using assms by simp
  moreover have "?y div 100 = 4 * a + b" using assms by simp
  moreover have "?y div 400 = a" using assms by simp
  ultimately show ?thesis by (simp add: days_before_year_def)
qed

lemma mod_period:
  assumes "0 \<le> (r :: int)" and "r < k"
  shows "(r + 1 + k * q) mod k = 0 \<longleftrightarrow> r = k - 1"
proof -
  have "(r + 1 + k * q) mod k = (r + 1) mod k" by (rule mod_mult_self2)
  moreover have "(r + 1) mod k = (if r = k - 1 then 0 else r + 1)"
    using assms by (simp add: mod_pos_pos_trivial)
  ultimately show ?thesis using assms by simp
qed

lemma leap_cycles:
  assumes "0 \<le> b" "b \<le> 3" "0 \<le> c" "c \<le> 24" "0 \<le> e" "e \<le> 3"
  shows "leap (400 * a + 100 * b + 4 * c + e + 1) \<longleftrightarrow> e = 3 \<and> (c \<noteq> 24 \<or> b = 3)"
proof -
  let ?y = "400 * a + 100 * b + 4 * c + e + 1"
  have "?y = e + 1 + 4 * (100 * a + 25 * b + c)" by simp
  then have "?y mod 4 = 0 \<longleftrightarrow> e = 3"
    using mod_period [of e 4 "100 * a + 25 * b + c"] assms(5,6) by (simp only:) simp
  moreover have "?y = (4 * c + e) + 1 + 100 * (4 * a + b)" by simp
  then have "?y mod 100 = 0 \<longleftrightarrow> 4 * c + e = 99"
    using mod_period [of "4 * c + e" 100 "4 * a + b"] assms(3-6) by (simp only:) simp
  moreover have "?y = (100 * b + 4 * c + e) + 1 + 400 * a" by simp
  then have "?y mod 400 = 0 \<longleftrightarrow> 100 * b + 4 * c + e = 399"
    using mod_period [of "100 * b + 4 * c + e" 400 a] assms by (simp only:) simp
  ultimately show ?thesis
    unfolding leap_def using assms by linarith
qed

text \<open>Four equal cycles, the last of which is one longer: the quotient is capped at three.\<close>

lemma cycle_cap:
  assumes "0 < k" and "0 \<le> r" and "r \<le> 4 * (k :: int)"
  defines "b \<equiv> r div k - r div k div 4"
  shows "0 \<le> b" and "b \<le> 3" and "0 \<le> r - k * b" and "r - k * b \<le> k"
    and "r - k * b = k \<Longrightarrow> b = 3 \<and> r = 4 * k"
proof -
  define q where "q = r div k"
  have lo: "k * q \<le> r" and hi: "r < k * q + k"
    using mult_div_mod_eq [of k r] pos_mod_bound [OF assms(1), of r] pos_mod_sign [OF assms(1), of r]
    unfolding q_def by linarith+
  have "0 \<le> q" using assms(1,2) by (simp add: q_def pos_imp_zdiv_nonneg_iff)
  moreover have "q < 5"
  proof (rule ccontr)
    assume "\<not> q < 5"
    then have "k * 5 \<le> k * q" using assms(1) by simp
    with lo assms(1,3) show False by simp
  qed
  ultimately consider "q = 0" | "q = 1" | "q = 2" | "q = 3" | "q = 4" by linarith
  then have "0 \<le> b \<and> b \<le> 3 \<and> 0 \<le> r - k * b \<and> r - k * b \<le> k \<and> (r - k * b = k \<longrightarrow> b = 3 \<and> r = 4 * k)"
    using lo hi assms(3) by cases (auto simp: b_def q_def [symmetric])
  then show "0 \<le> b" "b \<le> 3" "0 \<le> r - k * b" "r - k * b \<le> k" "r - k * b = k \<Longrightarrow> b = 3 \<and> r = 4 * k"
    by blast+
qed

lemma div_pred:
  assumes "0 < (k :: int)"
  shows "y div k = (y - 1) div k + (if y mod k = 0 then 1 else 0)"
proof (cases "y mod k = 0")
  case True
  then obtain q where "y = k * q" by auto
  then have "y - 1 = (k - 1) + k * (q - 1)" by (simp add: algebra_simps)
  then have "(y - 1) div k = (k - 1) div k + (q - 1)" using assms by (simp only: div_mult_self2)
  moreover have "(k - 1) div k = 0" using assms by (intro div_pos_pos_trivial) auto
  ultimately show ?thesis using \<open>y = k * q\<close> assms by simp
next
  case False
  have "0 \<le> y mod k" "y mod k < k" using assms by simp_all
  with False have "(y mod k - 1) div k = 0" by (intro div_pos_pos_trivial) auto
  moreover have "y - 1 = (y mod k - 1) + k * (y div k)" by simp
  then have "(y - 1) div k = (y mod k - 1) div k + y div k" using assms by (metis div_mult_self2 less_irrefl add.commute)
  ultimately show ?thesis using False by simp
qed

lemma year_yday_spec:
  assumes "year_yday n = (y, k)"
  shows "days_before_year y + k = n" and "0 \<le> k" and "k < (if leap y then 366 else 365)"
proof -
  define r where "r = n mod 146097"
  define b where "b = r div 36524 - r div 36524 div 4"
  define r1 where "r1 = r - 36524 * b"
  define c where "c = r1 div 1461"
  define r2 where "r2 = r1 - 1461 * c"
  define e where "e = r2 div 365 - r2 div 365 div 4"
  have r: "0 \<le> r" "r \<le> 146096" by (simp_all add: r_def)
  have b: "0 \<le> b" "b \<le> 3" "0 \<le> r1" "r1 \<le> 36524" "r1 = 36524 \<Longrightarrow> b = 3"
  proof -
    have "(0 :: int) < 36524" "r \<le> 4 * 36524" using r by simp_all
    note cap = cycle_cap [OF this(1) r(1) this(2), folded b_def, folded r1_def]
    show "0 \<le> b" "b \<le> 3" "0 \<le> r1" "r1 \<le> 36524" by (fact cap)+
    show "r1 = 36524 \<Longrightarrow> b = 3" using cap(5) by blast
  qed
  have r2_mod: "r2 = r1 mod 1461" by (simp add: r2_def c_def minus_mult_div_eq_mod)
  have c: "0 \<le> c" "c \<le> 24" "0 \<le> r2" "r2 \<le> 1460"
    using b(3,4) pos_mod_bound [of 1461 r1] zdiv_mono1 [OF b(4), of 1461]
    by (simp_all add: c_def r2_mod pos_imp_zdiv_nonneg_iff)
  have top: "r2 = 1460 \<Longrightarrow> c = 24 \<Longrightarrow> r1 = 36524" by (simp add: r2_def)
  have e: "0 \<le> e" "e \<le> 3" "0 \<le> r2 - 365 * e" "r2 - 365 * e \<le> 365"
    "r2 - 365 * e = 365 \<Longrightarrow> e = 3 \<and> r2 = 1460"
  proof -
    have "(0 :: int) < 365" "r2 \<le> 4 * 365" using c by simp_all
    note cap = cycle_cap [OF this(1) c(3) this(2), folded e_def]
    show "0 \<le> e" "e \<le> 3" "0 \<le> r2 - 365 * e" "r2 - 365 * e \<le> 365" by (fact cap)+
    show "r2 - 365 * e = 365 \<Longrightarrow> e = 3 \<and> r2 = 1460" using cap(5) by simp
  qed
  define a where "a = n div 146097"
  have y: "y = 400 * a + 100 * b + 4 * c + e + 1" and k: "k = r2 - 365 * e"
    using assms
    unfolding year_yday_def Let_def a_def [symmetric] r_def [symmetric] b_def [symmetric]
      r1_def [symmetric] c_def [symmetric] r2_def [symmetric] e_def [symmetric]
    by (simp_all only: prod.inject)
  have "n = 146097 * a + r" unfolding a_def r_def by (rule mult_div_mod_eq [symmetric])
  moreover have "r = 36524 * b + (1461 * c + (365 * e + k))"
    by (simp add: k r1_def r2_def)
  ultimately show "days_before_year y + k = n"
    unfolding y days_before_year_cycles [OF b(1,2) c(1,2) e(1,2)] by (simp only: add.assoc)
  show "0 \<le> k" using e(3) k by simp
  have "leap y" if "k = 365"
  proof -
    have "e = 3 \<and> r2 = 1460" using that k by (intro e(5)) simp
    then show ?thesis using top b(5) unfolding y leap_cycles [OF b(1,2) c(1,2) e(1,2)] by blast
  qed
  then show "k < (if leap y then 366 else 365)" using e(4) k by fastforce
qed

lemma leap_step:
  assumes "R \<Longrightarrow> Q" and "Q \<Longrightarrow> P"
  shows "365 * y + (u + (if P then 1 else 0)) - (v + (if Q then 1 else 0)) + (w + (if R then 1 else 0)) =
    365 * (y - 1) + u - v + w + (if P \<and> (\<not> Q \<or> R) then 366 else 365 :: int)"
  using assms by (cases P; cases Q; cases R) simp_all

lemma days_before_year_Suc:
  "days_before_year (y + 1) = days_before_year y + (if leap y then 366 else 365)"
proof -
  have m: "y mod 400 mod 100 = y mod 100" "y mod 100 mod 4 = y mod 4"
    by (simp_all add: mod_mod_cancel)
  have "y mod 100 = 0" if "y mod 400 = 0" using m(1) unfolding that by simp
  moreover have "y mod 4 = 0" if "y mod 100 = 0" using m(2) unfolding that by simp
  ultimately have "365 * y + y div 4 - y div 100 + y div 400 =
      365 * (y - 1) + (y - 1) div 4 - (y - 1) div 100 + (y - 1) div 400 +
      (if y mod 4 = 0 \<and> (y mod 100 \<noteq> 0 \<or> y mod 400 = 0) then 366 else 365)"
    unfolding div_pred [of 4 y, OF zero_less_numeral] div_pred [of 100 y, OF zero_less_numeral]
      div_pred [of 400 y, OF zero_less_numeral]
    by (rule leap_step)
  then show ?thesis
    unfolding days_before_year_def leap_def add_diff_cancel_right' .
qed

lemma days_before_year_mono: "y \<le> z \<Longrightarrow> days_before_year y \<le> days_before_year z"
proof (induction z rule: int_ge_induct)
  case base
  then show ?case by simp
next
  case (step z)
  then show ?case by (simp add: days_before_year_Suc)
qed

lemma year_yday_eq:
  assumes "0 \<le> k" and "k < (if leap y then 366 else 365)"
  shows "year_yday (days_before_year y + k) = (y, k)"
proof -
  obtain z j where zj: "year_yday (days_before_year y + k) = (z, j)" by fastforce
  note spec = year_yday_spec [OF zj]
  have "z = y"
  proof (rule linorder_cases [of z y])
    assume "z < y"
    then have "days_before_year (z + 1) \<le> days_before_year y" by (intro days_before_year_mono) simp
    with spec assms show ?thesis by (simp add: days_before_year_Suc split: if_splits)
  next
    assume "y < z"
    then have "days_before_year (y + 1) \<le> days_before_year z" by (intro days_before_year_mono) simp
    with spec assms show ?thesis by (simp add: days_before_year_Suc split: if_splits)
  qed
  with spec zj show ?thesis by simp
qed

lemma month_cases:
  assumes "1 \<le> m" and "m \<le> (12 :: int)"
  shows "m \<in> {1, 2, 3, 4, 5, 6, 7, 8, 9, 10, 11, 12}"
  using assms by (simp, presburger)

lemma days_before_month_values:
  "days_before_month lp 1 = 0" "days_before_month lp 2 = 31"
  "days_before_month lp 3 = 59 + (if lp then 1 else 0)" "days_before_month lp 4 = 90 + (if lp then 1 else 0)"
  "days_before_month lp 5 = 120 + (if lp then 1 else 0)" "days_before_month lp 6 = 151 + (if lp then 1 else 0)"
  "days_before_month lp 7 = 181 + (if lp then 1 else 0)" "days_before_month lp 8 = 212 + (if lp then 1 else 0)"
  "days_before_month lp 9 = 243 + (if lp then 1 else 0)" "days_before_month lp 10 = 273 + (if lp then 1 else 0)"
  "days_before_month lp 11 = 304 + (if lp then 1 else 0)" "days_before_month lp 12 = 334 + (if lp then 1 else 0)"
  "days_before_month lp 13 = 365 + (if lp then 1 else 0)"
  by (simp_all add: days_before_month_def month_table_def)

lemma month_of_eq:
  assumes "1 \<le> m" "m \<le> 12" "days_before_month lp m \<le> k" "k < days_before_month lp (m + 1)"
  shows "month_of lp k = m"
  using month_cases [OF assms(1,2)] assms(3,4)
  by (cases lp; elim insertE emptyE) (auto simp: month_of_def days_before_month_values)

lemma month_of_range:
  assumes "0 \<le> k" and "k < (if lp then 366 else 365)"
  shows "1 \<le> month_of lp k" "month_of lp k \<le> 12"
    "days_before_month lp (month_of lp k) \<le> k" "k < days_before_month lp (month_of lp k + 1)"
proof -
  have "\<exists>m. 1 \<le> m \<and> m \<le> 12 \<and> days_before_month lp m \<le> k \<and> k < days_before_month lp (m + 1)"
  proof (rule ccontr)
    assume none: "\<not> ?thesis"
    have step: "days_before_month lp (m + 1) \<le> k" if "1 \<le> m" "m \<le> 12" "days_before_month lp m \<le> k" for m
      using none that by force
    have "days_before_month lp 1 \<le> k" using assms(1) by (simp add: days_before_month_values)
    then have "days_before_month lp 13 \<le> k"
      using step [of 1] step [of 2] step [of 3] step [of 4] step [of 5] step [of 6] step [of 7]
        step [of 8] step [of 9] step [of 10] step [of 11] step [of 12] by simp
    with assms(2) show False by (simp add: days_before_month_values split: if_splits)
  qed
  then obtain m where "1 \<le> m" "m \<le> 12" "days_before_month lp m \<le> k" "k < days_before_month lp (m + 1)"
    by blast
  moreover from this have "month_of lp k = m" by (rule month_of_eq)
  ultimately show "1 \<le> month_of lp k" "month_of lp k \<le> 12"
    "days_before_month lp (month_of lp k) \<le> k" "k < days_before_month lp (month_of lp k + 1)" by simp_all
qed

lemma valid_date_yday:
  assumes "valid_date y m d"
  shows "0 \<le> days_before_month (leap y) m + d - 1"
    and "days_before_month (leap y) m + d - 1 < (if leap y then 366 else 365)"
  using assms month_cases [of m]
  by (auto simp: valid_date_def month_len_def days_before_month_values split: if_splits)

lemma civil_of_days_of_civil:
  assumes "valid_date y m d"
  shows "civil_of_days (days_of_civil y m d) = (y, m, d)"
proof -
  let ?k = "days_before_month (leap y) m + d - 1"
  have "days_of_civil y m d = days_before_year y + ?k" by (simp add: days_of_civil_def)
  moreover have "year_yday (days_before_year y + ?k) = (y, ?k)"
    using valid_date_yday [OF assms] by (intro year_yday_eq) auto
  moreover have "month_of (leap y) ?k = m"
    using assms by (intro month_of_eq) (auto simp: valid_date_def month_len_def)
  ultimately show ?thesis by (simp add: civil_of_days_def)
qed

lemma days_of_civil_of_days:
  assumes "civil_of_days n = (y, m, d)"
  shows "days_of_civil y m d = n" and "valid_date y m d"
proof -
  obtain z k where zk: "year_yday n = (z, k)" by fastforce
  note spec = year_yday_spec [OF zk]
  note range = month_of_range [OF spec(2,3)]
  have "y = z" "m = month_of (leap z) k" "d = k - days_before_month (leap z) m + 1"
    using assms zk by (auto simp: civil_of_days_def Let_def)
  then show "days_of_civil y m d = n" and "valid_date y m d"
    using spec range by (auto simp: days_of_civil_def valid_date_def month_len_def)
qed

subsection \<open>Wall clock readings and seconds\<close>

lemma secs_of_wall_of_secs [simp]: "secs_of_wall (wall_of_secs t) = t"
proof -
  obtain y m d where civil: "civil_of_days (t div 86400 + 719162) = (y, m, d)"
    by (metis prod_cases3)
  have "days_of_civil y m d = t div 86400 + 719162" by (rule days_of_civil_of_days(1) [OF civil])
  moreover have "r div 3600 * 3600 + r mod 3600 div 60 * 60 + r mod 60 = r" for r :: int
  proof -
    have "r mod 60 = r mod 3600 mod 60" by (simp add: mod_mod_cancel)
    then show ?thesis using div_mult_mod_eq [of "r mod 3600" 60] div_mult_mod_eq [of r 3600] by linarith
  qed
  then have "t mod 86400 div 3600 * 3600 + t mod 86400 mod 3600 div 60 * 60 + t mod 86400 mod 60 = t mod 86400" .
  then have "x + t mod 86400 div 3600 * 3600 + t mod 86400 mod 3600 div 60 * 60 + t mod 86400 mod 60 =
      x + t mod 86400" for x
    by (metis add.assoc)
  ultimately show ?thesis
    by (simp only: wall_of_secs_def secs_of_wall_def civil Let_def prod.case wall.simps
        add_diff_cancel_right' div_mult_mod_eq)
qed

lemma wall_of_secs_inj: "wall_of_secs s = wall_of_secs t \<longleftrightarrow> s = t"
  by (metis secs_of_wall_of_secs)

lemma wall_of_secs_of_wall:
  assumes "valid_wall w"
  shows "wall_of_secs (secs_of_wall w) = w"
proof -
  define r where "r = wHour w * 3600 + wMinute w * 60 + wSecond w"
  define n where "n = days_of_civil (wYear w) (wMonth w) (wDay w)"
  have v: "0 \<le> wHour w" "wHour w < 24" "0 \<le> wMinute w" "wMinute w < 60" "0 \<le> wSecond w" "wSecond w < 60"
    using assms by (auto simp: valid_wall_def)
  have r: "0 \<le> r" "r < 86400" using v by (auto simp: r_def)
  define q where "q = wMinute w * 60 + wSecond w"
  have q: "0 \<le> q" "q < 3600" "r = q + 3600 * wHour w" using v by (auto simp: q_def r_def)
  have "r div 3600 = wHour w" "r mod 3600 = q" using q by simp_all
  moreover have "q div 60 = wMinute w" "q mod 60 = wSecond w" using v by (simp_all add: q_def)
  moreover have "r mod 60 = r mod 3600 mod 60" by (simp add: mod_mod_cancel)
  ultimately have h: "r div 3600 = wHour w" "r mod 3600 div 60 = wMinute w" "r mod 60 = wSecond w"
    by simp_all
  have "secs_of_wall w = (n - 719162) * 86400 + r" by (simp add: secs_of_wall_def r_def n_def)
  then have "secs_of_wall w = r + 86400 * (n - 719162)" by simp
  then have "secs_of_wall w div 86400 = n - 719162" "secs_of_wall w mod 86400 = r"
    using r by (simp_all only: div_mult_self2 mod_mult_self2 div_pos_pos_trivial mod_pos_pos_trivial
        zero_neq_numeral not_False_eq_True add_0)
  then have "secs_of_wall w div 86400 + 719162 = n" "secs_of_wall w mod 86400 = r" by simp_all
  moreover have "civil_of_days n = (wYear w, wMonth w, wDay w)"
    using assms unfolding n_def valid_wall_def by (intro civil_of_days_of_civil) auto
  ultimately show ?thesis by (cases w) (simp add: wall_of_secs_def h Let_def)
qed

lemma valid_wall_of_secs: "valid_wall (wall_of_secs t)"
proof -
  obtain y m d where civil: "civil_of_days (t div 86400 + 719162) = (y, m, d)"
    by (metis prod_cases3)
  define r where "r = t mod 86400"
  have "0 \<le> r" "r < 86400" by (simp_all add: r_def)
  then have "0 \<le> r div 3600" "r div 3600 < 24"
    using zdiv_mono1 [of r 86399 3600] by (simp_all add: pos_imp_zdiv_nonneg_iff)
  moreover have "0 \<le> r mod 3600" "r mod 3600 < 3600" by simp_all
  then have "0 \<le> r mod 3600 div 60" "r mod 3600 div 60 < 60"
    using zdiv_mono1 [of "r mod 3600" 3599 60] by (simp_all add: pos_imp_zdiv_nonneg_iff)
  moreover have "0 \<le> r mod 60" "r mod 60 < 60" by simp_all
  ultimately show ?thesis
    using days_of_civil_of_days(2) [OF civil]
    by (simp only: wall_of_secs_def civil valid_wall_def Let_def prod.case wall.simps r_def [symmetric] simp_thms)
qed

end
