(* ===== verification/Sql_Values.thy ===== *)
theory Sql_Values
  imports Go_Time
begin

text \<open>
  The values that cross the \<open>database/sql/driver\<close> interface.  A \<open>float64\<close> is its 64-bit pattern.
  \<open>VOut\<close> is a \<open>sql.Out\<close>, \<open>VOutPtr\<close> a pointer to one, \<open>VPtr\<close> any other pointer (\<open>None\<close> is a
  nil pointer), \<open>VOther\<close> a value of a type the driver has no case for, with its type's name.
\<close>

datatype gval =
    VNil
  | VInt int
  | VFloat u64
  | VBool bool
  | VBytes bytes
  | VString string
  | VTime go_time
  | VOut gval
  | VOutPtr gval
  | VPtr "gval option"
  | VOther string

text \<open>What \<open>%T\<close> prints for a value.\<close>

fun type_name :: "gval \<Rightarrow> string" where
  "type_name VNil = ''<nil>''"
| "type_name (VInt _) = ''int64''"
| "type_name (VFloat _) = ''float64''"
| "type_name (VBool _) = ''bool''"
| "type_name (VBytes _) = ''[]uint8''"
| "type_name (VString _) = ''string''"
| "type_name (VTime _) = ''time.Time''"
| "type_name (VOut _) = ''sql.Out''"
| "type_name (VOutPtr _) = ''*sql.Out''"
| "type_name (VPtr None) = ''*''"
| "type_name (VPtr (Some v)) = CHR ''*'' # type_name v"
| "type_name (VOther t) = t"

record named_value =
  nvName :: string
  nvOrdinal :: int
  nvValue :: gval

text \<open>\<open>params.go\<close>: ordinals start at 1; no arguments give a nil slice.\<close>

definition valuesToNamed :: "gval list \<Rightarrow> named_value list" where
  "valuesToNamed values =
     (if length values = 0 then []
      else map (\<lambda>i. \<lparr>nvName = [], nvOrdinal = int i + 1, nvValue = values ! i\<rparr>) [0..<length values])"

text \<open>\<open>conn.go\<close>: an OUT parameter stands for what its destination points to.\<close>

fun derefValue :: "gval \<Rightarrow> gval" where
  "derefValue (VPtr (Some v)) = derefValue v"
| "derefValue v = v"

fun unwrapOutParam :: "gval \<Rightarrow> gval" where
  "unwrapOutParam (VOut dest) = derefValue dest"
| "unwrapOutParam (VOutPtr dest) = derefValue dest"
| "unwrapOutParam v = v"

text \<open>\<open>CheckNamedValue\<close>: accept OUT parameters, leave everything else to the default converter.\<close>

fun CheckNamedValue :: "gval \<Rightarrow> bool" where
  "CheckNamedValue (VOut _) = True"
| "CheckNamedValue (VOutPtr _) = True"
| "CheckNamedValue _ = False"

text \<open>The range of a Go \<open>int64\<close>.\<close>

definition int64 :: "int \<Rightarrow> bool" where
  "int64 i \<longleftrightarrow> - (2 ^ 63) \<le> i \<and> i < 2 ^ 63"

lemma length_valuesToNamed [simp]: "length (valuesToNamed vs) = length vs"
  by (simp add: valuesToNamed_def)

lemma valuesToNamed_values: "map nvValue (valuesToNamed vs) = vs"
  by (simp add: valuesToNamed_def comp_def map_nth)

end
