(* ===== verification/Session_Timezone.thy ===== *)
theory Session_Timezone
  imports Sql_Values
begin

text \<open>
  \<open>session_timezone.go\<close>, the parts that need no connection: the option values for the tenant mode
  and the session time zone, and the recognition of SQL statements that change the session's time
  zone.  The driver decodes \<open>TIMESTAMP WITH LOCAL TIME ZONE\<close> in the zone it believes the session
  has, so it must see every such statement.
\<close>

subsection \<open>Option values\<close>

definition normalizeOracleMode :: "string \<Rightarrow> string res" where
  "normalizeOracleMode value =
     (let v = ToLower (TrimSpace value)
      in if v = '''' \<or> v = ''auto'' then Ok ''auto''
         else if v = ''true'' \<or> v = ''oracle'' then Ok ''true''
         else if v = ''false'' \<or> v = ''mysql'' then Ok ''false''
         else Err (Errorf ''invalid oracle mode %q: want true, false, or auto'' [AStr value]))"

definition isTwoDigits :: "string \<Rightarrow> bool" where
  "isTwoDigits value \<longleftrightarrow>
     length value = 2 \<and> CHR ''0'' \<le> value ! 0 \<and> value ! 0 \<le> CHR ''9'' \<and>
     CHR ''0'' \<le> value ! 1 \<and> value ! 1 \<le> CHR ''9''"

definition invalid_zone :: "string \<Rightarrow> string \<Rightarrow> 'a res" where
  "invalid_zone format value = Err (Errorf format [AStr value])"

text \<open>The plus-minus sign of the last message is the two bytes \<open>0xC2 0xB1\<close>.\<close>

definition parseSessionTimeZone :: "string \<Rightarrow> (location \<times> string) res" where
  "parseSessionTimeZone value0 =
     (let value = TrimSpace value0
      in if EqualFold value ''utc'' \<or> EqualFold value ''z'' then Ok (UTC, ''+00:00'')
         else if length value = 6 \<and> (value ! 0 = CHR ''+'' \<or> value ! 0 = CHR ''-'') \<and> value ! 3 = CHR '':'' then
           (if \<not> isTwoDigits (subslice 1 3 value) then invalid_zone ''invalid hour in %q'' value
            else case ParseInt (subslice 1 3 value) of
              None \<Rightarrow> invalid_zone ''invalid hour in %q'' value
            | Some hour \<Rightarrow>
                if \<not> isTwoDigits (subslice 4 6 value) then invalid_zone ''invalid minute in %q'' value
                else case ParseInt (subslice 4 6 value) of
                  None \<Rightarrow> invalid_zone ''invalid minute in %q'' value
                | Some minute \<Rightarrow>
                    if minute > 59 then invalid_zone ''invalid minute in %q'' value
                    else if value ! 0 = CHR ''+'' \<and> (hour > 13 \<or> (hour = 13 \<and> minute \<noteq> 0)) then
                      invalid_zone ''session time zone %q is outside OceanBase range'' value
                    else if value ! 0 \<noteq> CHR ''+'' \<and> hour > 12 then
                      invalid_zone ''session time zone %q is outside OceanBase range'' value
                    else
                      let offset = hour * 60 * 60 + minute * 60;
                          offset = (if value ! 0 = CHR ''-'' then - offset else offset);
                          canonical = [value ! 0] @ pad_dec 2 (nat hour) @ '':'' @ pad_dec 2 (nat minute)
                      in Ok (FixedZone (''UTC'' @ canonical) offset, canonical))
         else if value = ''Local'' \<or> ContainsAny value ([SQ, BSL, DQ] @ '';'' @ [CHR 0x0D, NL]) \<or> Contains value ''..'' then
           invalid_zone ''invalid session time zone region %q'' value
         else
           invalid_zone (''expected UTC or a fixed offset '' @ [CHR 0xC2, CHR 0xB1] @
             ''HH:MM; IANA regions are unsupported for deterministic Oracle timestamp decoding, got %q'') value)"

text \<open>The flag is \<open>enabled\<close>; without it the location is UTC and the session is left alone.\<close>

definition resolveSessionTimeZone :: "string \<Rightarrow> string \<Rightarrow> (location \<times> string \<times> bool) res" where
  "resolveSessionTimeZone tenantMode value =
     (if tenantMode \<noteq> ''oracle'' then Ok (UTC, [], False)
      else
        bind_res (parseSessionTimeZone (if TrimSpace value = [] then ''UTC'' else value))
          (\<lambda>(l, canonical). Ok (l, canonical, True)))"

definition sessionTimeZoneSQL :: "string \<Rightarrow> string" where
  "sessionTimeZoneSQL canonical = ''ALTER SESSION SET TIME_ZONE = '' @ [SQ] @ canonical @ [SQ]"

subsection \<open>Comments\<close>

definition isSQLSpace :: "char \<Rightarrow> bool" where
  "isSQLSpace ch \<longleftrightarrow>
     ch = CHR '' '' \<or> ch = CHR 0x09 \<or> ch = CHR 0x0D \<or> ch = NL \<or> ch = CHR 0x0C \<or> ch = CHR 0x0B"

text \<open>
  The loop behind \<open>/*\<close>: it looks for the closing pair among the positions that have a successor,
  so that an unterminated comment leaves its last character to the main loop.
\<close>

fun skip_block :: "string \<Rightarrow> string" where
  "skip_block (a # b # rest) =
     (if a = CHR ''*'' \<and> b = CHR ''/'' then rest else skip_block (b # rest))"
| "skip_block rest = rest"

definition skip_line :: "string \<Rightarrow> string" where
  "skip_line s = dropWhile (\<lambda>c. c \<noteq> NL) s"

lemma length_skip_block: "length (skip_block s) \<le> length s"
  by (induction s rule: skip_block.induct) auto

lemma length_skip_line: "length (skip_line s) \<le> length s"
  by (simp add: skip_line_def length_dropWhile_le)

function strip_loop :: "bool \<Rightarrow> bool \<Rightarrow> string \<Rightarrow> string" where
  "strip_loop inSingleQuote inDoubleQuote [] = []"
| "strip_loop inSingleQuote inDoubleQuote (ch # rest) =
     (if inSingleQuote then
        (if ch = SQ then
           (if rest \<noteq> [] \<and> hd rest = SQ then ch # hd rest # strip_loop inSingleQuote inDoubleQuote (tl rest)
            else ch # strip_loop False inDoubleQuote rest)
         else ch # strip_loop inSingleQuote inDoubleQuote rest)
      else if inDoubleQuote then
        (if ch = DQ then
           (if rest \<noteq> [] \<and> hd rest = DQ then ch # hd rest # strip_loop inSingleQuote inDoubleQuote (tl rest)
            else ch # strip_loop inSingleQuote False rest)
         else ch # strip_loop inSingleQuote inDoubleQuote rest)
      else if ch = SQ then ch # strip_loop True inDoubleQuote rest
      else if ch = DQ then ch # strip_loop inSingleQuote True rest
      else if ch = CHR ''/'' \<and> rest \<noteq> [] \<and> hd rest = CHR ''*'' then
        CHR '' '' # strip_loop inSingleQuote inDoubleQuote (skip_block (tl rest))
      else if ch = CHR ''-'' \<and> rest \<noteq> [] \<and> hd rest = CHR ''-'' \<and> (tl rest = [] \<or> isSQLSpace (hd (tl rest))) then
        CHR '' '' # strip_loop inSingleQuote inDoubleQuote (skip_line (tl rest))
      else if ch = CHR ''#'' then CHR '' '' # strip_loop inSingleQuote inDoubleQuote (skip_line rest)
      else ch # strip_loop inSingleQuote inDoubleQuote rest)"
  by pat_completeness auto
termination
  by (relation "measure (\<lambda>(a, b, s). length s)")
    (auto simp: less_Suc_eq_le intro: le_trans [OF length_skip_block] le_trans [OF length_skip_line])

declare strip_loop.simps(2) [simp del]

definition stripSQLComments :: "string \<Rightarrow> string" where
  "stripSQLComments query = strip_loop False False query"

subsection \<open>Statements that set the time zone\<close>

definition zone_prefixes :: "string list" where
  "zone_prefixes =
     [''ALTER SESSION SET TIME_ZONE'', ''ALTER SYSTEM SESSION SET TIME_ZONE'', ''SET TIME_ZONE'',
      ''SET SESSION TIME_ZONE'', ''SET @@TIME_ZONE'', ''SET @@SESSION.TIME_ZONE'']"

text \<open>
  The loop over a quoted value behind its opening quote: the characters before the closing quote,
  doubled quotes included, and what follows it.
\<close>

fun scan_quoted :: "char \<Rightarrow> string \<Rightarrow> (string \<times> string) option" where
  "scan_quoted q [] = None"
| "scan_quoted q (c # rest) =
     (if c \<noteq> q then map_option (\<lambda>(raw, after). (c # raw, after)) (scan_quoted q rest)
      else case rest of
        [] \<Rightarrow> Some ([], [])
      | c2 # rest2 \<Rightarrow>
          if c2 = q then map_option (\<lambda>(raw, after). (c # c2 # raw, after)) (scan_quoted q rest2)
          else Some ([], rest))"

text \<open>\<open>strings.ReplaceAll(s, qq, q)\<close>.\<close>

fun undouble :: "char \<Rightarrow> string \<Rightarrow> string" where
  "undouble q (a # b # rest) =
     (if a = q \<and> b = q then q # undouble q rest else a # undouble q (b # rest))"
| "undouble q s = s"

text \<open>The value assigned and whether it is a placeholder; \<open>None\<close> when \<open>ok\<close> is false.\<close>

definition sessionTimeZoneAssignmentFromQuery :: "string \<Rightarrow> (string \<times> bool) option" where
  "sessionTimeZoneAssignmentFromQuery query0 =
     (let query = TrimSpace (stripSQLComments query0);
          query = TrimSpace (TrimSuffix query '';'')
      in case IndexByte query (CHR ''='') of
           None \<Rightarrow> None
         | Some eq \<Rightarrow>
             let lhs = ToUpper (Join (Fields (take eq query)) '' '')
             in if eq = 0 then None
                else if lhs \<notin> set zone_prefixes then None
                else
                  let rest = TrimSpace (drop (eq + 1) query)
                  in if rest = ''?'' then Some (rest, True)
                     else if 2 \<le> length rest \<and> (rest ! 0 = SQ \<or> rest ! 0 = DQ) then
                       (case scan_quoted (rest ! 0) (tl rest) of
                          None \<Rightarrow> None
                        | Some (raw, after) \<Rightarrow>
                            if TrimSpace after \<noteq> [] then None
                            else Some (undouble (rest ! 0) raw, False))
                     else if rest = [] \<or> ContainsAny rest (CHR '' '' # [CHR 0x09, CHR 0x0D, NL]) then None
                     else Some (rest, False))"

definition sessionTimeZoneValueFromQuery :: "string \<Rightarrow> string option" where
  "sessionTimeZoneValueFromQuery query = map_option fst (sessionTimeZoneAssignmentFromQuery query)"

definition isSessionTimeZoneMutation :: "string \<Rightarrow> bool" where
  "isSessionTimeZoneMutation query =
     (let normalized = ToUpper (Join (Fields (stripSQLComments query)) '' '')
      in list_ex (\<lambda>prefix. normalized = prefix \<or> HasPrefix normalized (prefix @ '' '') \<or>
           HasPrefix normalized (prefix @ ''='')) zone_prefixes)"

definition sessionTimeZoneValueFromArgs :: "named_value list \<Rightarrow> string res" where
  "sessionTimeZoneValueFromArgs args =
     (if length args \<noteq> 1 then
        Err (Errorf ''session time zone placeholder requires exactly one argument, got %d'' [AInt (int (length args))])
      else case nvValue (args ! 0) of
        VString value \<Rightarrow> Ok value
      | VBytes value \<Rightarrow> Ok (string_of value)
      | v \<Rightarrow> Err (Errorf ''session time zone argument has unsupported type %T'' [AStr (type_name v)]))"

subsection \<open>Offsets\<close>

lemma digit_char_inverse:
  assumes "is_digit c"
  shows "digit_val c < 10" and "digit_char (digit_val c) = c"
proof -
  have b: "48 \<le> (of_char c :: nat)" "(of_char c :: nat) \<le> 57"
    using assms by (simp_all add: is_digit_def less_eq_char_def)
  then show "digit_val c < 10" by (simp add: digit_val_def)
  show "digit_char (digit_val c) = c" using b by (simp add: digit_char_def digit_val_def)
qed

lemma isTwoDigits_cases:
  assumes "isTwoDigits s"
  obtains a b where "a < 10" and "b < 10" and "s = [digit_char a, digit_char b]"
proof -
  from assms obtain x y where s: "s = [x, y]" and "is_digit x" and "is_digit y"
    by (auto simp: isTwoDigits_def is_digit_def numeral_2_eq_2 length_Suc_conv)
  then show ?thesis
    using that [of "digit_val x" "digit_val y"] digit_char_inverse by simp
qed

lemma two_digits:
  assumes "a < 10" and "b < 10"
  shows "isTwoDigits [digit_char a, digit_char b]" and "ParseInt [digit_char a, digit_char b] = Some (10 * int a + int b)"
proof -
  have d: "is_digit (digit_char a)" "is_digit (digit_char b)" "digit_val (digit_char a) = a" "digit_val (digit_char b) = b"
    using assms digit_char_val by auto
  then show "isTwoDigits [digit_char a, digit_char b]" by (simp add: isTwoDigits_def is_digit_def)
  have "all_digits [digit_char a, digit_char b]" using d by (simp add: all_digits_def)
  with hd_digit [OF this] d assms show "ParseInt [digit_char a, digit_char b] = Some (10 * int a + int b)"
    by (simp add: ParseInt_def Let_def dec_val_def)
qed

text \<open>The canonical offset of a sign, an hour and a minute.\<close>

definition offset_text :: "char \<Rightarrow> nat \<Rightarrow> nat \<Rightarrow> string" where
  "offset_text sign h m = [sign] @ pad_dec 2 h @ '':'' @ pad_dec 2 m"

definition zone_in_range :: "char \<Rightarrow> nat \<Rightarrow> nat \<Rightarrow> bool" where
  "zone_in_range sign h m \<longleftrightarrow>
     m < 60 \<and> (sign = CHR ''+'' \<and> (h < 13 \<or> h = 13 \<and> m = 0) \<or> sign = CHR ''-'' \<and> h < 13)"

definition zone_seconds :: "char \<Rightarrow> nat \<Rightarrow> nat \<Rightarrow> int" where
  "zone_seconds sign h m = (if sign = CHR ''-'' then - 1 else 1) * (int h * 3600 + int m * 60)"

lemma digit_not_space: "d < 10 \<Longrightarrow> \<not> is_space (digit_char d)"
  using digit_char_val(2) [of d] by (auto simp: is_space_def is_digit_def less_eq_char_def)

lemma offset_text_chars:
  assumes "zone_in_range sign h m"
  shows "offset_text sign h m =
    [sign, digit_char (h div 10), digit_char (h mod 10), CHR '':'', digit_char (m div 10), digit_char (m mod 10)]"
  using assms by (auto simp: offset_text_def zone_in_range_def pad_dec_2)

lemma offset_text_digits:
  assumes "zone_in_range sign h m"
  shows "\<forall>d \<in> {h div 10, h mod 10, m div 10, m mod 10}. d < 10"
  using assms by (auto simp: zone_in_range_def)

lemma six_chars:
  "subslice 1 3 [a, b, c, d, e, f] = [b, c]" "subslice 4 6 [a, b, c, d, e, f] = [e, f]"
  "[a, b, c, d, e, f] ! 3 = d" "length [a, b, c, d, e, f] = 6"
  by (simp_all add: subslice_def eval_nat_numeral)

lemma TrimSpace_offset_text:
  assumes "zone_in_range sign h m"
  shows "TrimSpace (offset_text sign h m) = offset_text sign h m"
proof -
  have "\<not> is_space (digit_char (m mod 10))" by (simp add: digit_not_space)
  moreover have "\<not> is_space sign" using assms by (auto simp: is_space_def zone_in_range_def)
  ultimately show ?thesis by (simp add: offset_text_chars [OF assms] TrimSpace_def)
qed

lemma parse_offset_text:
  assumes "zone_in_range sign h m"
  shows "parseSessionTimeZone (offset_text sign h m) =
    Ok (FixedZone (''UTC'' @ offset_text sign h m) (zone_seconds sign h m), offset_text sign h m)"
proof -
  note d = offset_text_digits [OF assms]
  have sign: "sign = CHR ''+'' \<or> sign = CHR ''-''" using assms by (auto simp: zone_in_range_def)
  note trim = TrimSpace_offset_text [OF assms]
  have fold: "\<not> EqualFold (offset_text sign h m) ''utc''" "\<not> EqualFold (offset_text sign h m) ''z''"
    by (simp_all add: offset_text_chars [OF assms] EqualFold_def ToLower_def)
  have parts: "subslice 1 3 (offset_text sign h m) = [digit_char (h div 10), digit_char (h mod 10)]"
    "subslice 4 6 (offset_text sign h m) = [digit_char (m div 10), digit_char (m mod 10)]"
    "offset_text sign h m ! 0 = sign" "offset_text sign h m ! 3 = CHR '':''" "length (offset_text sign h m) = 6"
    by (simp_all add: offset_text_chars [OF assms] six_chars del: One_nat_def)
  have nums: "10 * int (h div 10) + int (h mod 10) = int h" "10 * int (m div 10) + int (m mod 10) = int m"
    by (simp_all add: of_nat_div of_nat_mod)
  have range: "int m \<le> 59" "sign = CHR ''+'' \<Longrightarrow> int h < 13 \<or> int h = 13 \<and> int m = 0" "sign = CHR ''-'' \<Longrightarrow> int h < 13"
    using assms by (auto simp: zone_in_range_def)
  have digits: "h div 10 < 10" "h mod 10 < 10" "m div 10 < 10" "m mod 10 < 10" using d by auto
  from sign show ?thesis
  proof
    assume s: "sign = CHR ''+''"
    with range show ?thesis
      unfolding parseSessionTimeZone_def Let_def trim parts
      by (simp add: fold [unfolded s] two_digits [OF digits(1,2)] two_digits [OF digits(3,4)] nums s zone_seconds_def,
          auto simp: offset_text_def mult.commute)
  next
    assume s: "sign = CHR ''-''"
    with range show ?thesis
      unfolding parseSessionTimeZone_def Let_def trim parts
      by (simp add: fold [unfolded s] two_digits [OF digits(1,2)] two_digits [OF digits(3,4)] nums s zone_seconds_def,
          auto simp: offset_text_def mult.commute)
  qed
qed

lemma six_chars_of:
  assumes "length u = 6" and "u ! 3 = CHR '':''" and "subslice 1 3 u = [digit_char a, digit_char b]"
    and "subslice 4 6 u = [digit_char x, digit_char y]" and "a < 10" "b < 10" "x < 10" "y < 10"
  shows "u = offset_text (u ! 0) (10 * a + b) (10 * x + y)"
proof -
  from assms(1) obtain c0 c1 c2 c3 c4 c5 where u: "u = [c0, c1, c2, c3, c4, c5]"
    by (auto simp: eval_nat_numeral length_Suc_conv)
  have "(10 * a + b) div 10 = a" "(10 * a + b) mod 10 = b" "(10 * x + y) div 10 = x" "(10 * x + y) mod 10 = y"
    using assms by simp_all
  moreover have "10 * a + b < 100" "10 * x + y < 100" using assms by simp_all
  ultimately show ?thesis
    using assms(2-4) by (simp add: u six_chars offset_text_def pad_dec_2 del: One_nat_def)
qed

text \<open>The text is taken apart into a sign, two digits of hours and two of minutes, or it is UTC.\<close>

lemma parseSessionTimeZone_cases:
  assumes "parseSessionTimeZone v = Ok (l, c)"
  obtains (utc) "EqualFold (TrimSpace v) ''utc'' \<or> EqualFold (TrimSpace v) ''z''" and "l = UTC" and "c = ''+00:00''"
  | (offset) sign h m where "zone_in_range sign h m" and "TrimSpace v = offset_text sign h m"
    and "c = offset_text sign h m" and "l = FixedZone (''UTC'' @ c) (zone_seconds sign h m)"
proof (cases "EqualFold (TrimSpace v) ''utc'' \<or> EqualFold (TrimSpace v) ''z''")
  case True
  with assms utc show ?thesis by (simp add: parseSessionTimeZone_def Let_def)
next
  case False
  define u where "u = TrimSpace v"
  from assms False have two: "isTwoDigits (subslice 1 3 u)" "isTwoDigits (subslice 4 6 u)"
    and sign: "u ! 0 = CHR ''+'' \<or> u ! 0 = CHR ''-''" and six: "length u = 6" "u ! 3 = CHR '':''"
    by (auto simp: parseSessionTimeZone_def Let_def u_def invalid_zone_def split: if_splits option.splits)
  from isTwoDigits_cases [OF two(1)] obtain a b where ab: "a < 10" "b < 10" "subslice 1 3 u = [digit_char a, digit_char b]"
    by metis
  from isTwoDigits_cases [OF two(2)] obtain x y where xy: "x < 10" "y < 10" "subslice 4 6 u = [digit_char x, digit_char y]"
    by metis
  let ?h = "10 * a + b" and ?m = "10 * x + y"
  have "zone_in_range (u ! 0) ?h ?m \<and> c = offset_text (u ! 0) ?h ?m \<and>
    l = FixedZone (''UTC'' @ c) (zone_seconds (u ! 0) ?h ?m)"
    using assms False sign ab xy
    by (simp add: parseSessionTimeZone_def Let_def u_def [symmetric] two_digits invalid_zone_def zone_in_range_def
          offset_text_def zone_seconds_def nat_add_distrib nat_mult_distrib split: if_splits;
        auto simp: mult.commute)
  moreover have "TrimSpace v = offset_text (u ! 0) ?h ?m"
    unfolding u_def [symmetric] by (rule six_chars_of [OF six ab(3) xy(3) ab(1,2) xy(1,2)])
  ultimately show ?thesis using offset [of "u ! 0" ?h ?m] by blast
qed

lemma utc_offset_text: "offset_text (CHR ''+'') 0 0 = ''+00:00''"
  by (simp add: offset_text_def pad_dec_2 digit_char_0)

lemma parseSessionTimeZone_canonical:
  assumes "parseSessionTimeZone v = Ok (l, c)"
  obtains sign h m where "zone_in_range sign h m" and "c = offset_text sign h m"
    and "transitions l = []" and "baseOffset l = zone_seconds sign h m"
  using assms
proof (cases rule: parseSessionTimeZone_cases)
  case utc
  then show ?thesis
    using that [of "CHR ''+''" 0 0] by (simp add: zone_in_range_def zone_seconds_def UTC_def utc_offset_text)
next
  case (offset sign h m)
  then show ?thesis using that [of sign h m] by (simp add: FixedZone_def)
qed

subsection \<open>The driver's own statement\<close>

lemma strip_plain:
  assumes "list_all (\<lambda>c. c \<notin> {SQ, DQ, CHR ''/'', CHR ''-'', CHR ''#''}) xs"
  shows "strip_loop False False (xs @ SQ # ys) = xs @ SQ # strip_loop True False ys"
  using assms by (induction xs) (auto simp: strip_loop.simps(2))

lemma strip_quoted:
  "SQ \<notin> set ys \<Longrightarrow> strip_loop True False (ys @ [SQ]) = ys @ [SQ]"
  by (induction ys) (auto simp: strip_loop.simps(2))

lemma scan_quoted_plain: "q \<notin> set ys \<Longrightarrow> scan_quoted q (ys @ [q]) = Some (ys, [])"
  by (induction ys) auto

lemma undouble_plain: "q \<notin> set ys \<Longrightarrow> undouble q ys = ys"
  by (induction q ys rule: undouble.induct) auto

definition alter_session :: string where
  "alter_session = ''ALTER SESSION SET TIME_ZONE ''"

lemma alter_session_facts:
  "list_all (\<lambda>c. c \<notin> {SQ, DQ, CHR ''/'', CHR ''-'', CHR ''#''}) (alter_session @ ''= '')"
  "ToUpper (Join (Fields alter_session) '' '') \<in> set zone_prefixes"
  "IndexByte (alter_session @ CHR ''='' # rest) (CHR ''='') = Some 28"
  "length alter_session = 28"
proof -
  show "ToUpper (Join (Fields alter_session) '' '') \<in> set zone_prefixes" by code_simp
qed (simp_all add: alter_session_def quote_chars)

lemma assignment_of_own_statement:
  assumes "SQ \<notin> set c" and "c \<noteq> []"
  shows "sessionTimeZoneAssignmentFromQuery (sessionTimeZoneSQL c) = Some (c, False)"
proof -
  let ?q = "alter_session @ CHR ''='' # CHR '' '' # SQ # c @ [SQ]"
  have q: "sessionTimeZoneSQL c = ?q" by (simp add: sessionTimeZoneSQL_def alter_session_def)
  have strip: "stripSQLComments ?q = ?q"
    using strip_plain [OF alter_session_facts(1), of "c @ [SQ]"] strip_quoted [OF assms(1)]
    by (simp add: stripSQLComments_def)
  have trim: "TrimSpace ?q = ?q" "TrimSpace (CHR '' '' # SQ # c @ [SQ]) = SQ # c @ [SQ]"
    by (simp_all add: TrimSpace_def alter_session_def is_space_def SQ_def)
  have suffix: "TrimSuffix ?q '';'' = ?q"
    by (simp add: TrimSuffix_def HasPrefix_def SQ_def)
  have "SQ # c @ [SQ] \<noteq> ''?''" by simp
  then show ?thesis
    using scan_quoted_plain [OF assms(1)] undouble_plain [OF assms(1)] alter_session_facts(2)
    by (simp add: sessionTimeZoneAssignmentFromQuery_def Let_def q strip trim suffix alter_session_facts(3,4) TrimSpace_def [of "[]"])
qed

lemma digit_not_quote: "d < 10 \<Longrightarrow> digit_char d \<noteq> SQ"
  using digit_char_val(2) [of d] by (auto simp: SQ_def is_digit_def less_eq_char_def)

lemma offset_text_no_quote:
  assumes "zone_in_range sign h m"
  shows "SQ \<notin> set (offset_text sign h m) \<and> offset_text sign h m \<noteq> []"
proof -
  have "sign = CHR ''+'' \<or> sign = CHR ''-''" using assms by (auto simp: zone_in_range_def)
  then have "sign \<noteq> SQ" by (auto simp: SQ_def)
  moreover have "CHR '':'' \<noteq> SQ" by (simp add: SQ_def)
  moreover have "\<forall>d \<in> {h div 10, h mod 10, m div 10, m mod 10}. digit_char d \<noteq> SQ"
    using offset_text_digits [OF assms] digit_not_quote by blast
  ultimately show ?thesis
    unfolding offset_text_chars [OF assms] by (metis insert_iff list.distinct(1) list.set(1) list.simps(15) empty_iff)
qed

text \<open>
  C33: What the option accepts as a session time zone: \<open>utc\<close> or \<open>z\<close> in any case, or a sign, two
  digits of hours, a colon and two digits of minutes between -12:59 and +13:00, white space around
  it aside.  The location is the fixed offset of exactly that many hours and minutes, east of UTC
  for a plus sign and west of it for a minus sign, and the canonical text is the text given; every
  other value is refused.  The offset is therefore in whole minutes from -46740 to 46800 seconds.
\<close>

theorem session_zone_bounds:
  "(parseSessionTimeZone v = Ok (l, c) \<longleftrightarrow>
     (EqualFold (TrimSpace v) ''utc'' \<or> EqualFold (TrimSpace v) ''z'') \<and> l = UTC \<and> c = ''+00:00'' \<or>
     (\<exists>sign h m. zone_in_range sign h m \<and>
        TrimSpace v = [sign] @ pad_dec 2 h @ '':'' @ pad_dec 2 m \<and> c = TrimSpace v \<and>
        l = FixedZone (''UTC'' @ c) ((if sign = CHR ''-'' then - 1 else 1) * (int h * 3600 + int m * 60)))) \<and>
   (parseSessionTimeZone v = Ok (l, c) \<longrightarrow>
     transitions l = [] \<and> - 46740 \<le> baseOffset l \<and> baseOffset l \<le> 46800 \<and> baseOffset l mod 60 = 0)"
proof (intro conjI impI)
  show "parseSessionTimeZone v = Ok (l, c) \<longleftrightarrow>
     (EqualFold (TrimSpace v) ''utc'' \<or> EqualFold (TrimSpace v) ''z'') \<and> l = UTC \<and> c = ''+00:00'' \<or>
     (\<exists>sign h m. zone_in_range sign h m \<and>
        TrimSpace v = [sign] @ pad_dec 2 h @ '':'' @ pad_dec 2 m \<and> c = TrimSpace v \<and>
        l = FixedZone (''UTC'' @ c) ((if sign = CHR ''-'' then - 1 else 1) * (int h * 3600 + int m * 60)))"
    (is "?ok \<longleftrightarrow> ?utc \<or> ?offset")
  proof
    assume ?ok
    then show "?utc \<or> ?offset"
      by (cases rule: parseSessionTimeZone_cases) (auto simp: offset_text_def zone_seconds_def)
  next
    assume "?utc \<or> ?offset"
    then show ?ok
    proof
      assume ?utc
      then show ?ok by (simp add: parseSessionTimeZone_def Let_def)
    next
      assume ?offset
      then obtain sign h m where r: "zone_in_range sign h m" and v: "TrimSpace v = offset_text sign h m"
        and c: "c = offset_text sign h m" and l: "l = FixedZone (''UTC'' @ c) (zone_seconds sign h m)"
        by (auto simp: offset_text_def zone_seconds_def)
      have "parseSessionTimeZone v = parseSessionTimeZone (offset_text sign h m)"
        by (simp only: parseSessionTimeZone_def v TrimSpace_offset_text [OF r])
      with parse_offset_text [OF r] show ?ok by (simp add: c l)
    qed
  qed
next
  assume "parseSessionTimeZone v = Ok (l, c)"
  then obtain sign h m where r: "zone_in_range sign h m"
    and l: "transitions l = []" "baseOffset l = zone_seconds sign h m"
    by (rule parseSessionTimeZone_canonical)
  have "zone_seconds sign h m = 60 * ((if sign = CHR ''-'' then - 1 else 1) * (int h * 60 + int m))"
    by (simp add: zone_seconds_def)
  then show "baseOffset l mod 60 = 0" by (simp add: l)
  show "- 46740 \<le> baseOffset l" "baseOffset l \<le> 46800" "transitions l = []"
    using r by (auto simp: l zone_seconds_def zone_in_range_def)
qed

theorem session_zone_bounds_witness:
  "parseSessionTimeZone '' -08:00'' = Ok (FixedZone ''UTC-08:00'' (- 28800), ''-08:00'') \<and>
   - 46740 \<le> baseOffset (FixedZone ''UTC-08:00'' (- 28800))"
proof -
  have "parseSessionTimeZone '' -08:00'' = Ok (FixedZone ''UTC-08:00'' (- 28800), ''-08:00'')" by code_simp
  with session_zone_bounds [of "'' -08:00''" "FixedZone ''UTC-08:00'' (- 28800)" "''-08:00''"]
  show ?thesis by simp
qed

text \<open>
  C34: The statement the driver sends to set the session time zone is one it recognises itself: the
  assignment found in it is the canonical offset, and parsing that gives the same offset and
  canonical form again, so tracking the driver's own statement leaves the decoding zone right.
\<close>

theorem session_zone_statement_tracked:
  assumes "parseSessionTimeZone v = Ok (l, c)"
  shows "sessionTimeZoneAssignmentFromQuery (sessionTimeZoneSQL c) = Some (c, False) \<and>
    (\<exists>l'. parseSessionTimeZone c = Ok (l', c) \<and> baseOffset l' = baseOffset l \<and> transitions l' = transitions l)"
proof -
  from assms obtain sign h m where r: "zone_in_range sign h m" and c: "c = offset_text sign h m"
    and l: "transitions l = []" "baseOffset l = zone_seconds sign h m"
    by (rule parseSessionTimeZone_canonical)
  show ?thesis
    using assignment_of_own_statement offset_text_no_quote [OF r] parse_offset_text [OF r]
    by (simp add: c l FixedZone_def)
qed

theorem session_zone_statement_tracked_witness:
  "sessionTimeZoneAssignmentFromQuery (sessionTimeZoneSQL ''+00:00'') = Some (''+00:00'', False)"
  using session_zone_statement_tracked [of "''utc''" UTC "''+00:00''"]
  by (simp add: parseSessionTimeZone_def EqualFold_def TrimSpace_def is_space_def)

end
