(* ===== verification/Column_Types.thy ===== *)
theory Column_Types
  imports OB_Prelude
begin

text \<open>
  \<open>internal/protocol/constants.go\<close>: capability bits of client, server and OceanBase, command bytes, packet
  markers, status flags and column types.
\<close>

subsection \<open>Client capabilities\<close>

definition ClientLongPassword :: u32 where "ClientLongPassword = push_bit 0 1"
definition ClientFoundRows :: u32 where "ClientFoundRows = push_bit 1 1"
definition ClientLongFlag :: u32 where "ClientLongFlag = push_bit 2 1"
definition ClientConnectWithDB :: u32 where "ClientConnectWithDB = push_bit 3 1"
definition ClientNoSchema :: u32 where "ClientNoSchema = push_bit 4 1"
definition ClientCompress :: u32 where "ClientCompress = push_bit 5 1"
definition ClientODBC :: u32 where "ClientODBC = push_bit 6 1"
definition ClientLocalFiles :: u32 where "ClientLocalFiles = push_bit 7 1"
definition ClientIgnoreSpace :: u32 where "ClientIgnoreSpace = push_bit 8 1"
definition ClientProtocol41 :: u32 where "ClientProtocol41 = push_bit 9 1"
definition ClientInteractive :: u32 where "ClientInteractive = push_bit 10 1"
definition ClientSSL :: u32 where "ClientSSL = push_bit 11 1"
definition ClientIgnoreSigpipe :: u32 where "ClientIgnoreSigpipe = push_bit 12 1"
definition ClientTransactions :: u32 where "ClientTransactions = push_bit 13 1"
definition ClientReserved :: u32 where "ClientReserved = push_bit 14 1"
definition ClientSecureConnection :: u32 where "ClientSecureConnection = push_bit 15 1"
definition ClientMultiStatements :: u32 where "ClientMultiStatements = push_bit 16 1"
definition ClientMultiResults :: u32 where "ClientMultiResults = push_bit 17 1"
definition ClientPSMultiResults :: u32 where "ClientPSMultiResults = push_bit 18 1"
definition ClientPluginAuth :: u32 where "ClientPluginAuth = push_bit 19 1"
definition ClientConnectAttrs :: u32 where "ClientConnectAttrs = push_bit 20 1"
definition ClientPluginAuthLenencClientData :: u32 where
  "ClientPluginAuthLenencClientData = push_bit 21 1"
definition ClientCanHandleExpiredPasswords :: u32 where
  "ClientCanHandleExpiredPasswords = push_bit 22 1"
definition ClientSessionTrack :: u32 where "ClientSessionTrack = push_bit 23 1"
definition ClientDeprecateEOF :: u32 where "ClientDeprecateEOF = push_bit 24 1"
definition ClientSupportOracleMode :: u32 where "ClientSupportOracleMode = push_bit 27 1"
definition ClientReturnHiddenRowID :: u32 where "ClientReturnHiddenRowID = push_bit 28 1"
definition ClientUseLOBLocator :: u32 where "ClientUseLOBLocator = push_bit 29 1"

definition OBCapPartitionTable :: u64 where "OBCapPartitionTable = push_bit 0 1"
definition OBCapChangeUser :: u64 where "OBCapChangeUser = push_bit 1 1"
definition OBCapReadWeak :: u64 where "OBCapReadWeak = push_bit 2 1"
definition OBCapChecksum :: u64 where "OBCapChecksum = push_bit 3 1"
definition OBCapSafeWeakRead :: u64 where "OBCapSafeWeakRead = push_bit 4 1"
definition OBCapPriorityHit :: u64 where "OBCapPriorityHit = push_bit 5 1"
definition OBCapChecksumSwitch :: u64 where "OBCapChecksumSwitch = push_bit 6 1"
definition OBCapOcjEnableExtraOkPacket :: u64 where "OBCapOcjEnableExtraOkPacket = push_bit 7 1"
definition OBCapOBProtocolV2 :: u64 where "OBCapOBProtocolV2 = push_bit 8 1"
definition OBCapExtraOkPacketForStatistics :: u64 where "OBCapExtraOkPacketForStatistics = push_bit 9 1"
definition OBCapAbundantFeedback :: u64 where "OBCapAbundantFeedback = push_bit 10 1"
definition OBCapPLRoute :: u64 where "OBCapPLRoute = push_bit 11 1"
definition OBCapProxyReroute :: u64 where "OBCapProxyReroute = push_bit 12 1"
definition OBCapProxySessionSync :: u64 where "OBCapProxySessionSync = push_bit 13 1"
definition OBCapFullLinkTrace :: u64 where "OBCapFullLinkTrace = push_bit 14 1"
definition OBCapNewExtraInfo :: u64 where "OBCapNewExtraInfo = push_bit 15 1"
definition OBCapProxySessionVarSync :: u64 where "OBCapProxySessionVarSync = push_bit 16 1"
definition OBCapProxyWeakStaleFeedback :: u64 where "OBCapProxyWeakStaleFeedback = push_bit 17 1"
definition OBCapFullLinkTraceShowTrace :: u64 where "OBCapFullLinkTraceShowTrace = push_bit 18 1"
definition OBCapLocalFiles :: u64 where "OBCapLocalFiles = push_bit 20 1"
definition OBClientCapLobLocatorV2 :: u64 where "OBClientCapLobLocatorV2 = push_bit 0 1"
definition OBCapUseNewResultsetMetadata :: u64 where "OBCapUseNewResultsetMetadata = push_bit 2 1"

lemmas ob_caps = OBCapOBProtocolV2_def OBCapPartitionTable_def OBCapChangeUser_def OBCapReadWeak_def
  OBCapChecksum_def OBCapSafeWeakRead_def OBCapPriorityHit_def OBCapChecksumSwitch_def
  OBCapOcjEnableExtraOkPacket_def OBCapExtraOkPacketForStatistics_def OBCapAbundantFeedback_def
  OBCapPLRoute_def OBCapProxyReroute_def OBCapProxySessionSync_def OBCapFullLinkTrace_def
  OBCapNewExtraInfo_def OBCapProxySessionVarSync_def OBCapProxyWeakStaleFeedback_def
  OBCapFullLinkTraceShowTrace_def OBCapLocalFiles_def OBClientCapLobLocatorV2_def
  OBCapUseNewResultsetMetadata_def

definition DefaultCollationUTF8MB4GeneralCI :: byte where "DefaultCollationUTF8MB4GeneralCI = 45"
definition DefaultCollationUTF8MB4Bin :: byte where "DefaultCollationUTF8MB4Bin = 46"

definition DefaultMaxPacketSize :: u32 where "DefaultMaxPacketSize = push_bit 24 1"

lemmas client_caps = ClientLongPassword_def ClientLongFlag_def ClientConnectWithDB_def
  ClientCompress_def ClientLocalFiles_def ClientProtocol41_def ClientInteractive_def ClientSSL_def
  ClientTransactions_def ClientSecureConnection_def ClientMultiStatements_def ClientMultiResults_def
  ClientPSMultiResults_def ClientPluginAuth_def ClientConnectAttrs_def
  ClientPluginAuthLenencClientData_def ClientCanHandleExpiredPasswords_def ClientSessionTrack_def
  ClientDeprecateEOF_def ClientSupportOracleMode_def ClientFoundRows_def ClientNoSchema_def
  ClientODBC_def ClientIgnoreSpace_def ClientIgnoreSigpipe_def ClientReserved_def
  ClientReturnHiddenRowID_def ClientUseLOBLocator_def

subsection \<open>Commands, packet markers and status flags\<close>

definition ComQuit :: byte where "ComQuit = 0x01"
definition ComQuery :: byte where "ComQuery = 0x03"
definition ComStmtPrepare :: byte where "ComStmtPrepare = 0x16"
definition ComStmtExecute :: byte where "ComStmtExecute = 0x17"
definition ComStmtClose :: byte where "ComStmtClose = 0x19"
definition ComStmtReset :: byte where "ComStmtReset = 0x1a"
definition ComStmtBulkExecute :: byte where "ComStmtBulkExecute = 0xfa"
definition ComPing :: byte where "ComPing = 0x0e"
definition OKPacket :: byte where "OKPacket = 0x00"
definition ErrPacket :: byte where "ErrPacket = 0xff"
definition EOFPacket :: byte where "EOFPacket = 0xfe"
definition NullColumn :: byte where "NullColumn = 0xfb"

lemmas packet_bytes = OKPacket_def ErrPacket_def EOFPacket_def NullColumn_def

definition ServerSessionStateChanged :: u16 where "ServerSessionStateChanged = 0x4000"
definition ServerPSOutParams :: u16 where "ServerPSOutParams = 0x1000"
definition ServerMoreResultsExists :: u16 where "ServerMoreResultsExists = 0x0008"
definition ServerOracleMode :: u16 where "ServerOracleMode = 0x0004"

lemmas server_flags = ServerSessionStateChanged_def ServerPSOutParams_def
  ServerMoreResultsExists_def ServerOracleMode_def

subsection \<open>Column types\<close>

definition ColumnTypeDecimal :: byte where "ColumnTypeDecimal = 0x00"
definition ColumnTypeTiny :: byte where "ColumnTypeTiny = 0x01"
definition ColumnTypeShort :: byte where "ColumnTypeShort = 0x02"
definition ColumnTypeLong :: byte where "ColumnTypeLong = 0x03"
definition ColumnTypeFloat :: byte where "ColumnTypeFloat = 0x04"
definition ColumnTypeDouble :: byte where "ColumnTypeDouble = 0x05"
definition ColumnTypeNull :: byte where "ColumnTypeNull = 0x06"
definition ColumnTypeTimestamp :: byte where "ColumnTypeTimestamp = 0x07"
definition ColumnTypeLongLong :: byte where "ColumnTypeLongLong = 0x08"
definition ColumnTypeInt24 :: byte where "ColumnTypeInt24 = 0x09"
definition ColumnTypeDate :: byte where "ColumnTypeDate = 0x0a"
definition ColumnTypeTime :: byte where "ColumnTypeTime = 0x0b"
definition ColumnTypeDateTime :: byte where "ColumnTypeDateTime = 0x0c"
definition ColumnTypeYear :: byte where "ColumnTypeYear = 0x0d"
definition ColumnTypeVarChar :: byte where "ColumnTypeVarChar = 0x0f"
definition ColumnTypeBit :: byte where "ColumnTypeBit = 0x10"
definition ColumnTypeJSON :: byte where "ColumnTypeJSON = 0xf5"
definition ColumnTypeNewDecimal :: byte where "ColumnTypeNewDecimal = 0xf6"
definition ColumnTypeEnum :: byte where "ColumnTypeEnum = 0xf7"
definition ColumnTypeSet :: byte where "ColumnTypeSet = 0xf8"
definition ColumnTypeTinyBlob :: byte where "ColumnTypeTinyBlob = 0xf9"
definition ColumnTypeMediumBlob :: byte where "ColumnTypeMediumBlob = 0xfa"
definition ColumnTypeLongBlob :: byte where "ColumnTypeLongBlob = 0xfb"
definition ColumnTypeBlob :: byte where "ColumnTypeBlob = 0xfc"
definition ColumnTypeVarString :: byte where "ColumnTypeVarString = 0xfd"
definition ColumnTypeString :: byte where "ColumnTypeString = 0xfe"
definition ColumnTypeGeometry :: byte where "ColumnTypeGeometry = 0xff"
definition ColumnTypeOracleNumber :: byte where "ColumnTypeOracleNumber = 0x03"
definition ColumnTypeOracleBinaryFloat :: byte where "ColumnTypeOracleBinaryFloat = 0x04"
definition ColumnTypeOracleBinaryDouble :: byte where "ColumnTypeOracleBinaryDouble = 0x05"
definition ColumnTypeOracleTimestampTZ :: byte where "ColumnTypeOracleTimestampTZ = 0xc8"
definition ColumnTypeOracleTimestampLTZ :: byte where "ColumnTypeOracleTimestampLTZ = 0xc9"
definition ColumnTypeOracleTimestampNano :: byte where "ColumnTypeOracleTimestampNano = 0xca"
definition ColumnTypeOracleRaw :: byte where "ColumnTypeOracleRaw = 0xcb"
definition ColumnTypeOracleIntervalYM :: byte where "ColumnTypeOracleIntervalYM = 0xcc"
definition ColumnTypeOracleIntervalDS :: byte where "ColumnTypeOracleIntervalDS = 0xcd"
definition ColumnTypeOracleNumberFloat :: byte where "ColumnTypeOracleNumberFloat = 0xce"
definition ColumnTypeOracleNVarChar2 :: byte where "ColumnTypeOracleNVarChar2 = 0xcf"
definition ColumnTypeOracleNChar :: byte where "ColumnTypeOracleNChar = 0xd0"
definition ColumnTypeOracleRowID :: byte where "ColumnTypeOracleRowID = 0xd1"
definition ColumnTypeOracleBlob :: byte where "ColumnTypeOracleBlob = 0xd2"
definition ColumnTypeOracleClob :: byte where "ColumnTypeOracleClob = 0xd3"
definition ColumnTypeOracleCursor :: byte where "ColumnTypeOracleCursor = 0xa3"

lemmas column_types = ColumnTypeDecimal_def ColumnTypeTiny_def ColumnTypeShort_def
  ColumnTypeLong_def ColumnTypeFloat_def ColumnTypeDouble_def ColumnTypeNull_def
  ColumnTypeTimestamp_def ColumnTypeLongLong_def ColumnTypeInt24_def ColumnTypeDate_def
  ColumnTypeTime_def ColumnTypeDateTime_def ColumnTypeYear_def ColumnTypeVarChar_def
  ColumnTypeBit_def ColumnTypeJSON_def ColumnTypeNewDecimal_def ColumnTypeEnum_def
  ColumnTypeSet_def ColumnTypeTinyBlob_def ColumnTypeMediumBlob_def ColumnTypeLongBlob_def
  ColumnTypeBlob_def ColumnTypeVarString_def ColumnTypeString_def ColumnTypeGeometry_def
  ColumnTypeOracleTimestampTZ_def ColumnTypeOracleTimestampLTZ_def
  ColumnTypeOracleTimestampNano_def ColumnTypeOracleRaw_def ColumnTypeOracleIntervalYM_def
  ColumnTypeOracleIntervalDS_def ColumnTypeOracleNumberFloat_def ColumnTypeOracleNVarChar2_def
  ColumnTypeOracleNChar_def ColumnTypeOracleRowID_def ColumnTypeOracleBlob_def
  ColumnTypeOracleClob_def

end
