(* ===== verification/Oracle_Time.thy ===== *)
theory Oracle_Time
  imports Go_Time Column_Types
begin

text \<open>
  \<open>internal/protocol/oracle_time.go\<close>: the twelve-byte Oracle timestamp payload, its optional
  time zone trailer, and the resolution of a wall clock reading in a location that rejects
  readings which do not exist or are ambiguous.
\<close>

subsection \<open>The code\<close>

definition oracleTimestampPayloadLength :: nat where "oracleTimestampPayloadLength = 12"

definition IsOracleTimeType :: "byte \<Rightarrow> bool" where
  "IsOracleTimeType typ \<longleftrightarrow>
     typ = ColumnTypeOracleTimestampTZ \<or> typ = ColumnTypeOracleTimestampLTZ \<or>
     typ = ColumnTypeOracleTimestampNano"

definition absInt :: "int \<Rightarrow> int" where
  "absInt value = (if value < 0 then - value else value)"

definition oracleTimestampYear :: "byte \<Rightarrow> byte \<Rightarrow> int" where
  "oracleTimestampYear centuryByte yearByte =
     (let century = sint centuryByte; year = sint yearByte;
          sign = (if century < 0 \<or> year < 0 then - 1 else 1);
          century = (if century < 0 then - century else century);
          year = (if year < 0 then - year else year)
      in sign * (century * 100 + year))"

text \<open>Day 0 of the next month is the last day of this one.\<close>

definition daysInMonth :: "int \<Rightarrow> int \<Rightarrow> int" where
  "daysInMonth year month = wDay (time_wall (time_Date year (month + 1) 0 0 0 0 0 UTC))"

definition parseOracleTimeZone :: "bytes \<Rightarrow> int res" where
  "parseOracleTimeZone data =
     (if length data < 14 then
        Err (Errorf ''oceanbase: Oracle timestamp with time zone payload has %d bytes, want at least 14: %w''
          [AInt (int (length data)), AWrap UnexpectedEOF])
      else
        let hour = sint (data ! 12); minute = sint (data ! 13)
        in if minute < - 59 \<or> 59 < minute then
             Err (Errorf ''oceanbase: invalid Oracle time zone minute %d'' [AInt minute])
           else if hour \<noteq> 0 \<and> minute \<noteq> 0 \<and> (hour < 0) \<noteq> (minute < 0) then
             Err (Errorf ''oceanbase: Oracle time zone hour %d and minute %d have mixed signs''
               [AInt hour, AInt minute])
           else
             let sign = (if hour < 0 \<or> minute < 0 then - 1 else 1);
                 offsetMinutes = sign * (absInt hour * 60 + absInt minute)
             in if offsetMinutes < - (12 * 60 + 59) \<or> 14 * 60 < offsetMinutes then
                  Err (Errorf ''oceanbase: invalid Oracle time zone offset %d minutes'' [AInt offsetMinutes])
                else if length data < 15 then
                  Err (Errorf ''oceanbase: truncated Oracle time zone name length: %w'' [AWrap UnexpectedEOF])
                else
                  let nameEnd = 15 + unat (data ! 14)
                  in if length data < nameEnd then
                       Err (Errorf ''oceanbase: truncated Oracle time zone name: %w'' [AWrap UnexpectedEOF])
                     else if length data < nameEnd + 1 then
                       Err (Errorf ''oceanbase: truncated Oracle time zone abbreviation length: %w''
                         [AWrap UnexpectedEOF])
                     else
                       let payloadEnd = nameEnd + 1 + unat (data ! nameEnd)
                       in if length data < payloadEnd then
                            Err (Errorf ''oceanbase: truncated Oracle time zone abbreviation: %w''
                              [AWrap UnexpectedEOF])
                          else if length data \<noteq> payloadEnd then
                            Err (Errorf ''oceanbase: Oracle time zone payload has %d trailing bytes''
                              [AInt (int (length data - payloadEnd))])
                          else Ok offsetMinutes)"

definition sameOracleWall :: "go_time \<Rightarrow> go_time \<Rightarrow> bool" where
  "sameOracleWall got want \<longleftrightarrow>
     wYear (time_wall got) = wYear (time_wall want) \<and> wMonth (time_wall got) = wMonth (time_wall want) \<and>
     wDay (time_wall got) = wDay (time_wall want) \<and> wHour (time_wall got) = wHour (time_wall want) \<and>
     wMinute (time_wall got) = wMinute (time_wall want) \<and>
     wSecond (time_wall got) = wSecond (time_wall want) \<and> nanos got = nanos want"

definition wall_args :: "int \<Rightarrow> int \<Rightarrow> int \<Rightarrow> int \<Rightarrow> int \<Rightarrow> int \<Rightarrow> int \<Rightarrow> location \<Rightarrow> fmt_arg list" where
  "wall_args y mo d h mi s ns l =
     [AInt y, AInt mo, AInt d, AInt h, AInt mi, AInt s, AInt ns, AStr (zoneName l)]"

text \<open>The instants whose offsets are tried: the candidate and the two sides of its zone's ends.\<close>

definition zone_points :: "go_time \<Rightarrow> go_time list" where
  "zone_points candidate =
     (let (zoneStart, zoneEnd) = ZoneBounds candidate
      in [candidate] @
         (if \<not> IsZero zoneStart then [minus_nano zoneStart, zoneStart] else []) @
         (if \<not> IsZero zoneEnd then [minus_nano zoneEnd, zoneEnd] else []))"

text \<open>
  The loop over the offsets.  The source ranges over a map; each offset yields one instant, and
  the number of matches and the single match do not depend on the order.
\<close>

fun collect_matches :: "go_time \<Rightarrow> location \<Rightarrow> int list \<Rightarrow> go_time list \<Rightarrow> go_time list" where
  "collect_matches wall_t l [] matches = matches"
| "collect_matches wall_t l (offset # offsets) matches =
     (let instant = add_seconds wall_t (- offset)
      in if \<not> sameOracleWall (time_In instant l) wall_t then collect_matches wall_t l offsets matches
         else if list_ex (\<lambda>m. time_Equal m instant) matches then collect_matches wall_t l offsets matches
         else collect_matches wall_t l offsets (matches @ [instant]))"

definition oracleTimeInLocation ::
    "int \<Rightarrow> int \<Rightarrow> int \<Rightarrow> int \<Rightarrow> int \<Rightarrow> int \<Rightarrow> int \<Rightarrow> location \<Rightarrow> go_time res" where
  "oracleTimeInLocation year month day hour minute second nanosecond l =
     (let wall_t = time_Date year month day hour minute second nanosecond UTC;
          candidate = time_Date year month day hour minute second nanosecond l;
          args = wall_args year month day hour minute second nanosecond l
      in if \<not> sameOracleWall candidate wall_t then
           Err (Errorf ''oceanbase: Oracle local timestamp %04d-%02d-%02d %02d:%02d:%02d.%09d does not exist in %s'' args)
         else
           let offsets = remdups (map (\<lambda>p. zone_offset l (unixSec p)) (zone_points candidate))
           in case collect_matches wall_t l offsets [] of
                [] \<Rightarrow> Err (Errorf ''oceanbase: Oracle local timestamp %04d-%02d-%02d %02d:%02d:%02d.%09d cannot be resolved in %s'' args)
              | [m] \<Rightarrow> Ok (time_UTC m)
              | _ \<Rightarrow> Err (Errorf ''oceanbase: Oracle local timestamp %04d-%02d-%02d %02d:%02d:%02d.%09d is ambiguous in %s'' args))"

definition ParseOracleTime :: "bytes \<Rightarrow> byte \<Rightarrow> location option \<Rightarrow> go_time res" where
  "ParseOracleTime data typ sessionLocation =
     (if \<not> IsOracleTimeType typ then
        Err (Errorf ''oceanbase: unsupported Oracle time type 0x%02x'' [AInt (uint typ)])
      else if length data < oracleTimestampPayloadLength then
        Err (Errorf ''oceanbase: Oracle time payload has %d bytes, want at least %d: %w''
          [AInt (int (length data)), AInt 12, AWrap UnexpectedEOF])
      else if typ \<noteq> ColumnTypeOracleTimestampTZ \<and> length data \<noteq> oracleTimestampPayloadLength then
        Err (Errorf ''oceanbase: Oracle timestamp payload has %d bytes, want %d''
          [AInt (int (length data)), AInt 12])
      else
        let year = oracleTimestampYear (data ! 0) (data ! 1);
            month = uint (data ! 2); day = uint (data ! 3); hour = uint (data ! 4);
            minute = uint (data ! 5); second = uint (data ! 6);
            nanosecond = uint (le_word (subslice 7 11 data) :: u32); scale = uint (data ! 11)
        in if year < 1 \<or> 9999 < year then
             Err (Errorf ''oceanbase: invalid Oracle time year %d'' [AInt year])
           else if month < 1 \<or> 12 < month then
             Err (Errorf ''oceanbase: invalid Oracle time month %d'' [AInt month])
           else if day < 1 \<or> daysInMonth year month < day then
             Err (Errorf ''oceanbase: invalid Oracle time day %d for %04d-%02d'' [AInt day, AInt year, AInt month])
           else if hour < 0 \<or> 23 < hour \<or> minute < 0 \<or> 59 < minute \<or> second < 0 \<or> 59 < second then
             Err (Errorf ''oceanbase: invalid Oracle time clock %02d:%02d:%02d''
               [AInt hour, AInt minute, AInt second])
           else if 1000000000 \<le> nanosecond then
             Err (Errorf ''oceanbase: invalid Oracle time nanoseconds %d'' [AInt nanosecond])
           else if 9 < scale then
             Err (Errorf ''oceanbase: invalid Oracle time scale %d'' [AInt scale])
           else if typ = ColumnTypeOracleTimestampTZ then
             bind_res (parseOracleTimeZone data) (\<lambda>offsetMinutes.
               oracleTimeInLocation year month day hour minute second nanosecond
                 (FixedZone [] (offsetMinutes * 60)))
           else if typ = ColumnTypeOracleTimestampLTZ then
             (case sessionLocation of
                None \<Rightarrow> Err (Errorf ''oceanbase: session time zone is unknown for Oracle timestamp with local time zone'' [])
              | Some l \<Rightarrow> oracleTimeInLocation year month day hour minute second nanosecond l)
           else oracleTimeInLocation year month day hour minute second nanosecond UTC)"

subsection \<open>Wall clock readings\<close>

lemma lookup_fixed [simp]:
  "lookup (FixedZone name off) sec = (off, None, None)" "lookup UTC sec = (0, None, None)"
  by (simp_all add: lookup_def FixedZone_def UTC_def)

lemma sameOracleWall_iff:
  "sameOracleWall got want \<longleftrightarrow>
     unixSec got + zone_offset (timeLoc got) (unixSec got) =
     unixSec want + zone_offset (timeLoc want) (unixSec want) \<and> nanos got = nanos want"
proof -
  have "sameOracleWall got want \<longleftrightarrow> time_wall got = time_wall want \<and> nanos got = nanos want"
    by (auto simp: sameOracleWall_def intro: wall.equality)
  then show ?thesis by (simp add: time_wall_def wall_of_secs_inj)
qed

text \<open>A reading with all fields in range, nanoseconds included.\<close>

definition valid_reading :: "wall \<Rightarrow> int \<Rightarrow> bool" where
  "valid_reading w ns \<longleftrightarrow> valid_wall w \<and> 0 \<le> ns \<and> ns < 1000000000"

lemma valid_month: "valid_reading w ns \<Longrightarrow> (wMonth w - 1) div 12 = 0 \<and> (wMonth w - 1) mod 12 = wMonth w - 1"
  by (auto simp: valid_reading_def valid_wall_def valid_date_def intro: div_pos_pos_trivial mod_pos_pos_trivial)

lemma time_Date_fixed:
  assumes "valid_reading w ns" and "transitions l = []"
  shows "time_Date (wYear w) (wMonth w) (wDay w) (wHour w) (wMinute w) (wSecond w) ns l =
    \<lparr>unixSec = secs_of_wall w - baseOffset l, nanos = ns, timeLoc = l\<rparr>"
proof -
  have "ns div 1000000000 = 0" "ns mod 1000000000 = ns"
    using assms(1) by (simp_all add: valid_reading_def div_pos_pos_trivial mod_pos_pos_trivial)
  with valid_month [OF assms(1)] assms(2) show ?thesis
    by (cases w) (simp add: time_Date_def Let_def lookup_def)
qed

lemmas time_Date_UTC = time_Date_fixed [of _ _ UTC, simplified UTC_def location.simps, folded UTC_def, simplified]

lemma collect_matches_sound:
  "(\<forall>m \<in> set ms. sameOracleWall (time_In m l) w) \<Longrightarrow> m \<in> set (collect_matches w l offs ms) \<Longrightarrow>
     sameOracleWall (time_In m l) w"
  by (induction w l offs ms rule: collect_matches.induct) (auto simp: Let_def split: if_splits)

lemma month_len_last: "1 \<le> m \<Longrightarrow> m \<le> 12 \<Longrightarrow> 1 \<le> month_len y m"
  using month_cases [of m] by (auto simp: month_len_def days_before_month_values)

lemma daysInMonth_eq:
  assumes "1 \<le> m" and "m \<le> 12"
  shows "daysInMonth y m = month_len y m"
proof -
  define w where "w = \<lparr>wYear = y, wMonth = m, wDay = month_len y m, wHour = 0, wMinute = 0, wSecond = 0\<rparr>"
  have "valid_wall w"
    using assms month_len_last by (simp add: w_def valid_wall_def valid_date_def)
  then have "wall_of_secs (secs_of_wall w) = w" by (rule wall_of_secs_of_wall)
  moreover have "days_of_civil (y + m div 12) (m mod 12 + 1) 0 = days_of_civil y m (month_len y m)"
  proof (cases "m = 12")
    case True
    then show ?thesis
      by (simp add: days_of_civil_def days_before_year_Suc month_len_def days_before_month_values)
  next
    case False
    then have "m div 12 = 0" "m mod 12 = m" using assms by (simp_all add: div_pos_pos_trivial mod_pos_pos_trivial)
    then show ?thesis by (simp add: days_of_civil_def month_len_def)
  qed
  then have "unixSec (time_Date y (m + 1) 0 0 0 0 0 UTC) = secs_of_wall w"
    by (simp add: time_Date_def Let_def secs_of_wall_def w_def)
  moreover have "timeLoc (time_Date y (m + 1) 0 0 0 0 0 UTC) = UTC"
    by (simp add: time_Date_def Let_def)
  ultimately show ?thesis
    by (simp add: daysInMonth_def time_wall_def zone_offset_def) (simp add: w_def)
qed

subsection \<open>Resolution of a reading\<close>

lemma oracleTimeInLocation_sound:
  assumes "valid_reading w ns"
    and "oracleTimeInLocation (wYear w) (wMonth w) (wDay w) (wHour w) (wMinute w) (wSecond w) ns l = Ok t"
  shows "time_wall (time_In t l) = w" and "nanos t = ns" and "timeLoc t = UTC"
proof -
  let ?w = "time_Date (wYear w) (wMonth w) (wDay w) (wHour w) (wMinute w) (wSecond w) ns UTC"
  from assms(2) obtain offs m where m: "collect_matches ?w l offs [] = [m]" and t: "t = time_UTC m"
    by (auto simp: oracleTimeInLocation_def Let_def split: if_splits list.splits)
  have "sameOracleWall (time_In m l) ?w"
    using collect_matches_sound [of "[]" l ?w m offs] m by simp
  then have "unixSec m + zone_offset l (unixSec m) = secs_of_wall w \<and> nanos m = ns"
    by (simp add: sameOracleWall_iff time_Date_UTC [OF assms(1)] time_In_def zone_offset_def)
  moreover have "wall_of_secs (secs_of_wall w) = w"
    using assms(1) by (simp add: valid_reading_def wall_of_secs_of_wall)
  ultimately show "time_wall (time_In t l) = w" and "nanos t = ns" and "timeLoc t = UTC"
    by (simp_all add: t time_UTC_def time_In_def time_wall_def)
qed

lemma oracleTimeInLocation_fixed:
  assumes "valid_reading w ns" and "transitions l = []"
  shows "oracleTimeInLocation (wYear w) (wMonth w) (wDay w) (wHour w) (wMinute w) (wSecond w) ns l =
    Ok \<lparr>unixSec = secs_of_wall w - baseOffset l, nanos = ns, timeLoc = UTC\<rparr>"
proof -
  have look: "lookup l s = (baseOffset l, None, None)" for s using assms(2) by (simp add: lookup_def)
  have "IsZero zero_time" by (simp add: IsZero_def zero_time_def)
  then show ?thesis
    by (simp add: oracleTimeInLocation_def time_Date_fixed [OF assms] time_Date_UTC [OF assms(1)]
        sameOracleWall_iff zone_points_def ZoneBounds_def look zone_offset_def Let_def add_seconds_def
        time_In_def time_UTC_def)
qed

subsection \<open>The payload\<close>

text \<open>The reading a twelve-byte payload carries.\<close>

definition payload_wall :: "bytes \<Rightarrow> wall" where
  "payload_wall data =
     \<lparr>wYear = oracleTimestampYear (data ! 0) (data ! 1), wMonth = uint (data ! 2), wDay = uint (data ! 3),
      wHour = uint (data ! 4), wMinute = uint (data ! 5), wSecond = uint (data ! 6)\<rparr>"

definition payload_nanos :: "bytes \<Rightarrow> int" where
  "payload_nanos data = uint (le_word (subslice 7 11 data) :: u32)"

text \<open>The guards of \<open>ParseOracleTime\<close> establish a valid reading in years 1 to 9999.\<close>

definition payload_ok :: "bytes \<Rightarrow> bool" where
  "payload_ok data \<longleftrightarrow>
     12 \<le> length data \<and> valid_reading (payload_wall data) (payload_nanos data) \<and>
     1 \<le> wYear (payload_wall data) \<and> wYear (payload_wall data) \<le> 9999 \<and> uint (data ! 11) \<le> 9"

lemma ParseOracleTime_ok:
  assumes "payload_ok data" and "IsOracleTimeType typ"
    and "typ \<noteq> ColumnTypeOracleTimestampTZ \<Longrightarrow> length data = 12"
  defines "w \<equiv> payload_wall data" and "ns \<equiv> payload_nanos data"
  defines "resolve \<equiv> oracleTimeInLocation (wYear w) (wMonth w) (wDay w) (wHour w) (wMinute w) (wSecond w) ns"
  shows "ParseOracleTime data typ sess =
    (if typ = ColumnTypeOracleTimestampTZ then
       bind_res (parseOracleTimeZone data) (\<lambda>m. resolve (FixedZone [] (m * 60)))
     else if typ = ColumnTypeOracleTimestampLTZ then
       (case sess of None \<Rightarrow> Err (Errorf ''oceanbase: session time zone is unknown for Oracle timestamp with local time zone'' [])
        | Some l \<Rightarrow> resolve l)
     else resolve UTC)"
proof -
  have m: "1 \<le> uint (data ! 2)" "uint (data ! 2) \<le> 12"
    using assms(1) by (simp_all add: payload_ok_def valid_reading_def valid_wall_def valid_date_def payload_wall_def)
  have d: "daysInMonth y (uint (data ! 2)) = month_len y (uint (data ! 2))" for y
    by (rule daysInMonth_eq [OF m])
  show ?thesis
    using assms(1-3)
    by (cases sess) (auto simp: ParseOracleTime_def oracleTimestampPayloadLength_def Let_def d payload_ok_def
        valid_reading_def valid_wall_def valid_date_def payload_wall_def payload_nanos_def resolve_def
        w_def ns_def not_less)
qed

lemma ParseOracleTime_Ok_payload:
  assumes "ParseOracleTime data typ sess = Ok t"
  shows "payload_ok data" and "IsOracleTimeType typ"
    and "typ \<noteq> ColumnTypeOracleTimestampTZ \<Longrightarrow> length data = 12"
proof -
  show "IsOracleTimeType typ" and "typ \<noteq> ColumnTypeOracleTimestampTZ \<Longrightarrow> length data = 12"
    using assms by (auto simp: ParseOracleTime_def oracleTimestampPayloadLength_def split: if_splits)
  have "1 \<le> uint (data ! 2)" "uint (data ! 2) \<le> 12" "\<not> daysInMonth (oracleTimestampYear (data ! 0) (data ! 1)) (uint (data ! 2)) < uint (data ! 3)"
    "1 \<le> uint (data ! 3)" "uint (data ! 4) < 24" "uint (data ! 5) < 60" "uint (data ! 6) < 60" "12 \<le> length data"
    "1 \<le> oracleTimestampYear (data ! 0) (data ! 1)" "oracleTimestampYear (data ! 0) (data ! 1) \<le> 9999"
    "uint (data ! 11) \<le> 9" "payload_nanos data < 1000000000"
    using assms by (auto simp: ParseOracleTime_def oracleTimestampPayloadLength_def Let_def payload_nanos_def split: if_splits)
  then show "payload_ok data"
    by (simp add: payload_ok_def valid_reading_def valid_wall_def valid_date_def payload_wall_def
        daysInMonth_eq) (simp add: payload_nanos_def)
qed

text \<open>
  C30: whatever the session's location, when a \<open>TIMESTAMP WITH LOCAL TIME ZONE\<close> payload is decoded
  successfully, the transmitted fields form a valid calendar reading in years 1 to 9999 and the
  result is a UTC instant at which a clock in that location shows exactly this reading.
\<close>

theorem oracle_local_time_sound:
  assumes "ParseOracleTime data ColumnTypeOracleTimestampLTZ (Some l) = Ok t"
  shows "payload_ok data \<and> time_wall (time_In t l) = payload_wall data \<and>
    nanos t = payload_nanos data \<and> timeLoc t = UTC"
proof -
  have ok: "payload_ok data" and ty: "IsOracleTimeType ColumnTypeOracleTimestampLTZ"
    and len: "ColumnTypeOracleTimestampLTZ \<noteq> ColumnTypeOracleTimestampTZ \<Longrightarrow> length data = 12"
    using ParseOracleTime_Ok_payload [OF assms] by auto
  have valid: "valid_reading (payload_wall data) (payload_nanos data)" using ok by (simp add: payload_ok_def)
  from assms ParseOracleTime_ok [OF ok ty len, of "Some l"] show ?thesis
    using oracleTimeInLocation_sound [OF valid] ok
    by (simp add: column_types)
qed

theorem oracle_local_time_sound_witness:
  "let data = [20, 26, 2, 28, 12, 30, 45, 5, 0, 0, 0, 9];
       l = \<lparr>zoneName = ''X'', baseOffset = 3600, transitions = [(1000, 7200)]\<rparr>
   in \<exists>t. ParseOracleTime data ColumnTypeOracleTimestampLTZ (Some l) = Ok t \<and>
        time_wall (time_In t l) = payload_wall data \<and> nanos t = payload_nanos data"
proof -
  let ?data = "[20, 26, 2, 28, 12, 30, 45, 5, 0, 0, 0, 9] :: bytes"
  let ?l = "\<lparr>zoneName = ''X'', baseOffset = 3600, transitions = [(1000, 7200)]\<rparr>"
  have "is_ok (ParseOracleTime ?data ColumnTypeOracleTimestampLTZ (Some ?l))" by code_simp
  then have "\<exists>t. ParseOracleTime ?data ColumnTypeOracleTimestampLTZ (Some ?l) = Ok t"
    by (simp only: is_ok_iff)
  then obtain t where t: "ParseOracleTime ?data ColumnTypeOracleTimestampLTZ (Some ?l) = Ok t" ..
  from oracle_local_time_sound [OF this] t show ?thesis by (simp only: Let_def) blast
qed

subsection \<open>Encoded payloads\<close>

text \<open>The payload a server sends for a reading, and the time zone trailer.\<close>

definition encode_reading :: "wall \<Rightarrow> int \<Rightarrow> nat \<Rightarrow> bytes" where
  "encode_reading w ns scale =
     [word_of_int (wYear w div 100), word_of_int (wYear w mod 100), word_of_int (wMonth w),
      word_of_int (wDay w), word_of_int (wHour w), word_of_int (wMinute w), word_of_int (wSecond w)] @
     le_bytes 4 (word_of_int ns :: u32) @ [word_of_nat scale]"

definition encode_zone :: "int \<Rightarrow> bytes \<Rightarrow> bytes \<Rightarrow> bytes" where
  "encode_zone offsetMinutes name abbrev =
     [word_of_int (sgn offsetMinutes * (\<bar>offsetMinutes\<bar> div 60)),
      word_of_int (sgn offsetMinutes * (\<bar>offsetMinutes\<bar> mod 60)),
      word_of_nat (length name)] @ name @ [word_of_nat (length abbrev)] @ abbrev"

lemma uint_byte: "0 \<le> x \<Longrightarrow> x < 256 \<Longrightarrow> uint (word_of_int x :: byte) = x"
  by (simp add: uint_word_of_int_eq take_bit_int_eq_self)

lemma sint_byte: "- 128 \<le> x \<Longrightarrow> x < 128 \<Longrightarrow> sint (word_of_int x :: byte) = x"
  by (simp add: sint_sbintrunc' signed_take_bit_int_eq_self)

lemma encode_reading_payload:
  assumes "valid_reading w ns" and "1 \<le> wYear w" and "wYear w \<le> 9999" and "scale \<le> 9"
  shows "payload_ok (encode_reading w ns scale @ rest)" and "payload_wall (encode_reading w ns scale @ rest) = w"
    and "payload_nanos (encode_reading w ns scale @ rest) = ns"
proof -
  have b: "1 \<le> wMonth w" "wMonth w \<le> 12" "1 \<le> wDay w" "wDay w \<le> month_len (wYear w) (wMonth w)"
    "0 \<le> wHour w" "wHour w < 24" "0 \<le> wMinute w" "wMinute w < 60" "0 \<le> wSecond w" "wSecond w < 60"
    "0 \<le> ns" "ns < 1000000000"
    using assms(1) by (auto simp: valid_reading_def valid_wall_def valid_date_def)
  have d: "wDay w \<le> 31"
    using b(4) month_cases [OF b(1,2)] by (auto simp: month_len_def days_before_month_values split: if_splits)
  have c: "0 \<le> wYear w div 100" "wYear w div 100 \<le> 99"
    using assms(2,3) zdiv_mono1 [of "wYear w" 9999 100] by (simp_all add: pos_imp_zdiv_nonneg_iff)
  have y: "oracleTimestampYear (word_of_int (wYear w div 100)) (word_of_int (wYear w mod 100)) = wYear w"
  proof -
    have "0 \<le> wYear w mod 100" "wYear w mod 100 < 100" by simp_all
    with c have "sint (word_of_int (wYear w div 100) :: byte) = wYear w div 100"
      "sint (word_of_int (wYear w mod 100) :: byte) = wYear w mod 100"
      by (intro sint_byte; simp)+
    with c \<open>0 \<le> wYear w mod 100\<close> show ?thesis
      by (simp add: oracleTimestampYear_def Let_def not_less [symmetric] del: not_less)
  qed
  show w: "payload_wall (encode_reading w ns scale @ rest) = w"
    using b d by (intro wall.equality) (simp_all add: payload_wall_def encode_reading_def y uint_byte)
  have "subslice 7 11 (encode_reading w ns scale @ rest) = le_bytes 4 (word_of_int ns :: u32)"
    by (simp add: encode_reading_def subslice_def)
  then show n: "payload_nanos (encode_reading w ns scale @ rest) = ns"
    using b by (simp add: payload_nanos_def le_word_le_bytes_id uint_word_of_int_eq take_bit_int_eq_self)
  have "(encode_reading w ns scale @ rest) ! 11 = word_of_nat scale"
    by (simp add: encode_reading_def le_bytes_numerals nth_append)
  moreover have "uint (word_of_nat scale :: byte) = int scale"
    using assms(4) by (simp add: uint_nat unat_of_nat_small)
  ultimately show "payload_ok (encode_reading w ns scale @ rest)"
    using assms w n by (simp add: payload_ok_def) (simp add: encode_reading_def)
qed

lemma parseOracleTimeZone_encode:
  assumes "length base = 12" and "- 779 \<le> m" and "m \<le> 840" and "length name < 256" and "length abbrev < 256"
  shows "parseOracleTimeZone (base @ encode_zone m name abbrev) = Ok m"
proof -
  let ?d = "base @ encode_zone m name abbrev"
  define h where "h = sgn m * (\<bar>m\<bar> div 60)"
  define k where "k = sgn m * (\<bar>m\<bar> mod 60)"
  have q: "0 \<le> \<bar>m\<bar> div 60" "\<bar>m\<bar> div 60 \<le> 14"
    using assms(2,3) zdiv_mono1 [of "\<bar>m\<bar>" 840 60] by (simp_all add: pos_imp_zdiv_nonneg_iff)
  have r: "0 \<le> \<bar>m\<bar> mod 60" "\<bar>m\<bar> mod 60 < 60" by simp_all
  have hk: "- 14 \<le> h" "h \<le> 14" "- 59 \<le> k" "k \<le> 59"
    using q r by (auto simp: h_def k_def sgn_if)
  have abs: "absInt h * 60 + absInt k = \<bar>m\<bar>"
  proof -
    have "absInt h = \<bar>m\<bar> div 60" "absInt k = \<bar>m\<bar> mod 60"
      using q r by (auto simp: absInt_def h_def k_def sgn_if)
    then show ?thesis by (simp only: div_mult_mod_eq)
  qed
  have sign: "h < 0 \<or> k < 0 \<longleftrightarrow> m < 0"
  proof
    show "h < 0 \<or> k < 0 \<Longrightarrow> m < 0" using q r by (auto simp: h_def k_def sgn_if split: if_splits)
    assume "m < 0"
    then have "h \<le> 0" "k \<le> 0" using q r by (auto simp: h_def k_def)
    moreover have "h \<noteq> 0 \<or> k \<noteq> 0" using abs \<open>m < 0\<close> by (auto simp: absInt_def)
    ultimately show "h < 0 \<or> k < 0" by linarith
  qed
  have mixed: "\<not> (h \<noteq> 0 \<and> k \<noteq> 0 \<and> (h < 0) \<noteq> (k < 0))"
    using q r by (cases "m < 0"; cases "m = 0") (auto simp: h_def k_def sgn_if)
  have nth: "?d ! 12 = word_of_int h" "?d ! 13 = word_of_int k" "?d ! 14 = word_of_nat (length name)"
    "?d ! (15 + length name) = word_of_nat (length abbrev)"
    using assms(1) by (simp_all add: encode_zone_def nth_append h_def k_def)
  have len: "length ?d = 16 + length name + length abbrev" using assms(1) by (simp add: encode_zone_def)
  have un: "unat (word_of_nat (length name) :: byte) = length name"
    "unat (word_of_nat (length abbrev) :: byte) = length abbrev"
    using assms(4,5) by (simp_all add: unat_of_nat_small)
  have si: "sint (?d ! 12) = h" "sint (?d ! 13) = k" using hk by (simp_all add: nth sint_byte)
  have off: "(if h < 0 \<or> k < 0 then - 1 else 1) * (absInt h * 60 + absInt k) = m"
    unfolding abs sign by simp
  show ?thesis
    unfolding parseOracleTimeZone_def si nth(3) un Let_def len off nth(4)
    using hk mixed assms(2,3) by (simp split: if_split_asm)
qed

text \<open>
  C32: a valid reading in years 1 to 9999 that is encoded as an Oracle timestamp payload decodes to
  the instant it denotes: at the offset of its trailer for \<open>TIMESTAMP WITH TIME ZONE\<close> (offsets
  from -12:59 to +14:00, with any region name and abbreviation), at the session offset for a local
  timestamp in a fixed zone, and in UTC for a plain timestamp.
\<close>

theorem oracle_time_roundtrip:
  assumes "valid_reading w ns" and "1 \<le> wYear w" and "wYear w \<le> 9999" and "scale \<le> 9"
    and "- 779 \<le> m" and "m \<le> 840" and "length name < 256" and "length abbrev < 256"
  shows "ParseOracleTime (encode_reading w ns scale @ encode_zone m name abbrev) ColumnTypeOracleTimestampTZ sess =
      Ok \<lparr>unixSec = secs_of_wall w - m * 60, nanos = ns, timeLoc = UTC\<rparr> \<and>
    ParseOracleTime (encode_reading w ns scale) ColumnTypeOracleTimestampLTZ (Some (FixedZone zone off)) =
      Ok \<lparr>unixSec = secs_of_wall w - off, nanos = ns, timeLoc = UTC\<rparr> \<and>
    ParseOracleTime (encode_reading w ns scale) ColumnTypeOracleTimestampNano sess =
      Ok \<lparr>unixSec = secs_of_wall w, nanos = ns, timeLoc = UTC\<rparr>"
proof -
  have types: "IsOracleTimeType ColumnTypeOracleTimestampTZ" "IsOracleTimeType ColumnTypeOracleTimestampLTZ"
    "IsOracleTimeType ColumnTypeOracleTimestampNano"
    by (simp_all add: IsOracleTimeType_def)
  have len: "length (encode_reading w ns scale) = 12" by (simp add: encode_reading_def)
  note enc = encode_reading_payload [OF assms(1-4)]
  note enc0 = enc [of "[]", simplified]
  have fixed: "oracleTimeInLocation (wYear w) (wMonth w) (wDay w) (wHour w) (wMinute w) (wSecond w) ns (FixedZone n x) =
      Ok \<lparr>unixSec = secs_of_wall w - x, nanos = ns, timeLoc = UTC\<rparr>" for n x
    using oracleTimeInLocation_fixed [OF assms(1), of "FixedZone n x"] by (simp add: FixedZone_def)
  have utc: "oracleTimeInLocation (wYear w) (wMonth w) (wDay w) (wHour w) (wMinute w) (wSecond w) ns UTC =
      Ok \<lparr>unixSec = secs_of_wall w, nanos = ns, timeLoc = UTC\<rparr>"
    using oracleTimeInLocation_fixed [OF assms(1), of UTC] by (simp add: UTC_def)
  have distinct: "ColumnTypeOracleTimestampLTZ \<noteq> ColumnTypeOracleTimestampTZ"
    "ColumnTypeOracleTimestampNano \<noteq> ColumnTypeOracleTimestampTZ"
    "ColumnTypeOracleTimestampNano \<noteq> ColumnTypeOracleTimestampLTZ"
    by (simp_all add: column_types)
  show ?thesis
    using ParseOracleTime_ok [OF enc(1) types(1), of "encode_zone m name abbrev" sess]
      ParseOracleTime_ok [OF enc0(1) types(2) len, of "Some (FixedZone zone off)"]
      ParseOracleTime_ok [OF enc0(1) types(3) len, of sess]
    by (simp add: enc(2,3) enc0(2,3) fixed utc distinct parseOracleTimeZone_encode [OF len assms(5-8)])
qed

theorem oracle_time_roundtrip_witness:
  "let w = \<lparr>wYear = 2026, wMonth = 2, wDay = 28, wHour = 12, wMinute = 30, wSecond = 45\<rparr>
   in ParseOracleTime ([20, 26, 2, 28, 12, 30, 45, 5, 0, 0, 0, 9] @ [- 5, - 30, 0, 0])
        ColumnTypeOracleTimestampTZ None =
      Ok \<lparr>unixSec = secs_of_wall w + 19800, nanos = 5, timeLoc = UTC\<rparr>"
proof -
  let ?w = "\<lparr>wYear = 2026, wMonth = 2, wDay = 28, wHour = 12, wMinute = 30, wSecond = 45\<rparr>"
  have v: "valid_reading ?w 5"
    by (simp add: valid_reading_def valid_wall_def valid_date_def month_len_def days_before_month_values leap_def)
  have e: "encode_reading ?w 5 9 = [20, 26, 2, 28, 12, 30, 45, 5, 0, 0, 0, 9]"
    by (simp add: encode_reading_def wire_simps)
  have z: "encode_zone (- 330) [] [] = [- 5, - 30, 0, 0]"
    by (simp add: encode_zone_def)
  from oracle_time_roundtrip [OF v, of 9 "- 330" "[]" "[]" None] show ?thesis
    unfolding e z Let_def by simp
qed

subsection \<open>Readings near a zone transition\<close>

text \<open>
  A location as the zone database has them: no offset exceeds the bound, consecutive transitions
  are further apart than twice the bound, and none is at the zero time, which \<open>ZoneBounds\<close> uses
  for an open end.
\<close>

definition gap :: "int \<Rightarrow> int \<times> int \<Rightarrow> int \<times> int \<Rightarrow> bool" where
  "gap b x y \<longleftrightarrow> fst x + 2 * b < fst y"

definition spaced :: "int \<Rightarrow> location \<Rightarrow> bool" where
  "spaced b l \<longleftrightarrow>
     sorted_wrt (gap b) (transitions l) \<and> \<bar>baseOffset l\<bar> \<le> b \<and>
     (\<forall>x \<in> set (transitions l). \<bar>snd x\<bar> \<le> b \<and> fst x \<noteq> zero_sec)"

lemma lookup_from_bounds:
  assumes "lookup_from off start ts sec = (x, a, c)"
    and "case start of None \<Rightarrow> True | Some st \<Rightarrow> st \<le> sec"
  shows "x \<in> insert off (snd ` set ts)" "a \<in> insert start (Some ` fst ` set ts)"
    "c \<in> insert None (Some ` fst ` set ts)"
    "case a of None \<Rightarrow> True | Some st \<Rightarrow> st \<le> sec" "case c of None \<Rightarrow> True | Some e \<Rightarrow> sec < e"
  using assms by (induction off start ts sec rule: lookup_from.induct) (auto split: if_splits)

text \<open>Two instants that are close are in the same interval or on the two sides of one transition.\<close>

lemma lookup_from_near:
  assumes "sorted_wrt (gap b) ts" and "p \<le> q" and "q \<le> p + 2 * b"
  shows "lookup_from off start ts p = lookup_from off start ts q \<or>
    (\<exists>x a t y c. lookup_from off start ts p = (x, a, Some t) \<and>
       lookup_from off start ts q = (y, Some t, c) \<and> p < t \<and> t \<le> q)"
  using assms
proof (induction off start ts p rule: lookup_from.induct)
  case (2 off start t y ts p)
  have "lookup_from y (Some t) ts q = (y, Some t, case ts of [] \<Rightarrow> None | u # _ \<Rightarrow> Some (fst u))"
    if "p < t"
    using 2 that by (cases ts) (auto simp: gap_def)
  with 2 show ?case by auto
qed simp

lemma lookup_near:
  assumes "spaced b l" and "p \<le> q" and "q \<le> p + 2 * b"
  obtains "lookup l p = lookup l q"
  | x a t y c where "lookup l p = (x, a, Some t)" "lookup l q = (y, Some t, c)" "p < t" "t \<le> q"
  using lookup_from_near [of b "transitions l" p q "baseOffset l" None] assms
  by (auto simp: spaced_def lookup_def)

lemma lookup_spaced:
  assumes "spaced b l" and "lookup l v = (x, a, c)"
  shows "\<bar>x\<bar> \<le> b" "a \<noteq> Some zero_sec" "c \<noteq> Some zero_sec"
    "case a of None \<Rightarrow> True | Some st \<Rightarrow> st \<le> v" "case c of None \<Rightarrow> True | Some e \<Rightarrow> v < e"
  using lookup_from_bounds [of "baseOffset l" None "transitions l" v x a c] assms
  by (auto simp: spaced_def lookup_def)

lemma lookup_forward:
  assumes "spaced b l" and "p \<le> q" and "q \<le> p + 2 * b" and "lookup l p = (x, a, c)"
    and "case c of None \<Rightarrow> True | Some e \<Rightarrow> q < e"
  shows "lookup l q = (x, a, c)"
  by (rule lookup_near [OF assms(1-3)]) (use assms in auto)

lemma lookup_backward:
  assumes "spaced b l" and "p \<le> q" and "q \<le> p + 2 * b" and "lookup l q = (x, a, c)"
    and "case a of None \<Rightarrow> True | Some e \<Rightarrow> e \<le> p"
  shows "lookup l p = (x, a, c)"
  by (rule lookup_near [OF assms(1-3)]) (use assms in auto)

lemma zone_offset_bound: "spaced b l \<Longrightarrow> \<bar>zone_offset l v\<bar> \<le> b"
  by (cases "lookup l v") (auto simp: zone_offset_def dest: lookup_spaced(1))

text \<open>The offsets on the two sides of a transition are those in force next to it.\<close>

lemma zone_offset_sides:
  assumes "spaced b l" and "q \<le> p + 2 * b"
    and "lookup l p = (x, a, Some t)" and "lookup l q = (y, Some t, c)" and "p < t" and "t \<le> q"
  shows "zone_offset l (t - 1) = x" "zone_offset l t = y"
proof -
  show "zone_offset l (t - 1) = x"
    using lookup_forward [OF assms(1) _ _ assms(3), of "t - 1"] assms by (simp add: zone_offset_def)
  show "zone_offset l t = y"
    using lookup_backward [OF assms(1) _ _ assms(4), of t] assms by (simp add: zone_offset_def)
qed

text \<open>Around a reading at most one transition is in reach.\<close>

lemma zone_offset_window:
  assumes "spaced b l"
  obtains t x y where "\<And>v. s - b \<le> v \<Longrightarrow> v \<le> s + b \<Longrightarrow> zone_offset l v = (if v < t then x else y)"
proof -
  have b: "0 \<le> b" using assms by (auto simp: spaced_def)
  let ?p = "s - b" and ?q = "s + b"
  show thesis
  proof (rule lookup_near [OF assms, of ?p ?q])
    show "?p \<le> ?q" "?q \<le> ?p + 2 * b" using b by simp_all
  next
    assume same: "lookup l ?p = lookup l ?q"
    obtain x a c where look: "lookup l ?p = (x, a, c)" by (cases "lookup l ?p")
    then have "case c of None \<Rightarrow> True | Some e \<Rightarrow> ?q < e"
      using same lookup_spaced(5) [OF assms, of ?q x a c] by simp
    then have "zone_offset l v = x" if "?p \<le> v" "v \<le> ?q" for v
      using that lookup_forward [OF assms that(1) _ look] by (simp add: zone_offset_def split: option.splits)
    then show thesis by (intro that [of ?p x x]) simp
  next
    fix x a t y c
    assume l: "lookup l ?p = (x, a, Some t)" "lookup l ?q = (y, Some t, c)" "?p < t" "t \<le> ?q"
    have "zone_offset l v = (if v < t then x else y)" if "?p \<le> v" "v \<le> ?q" for v
      using that lookup_forward [OF assms that(1) _ l(1)] lookup_backward [OF assms that(2) _ l(2)]
      by (cases "v < t") (simp_all add: zone_offset_def)
    then show thesis by (rule that)
  qed
qed

text \<open>\<open>time.Date\<close> applies the offset at the reading, then the one in force at the result.\<close>

lemma time_Date_spaced:
  assumes "valid_reading w ns" and "spaced b l"
  shows "time_Date (wYear w) (wMonth w) (wDay w) (wHour w) (wMinute w) (wSecond w) ns l =
    (let s = secs_of_wall w
     in \<lparr>unixSec = s - zone_offset l (s - zone_offset l s), nanos = ns, timeLoc = l\<rparr>)"
proof -
  define s where "s = secs_of_wall w"
  obtain x a c where look: "lookup l s = (x, a, c)" by (cases "lookup l s")
  have x: "\<bar>x\<bar> \<le> b" using lookup_spaced(1) [OF assms(2) look] .
  have in_range: "zone_offset l (s - x) = x"
    if "case a of None \<Rightarrow> True | Some st \<Rightarrow> st \<le> s - x" "case c of None \<Rightarrow> True | Some e \<Rightarrow> s - x < e"
    using that x lookup_backward [OF assms(2) _ _ look, of "s - x"]
      lookup_forward [OF assms(2) _ _ look, of "s - x"]
    by (cases "0 \<le> x") (auto simp: zone_offset_def)
  have "ns div 1000000000 = 0" "ns mod 1000000000 = ns"
    using assms(1) by (simp_all add: valid_reading_def div_pos_pos_trivial mod_pos_pos_trivial)
  with valid_month [OF assms(1)] in_range look show ?thesis unfolding s_def
    by (cases w) (auto simp: time_Date_def Let_def zone_offset_def not_less not_le split: option.splits)
qed

text \<open>The instants tried have every offset in force within reach of the candidate.\<close>

lemma zone_points_reach:
  assumes "spaced b l" and "timeLoc c = l" and "\<bar>v - unixSec c\<bar> \<le> 2 * b"
  shows "zone_offset l v \<in> (\<lambda>p. zone_offset l (unixSec p)) ` set (zone_points c)"
proof -
  let ?f = "zone_offset l"
  obtain x a e where look: "lookup l (unixSec c) = (x, a, e)" by (cases "lookup l (unixSec c)")
  have c: "?f (unixSec c) \<in> (\<lambda>p. ?f (unixSec p)) ` set (zone_points c)"
    by (cases "ZoneBounds c") (simp add: zone_points_def)
  have t: "?f (t - 1) \<in> (\<lambda>p. ?f (unixSec p)) ` set (zone_points c) \<and>
      ?f t \<in> (\<lambda>p. ?f (unixSec p)) ` set (zone_points c)" if "a = Some t \<or> e = Some t" for t
  proof -
    have "t \<noteq> zero_sec" using that lookup_spaced(2,3) [OF assms(1) look] by auto
    with that have "{\<lparr>unixSec = t - 1, nanos = 999999999, timeLoc = l\<rparr>, \<lparr>unixSec = t, nanos = 0, timeLoc = l\<rparr>}
        \<subseteq> set (zone_points c)"
      by (elim disjE) (simp_all add: zone_points_def ZoneBounds_def assms(2) look IsZero_def minus_nano_def)
    then show ?thesis by force
  qed
  show ?thesis
  proof (cases "v \<le> unixSec c")
    case True
    then show ?thesis
    proof (rule lookup_near [OF assms(1)])
      show "unixSec c \<le> v + 2 * b" using assms(3) by simp
    next
      assume "lookup l v = lookup l (unixSec c)"
      with c show ?thesis by (simp add: zone_offset_def)
    next
      fix x' a' u y' c'
      assume n: "lookup l v = (x', a', Some u)" "lookup l (unixSec c) = (y', Some u, c')" "v < u" "u \<le> unixSec c"
      with zone_offset_sides(1) [OF assms(1) _ n] assms(3) t [of u] look show ?thesis
        by (simp add: zone_offset_def)
    qed
  next
    case False
    then have "unixSec c \<le> v" by simp
    then show ?thesis
    proof (rule lookup_near [OF assms(1)])
      show "v \<le> unixSec c + 2 * b" using assms(3) by simp
    next
      assume "lookup l (unixSec c) = lookup l v"
      with c show ?thesis by (simp add: zone_offset_def)
    next
      fix x' a' u y' c'
      assume n: "lookup l (unixSec c) = (x', a', Some u)" "lookup l v = (y', Some u, c')" "unixSec c < u" "u \<le> v"
      with zone_offset_sides(2) [OF assms(1) _ n] assms(3) t [of u] look show ?thesis
        by (simp add: zone_offset_def)
    qed
  qed
qed

text \<open>Two rounds of the offset search find an instant with the reading where there is one.\<close>

lemma candidate_solves:
  assumes "spaced b l" and "v + zone_offset l v = s"
  defines "c \<equiv> s - zone_offset l (s - zone_offset l s)"
  shows "c + zone_offset l c = s"
proof -
  obtain t x y where win: "\<And>v. s - b \<le> v \<Longrightarrow> v \<le> s + b \<Longrightarrow> zone_offset l v = (if v < t then x else y)"
    using zone_offset_window [OF assms(1)] by blast
  have bnd: "\<bar>zone_offset l u\<bar> \<le> b" for u using zone_offset_bound [OF assms(1)] .
  have at: "zone_offset l (s - zone_offset l u) = (if s - zone_offset l u < t then x else y)" for u
    using bnd [of u] by (intro win) auto
  have "zone_offset l s = (if s < t then x else y)" using bnd [of s] by (intro win) auto
  moreover have "zone_offset l v = (if v < t then x else y)" using bnd [of v] assms(2) by (intro win) auto
  ultimately show ?thesis
    using assms(2) at [of s] at [of "s - zone_offset l s"] unfolding c_def by (auto split: if_splits)
qed

lemma time_UTC_id: "timeLoc t = UTC \<Longrightarrow> time_UTC t = t"
  by (cases t) (simp add: time_UTC_def time_In_def)

text \<open>Collecting the matches of a list of distinct offsets keeps exactly the matching instants.\<close>

lemma collect_matches_distinct:
  assumes "distinct offs" and "\<forall>m \<in> set ms. \<forall>x \<in> set offs. m \<noteq> add_seconds t (- x)"
    and "\<forall>m \<in> set ms. nanos m = nanos t \<and> timeLoc m = timeLoc t"
  shows "collect_matches t l offs ms =
    ms @ map (\<lambda>x. add_seconds t (- x)) (filter (\<lambda>x. sameOracleWall (time_In (add_seconds t (- x)) l) t) offs)"
  using assms
proof (induction offs arbitrary: ms)
  case Nil
  then show ?case by simp
next
  case (Cons x offs)
  have "\<not> list_ex (\<lambda>m. time_Equal m (add_seconds t (- x))) ms"
    using Cons.prems by (auto simp: list_ex_iff time_Equal_def add_seconds_def intro!: go_time.equality)
  moreover have "\<forall>y \<in> set offs. add_seconds t (- x) \<noteq> add_seconds t (- y)"
    using Cons.prems(1) by (auto simp: add_seconds_def dest: arg_cong [of _ _ unixSec])
  moreover have "nanos (add_seconds t y) = nanos t" "timeLoc (add_seconds t y) = timeLoc t" for y
    by (simp_all add: add_seconds_def)
  ultimately show ?case
    using Cons.prems Cons.IH [of ms] Cons.IH [of "ms @ [add_seconds t (- x)]"]
    by (simp add: Let_def ball_Un)
qed

text \<open>The instants collected are a single one exactly when the equation they solve has one solution.\<close>

lemma matches_singleton:
  assumes "distinct offs" and "\<forall>v. sol v \<longrightarrow> unixSec t - v \<in> set offs"
  shows "map (\<lambda>x. add_seconds t (- x)) (filter (\<lambda>x. sol (unixSec t - x)) offs) = [t\<lparr>unixSec := u\<rparr>] \<longleftrightarrow>
    (\<forall>v. sol v \<longleftrightarrow> v = u)" (is "?ms = _ \<longleftrightarrow> _")
proof -
  define f where "f v = t\<lparr>unixSec := v\<rparr>" for v
  have "set ?ms = f ` {v. sol v}"
    using assms(2) by (force simp: add_seconds_def f_def image_iff)
  moreover have "distinct ?ms"
    using assms(1) by (auto simp: distinct_map add_seconds_def intro!: inj_onI dest: arg_cong [where f = unixSec])
  moreover have "inj f"
    by (auto simp: f_def intro!: injI dest: arg_cong [where f = unixSec])
  then have "f ` {v. sol v} = {f u} \<longleftrightarrow> {v. sol v} = {u}"
    using inj_image_eq_iff [of f "{v. sol v}" "{u}"] by simp
  ultimately have "?ms = [f u] \<longleftrightarrow> {v. sol v} = {u}" by (simp add: distinct_eq_singleton)
  then show ?thesis by (auto simp: f_def)
qed

text \<open>
  C31: in every location, with any number of transitions, whose transitions are spaced (offsets of at
  most \<open>b\<close> seconds and more than \<open>2 * b\<close> seconds between transitions, as with half-yearly changes, and
  none at the zero time, which the code takes to mean that there is no bound), a local timestamp is decoded exactly when one instant, and no other, has the transmitted wall clock
  reading; that instant is the result.  Readings skipped by a transition and readings that occur
  twice around one are refused, at either end of the zone the candidate is in.
\<close>

theorem oracle_local_time_unique:
  assumes "valid_reading w ns" and "spaced b l"
  shows "oracleTimeInLocation (wYear w) (wMonth w) (wDay w) (wHour w) (wMinute w) (wSecond w) ns l =
      Ok \<lparr>unixSec = u, nanos = ns, timeLoc = UTC\<rparr> \<longleftrightarrow>
    (\<forall>v. time_wall \<lparr>unixSec = v, nanos = ns, timeLoc = l\<rparr> = w \<longleftrightarrow> v = u)"
proof -
  define s where "s = secs_of_wall w"
  define c where "c = time_Date (wYear w) (wMonth w) (wDay w) (wHour w) (wMinute w) (wSecond w) ns l"
  define t where "t = \<lparr>unixSec = s, nanos = ns, timeLoc = UTC\<rparr>"
  have t: "time_Date (wYear w) (wMonth w) (wDay w) (wHour w) (wMinute w) (wSecond w) ns UTC = t"
    using time_Date_UTC [OF assms(1)] by (simp add: t_def s_def)
  have w: "wall_of_secs s = w"
    using assms(1) by (simp add: s_def valid_reading_def wall_of_secs_of_wall)
  define sol where "sol v \<longleftrightarrow> v + zone_offset l v = s" for v
  have sol: "time_wall \<lparr>unixSec = v, nanos = ns, timeLoc = l\<rparr> = w \<longleftrightarrow> sol v" for v
    unfolding w [symmetric] by (simp add: time_wall_def wall_of_secs_inj sol_def)
  have c: "unixSec c = s - zone_offset l (s - zone_offset l s)" "nanos c = ns" "timeLoc c = l"
    by (simp_all add: c_def time_Date_spaced [OF assms] s_def Let_def)
  have cand: "sameOracleWall c t \<longleftrightarrow> sol (unixSec c)"
    by (simp add: sameOracleWall_iff c(2,3) t_def zone_offset_def [of UTC] sol_def)
  define offs where "offs = remdups (map (\<lambda>p. zone_offset l (unixSec p)) (zone_points c))"
  have offs: "distinct offs" "\<forall>v. sol v \<longrightarrow> unixSec t - v \<in> set offs"
  proof -
    show "\<forall>v. sol v \<longrightarrow> unixSec t - v \<in> set offs"
    proof (intro allI impI)
      fix v assume v: "sol v"
      have "\<bar>v - unixSec c\<bar> \<le> 2 * b"
        using v zone_offset_bound [OF assms(2), of v] zone_offset_bound [OF assms(2), of "s - zone_offset l s"]
        by (simp add: sol_def c(1))
      from zone_points_reach [OF assms(2) c(3) this] v show "unixSec t - v \<in> set offs"
        by (auto simp: offs_def t_def sol_def)
    qed
  qed (simp add: offs_def)
  have same: "sameOracleWall (time_In (add_seconds t (- x)) l) t \<longleftrightarrow> sol (unixSec t - x)" for x
    by (auto simp: sameOracleWall_iff t_def time_In_def add_seconds_def zone_offset_def [of UTC] sol_def)
  define ms where "ms = collect_matches t l offs []"
  have ms: "ms = map (\<lambda>x. add_seconds t (- x)) (filter (\<lambda>x. sol (unixSec t - x)) offs)"
    using collect_matches_distinct [OF offs(1), of "[]" t l] by (simp add: ms_def same)
  have "ms \<noteq> [] \<Longrightarrow> sameOracleWall c t"
    using candidate_solves [OF assms(2)] by (auto simp: cand ms filter_empty_conv sol_def c(1))
  moreover have "nanos m = ns \<and> timeLoc m = UTC" if "m \<in> set ms" for m
    using that by (auto simp: ms add_seconds_def t_def)
  ultimately have "oracleTimeInLocation (wYear w) (wMonth w) (wDay w) (wHour w) (wMinute w) (wSecond w) ns l =
      Ok \<lparr>unixSec = u, nanos = ns, timeLoc = UTC\<rparr> \<longleftrightarrow> ms = [\<lparr>unixSec = u, nanos = ns, timeLoc = UTC\<rparr>]"
    unfolding oracleTimeInLocation_def t c_def [symmetric] Let_def offs_def [symmetric] ms_def [symmetric]
    by (auto simp: time_UTC_id split: list.splits)
  with matches_singleton [OF offs, of u] sol show ?thesis by (simp add: ms t_def)
qed

text \<open>A zone with two transitions: summer time begins at 1000000 and ends at 11000000.\<close>

definition summer_time :: location where
  "summer_time = \<lparr>zoneName = ''DST'', baseOffset = 3600, transitions = [(1000000, 7200), (11000000, 3600)]\<rparr>"

theorem oracle_local_time_unique_witness:
  "oracleTimeInLocation 1970 1 12 14 30 0 0 summer_time = Ok \<lparr>unixSec = 999000, nanos = 0, timeLoc = UTC\<rparr> \<and>
   (\<forall>u. oracleTimeInLocation 1970 1 12 15 30 0 0 summer_time \<noteq> Ok \<lparr>unixSec = u, nanos = 0, timeLoc = UTC\<rparr>) \<and>
   (\<forall>u. oracleTimeInLocation 1970 5 8 9 0 0 0 summer_time \<noteq> Ok \<lparr>unixSec = u, nanos = 0, timeLoc = UTC\<rparr>)"
proof -
  define wl :: "int \<Rightarrow> int \<Rightarrow> int \<Rightarrow> int \<Rightarrow> wall" where
    "wl mo d h mi = \<lparr>wYear = 1970, wMonth = mo, wDay = d, wHour = h, wMinute = mi, wSecond = 0\<rparr>" for mo d h mi
  have sp: "spaced 86400 summer_time"
    by (simp add: spaced_def summer_time_def gap_def zero_sec_def)
  have v: "valid_reading (wl 1 12 14 30) 0" "valid_reading (wl 1 12 15 30) 0" "valid_reading (wl 5 8 9 0) 0"
    by (simp_all add: wl_def valid_reading_def valid_wall_def valid_date_def month_len_def days_before_month_values)
  have s: "secs_of_wall (wl 1 12 14 30) = 1002600" "secs_of_wall (wl 1 12 15 30) = 1006200"
    "secs_of_wall (wl 5 8 9 0) = 11005200"
    by (simp_all add: wl_def secs_of_wall_def days_of_civil_def days_before_year_def days_before_month_values leap_def)
  have t: "time_wall \<lparr>unixSec = u, nanos = 0, timeLoc = summer_time\<rparr> = w \<longleftrightarrow>
      u + (if u < 1000000 then 3600 else if u < 11000000 then 7200 else 3600) = secs_of_wall w"
    if "valid_reading w 0" for u w
  proof -
    have "wall_of_secs (secs_of_wall w) = w" using that by (simp add: valid_reading_def wall_of_secs_of_wall)
    then show ?thesis
      using wall_of_secs_inj [of _ "secs_of_wall w"]
      by (simp add: time_wall_def zone_offset_def lookup_def summer_time_def)
  qed
  define sol where
    "sol x u \<longleftrightarrow> u + (if u < 1000000 then 3600 else if u < 11000000 then 7200 else 3600) = (x :: int)" for x u
  have one: "sol 1002600 u \<longleftrightarrow> u = 999000" and none: "\<not> sol 1006200 u"
    and "sol 11005200 10998000" "sol 11005200 11001600" for u
    by (auto simp: sol_def)
  then have two: "\<not> (\<forall>v. sol 11005200 v \<longleftrightarrow> v = u)" for u
    by (metis numeral_eq_iff num.distinct(1,3,5) num.inject)
  show ?thesis
    using oracle_local_time_unique [OF v(1) sp, of 999000] oracle_local_time_unique [OF v(2) sp]
      oracle_local_time_unique [OF v(3) sp] one none two
    unfolding t [OF v(1)] t [OF v(2)] t [OF v(3)] s sol_def [symmetric]
    by (auto simp: wl_def)
qed

end
