(* ===== verification/Binary.thy ===== *)
theory Binary
  imports Sql_Values Oracle_Time Lenenc
begin

text \<open>
  \<open>internal/protocol/binary.go\<close>: values of the binary protocol.  Parameters are appended to a
  buffer; result rows carry a NULL bitmap with an offset of two bits and one value per column that
  is not NULL.
\<close>

subsection \<open>Parameters\<close>

definition AppendBinaryTime :: "bytes \<Rightarrow> go_time \<Rightarrow> bytes" where
  "AppendBinaryTime buf t =
     (if IsZero t then buf @ [0]
      else
        let w = time_wall t; nsec = nanos t;
            year = le_bytes 2 (word_of_int (wYear w) :: u16);
            date = [word_of_int (wMonth w), word_of_int (wDay w)];
            clock = [word_of_int (wHour w), word_of_int (wMinute w), word_of_int (wSecond w)]
        in if nsec \<noteq> 0 then
             buf @ [11] @ year @ date @ clock @ le_bytes 4 (word_of_int (nsec div 1000) :: u32)
           else if wHour w \<noteq> 0 \<or> wMinute w \<noteq> 0 \<or> wSecond w \<noteq> 0 then
             buf @ [7] @ year @ date @ clock
           else buf @ [4] @ year @ date)"

definition AppendBinaryParam :: "bytes \<Rightarrow> byte \<Rightarrow> gval \<Rightarrow> bytes res" where
  "AppendBinaryParam buf typ v =
     (case v of
        VNil \<Rightarrow> Ok buf
      | VInt i \<Rightarrow> Ok (buf @ le_bytes 8 (word_of_int i :: u64))
      | VFloat f \<Rightarrow> Ok (buf @ le_bytes 8 f)
      | VString s \<Rightarrow> Ok (PutLengthEncodedString buf (bytes_of s))
      | VBytes b \<Rightarrow> Ok (PutLengthEncodedString buf b)
      | VTime t \<Rightarrow> Ok (AppendBinaryTime buf t)
      | VBool b \<Rightarrow> Ok (buf @ [if b then 1 else 0])
      | _ \<Rightarrow> Err (Errorf ''oceanbase: binary parameter type %T not supported'' [AStr (type_name v)]))"

definition GetBinaryParamType :: "gval \<Rightarrow> byte" where
  "GetBinaryParamType v =
     (case v of
        VNil \<Rightarrow> ColumnTypeNull
      | VInt _ \<Rightarrow> ColumnTypeLongLong
      | VFloat _ \<Rightarrow> ColumnTypeDouble
      | VString _ \<Rightarrow> ColumnTypeVarString
      | VBytes _ \<Rightarrow> ColumnTypeVarString
      | VTime _ \<Rightarrow> ColumnTypeDateTime
      | VBool _ \<Rightarrow> ColumnTypeTiny
      | _ \<Rightarrow> ColumnTypeVarString)"

subsection \<open>Row values\<close>

text \<open>
  The bits of \<open>float64(math.Float32frombits(b))\<close>: the exponent is rebased, a subnormal is
  normalised, a NaN becomes quiet.
\<close>

definition f32_to_f64 :: "u32 \<Rightarrow> u64" where
  "f32_to_f64 b =
     (let sign = (push_bit 63 (ucast (drop_bit 31 b)) :: u64);
          e = unat (take_bit 8 (drop_bit 23 b)); m = take_bit 23 b; m64 = (ucast m :: u64)
      in if e = 255 then
           sign OR push_bit 52 0x7FF OR push_bit 29 m64 OR (if m = 0 then 0 else push_bit 51 1)
         else if e = 0 then
           (if m = 0 then sign
            else
              let msb = length (dropWhile (\<lambda>i. \<not> bit m i) (rev [0..<23])) - 1
              in sign OR push_bit 52 (word_of_nat (msb + 874)) OR
                 push_bit (52 - msb) (take_bit msb m64))
         else sign OR push_bit 52 (word_of_nat (e + 896)) OR push_bit 29 m64)"

text \<open>
  \<open>ParseBinaryTime\<close> indexes up to \<open>data[4]\<close> after checking only that the declared length is
  there; when that length is 1 to 3 the access may be out of range.
\<close>

definition ParseBinaryTime :: "bytes \<Rightarrow> (gval \<times> nat) res" where
  "ParseBinaryTime data =
     (if length data = 0 then Err UnexpectedEOF
      else
        let n = unat (data ! 0)
        in if n = 0 then Ok (VTime zero_time, 1)
           else if length data < n + 1 then Err UnexpectedEOF
           else if length data < 5 then Panic
           else
             let year = uint (le_word (subslice 1 3 data) :: u16);
                 month = uint (data ! 3); day = uint (data ! 4);
                 (hour, minute, sec) =
                   (if 7 \<le> n then (uint (data ! 5), uint (data ! 6), uint (data ! 7)) else (0, 0, 0));
                 nsec = (if 11 \<le> n then uint (le_word (subslice 8 12 data) :: u32) * 1000 else 0)
             in Ok (VTime (time_Date year month day hour minute sec nsec UTC), n + 1))"

definition string_types :: "byte list" where
  "string_types =
     [ColumnTypeDecimal, ColumnTypeNewDecimal, ColumnTypeVarChar, ColumnTypeVarString,
      ColumnTypeString, ColumnTypeBlob, ColumnTypeTinyBlob, ColumnTypeMediumBlob,
      ColumnTypeLongBlob, ColumnTypeOracleRaw, ColumnTypeOracleIntervalYM,
      ColumnTypeOracleIntervalDS, ColumnTypeOracleNumberFloat, ColumnTypeOracleNVarChar2,
      ColumnTypeOracleNChar, ColumnTypeOracleRowID, ColumnTypeOracleBlob, ColumnTypeOracleClob]"

definition ParseBinaryValueInLocation :: "bytes \<Rightarrow> byte \<Rightarrow> location option \<Rightarrow> (gval \<times> nat) res" where
  "ParseBinaryValueInLocation data typ sessionLocation =
     (if typ = ColumnTypeTiny then
        (if length data < 1 then Err UnexpectedEOF else Ok (VInt (sint (data ! 0)), 1))
      else if typ = ColumnTypeShort \<or> typ = ColumnTypeYear then
        (if length data < 2 then Err UnexpectedEOF
         else Ok (VInt (sint (le_word (subslice 0 2 data) :: u16)), 2))
      else if typ = ColumnTypeLong \<or> typ = ColumnTypeInt24 then
        (if length data < 4 then Err UnexpectedEOF
         else Ok (VInt (sint (le_word (subslice 0 4 data) :: u32)), 4))
      else if typ = ColumnTypeLongLong then
        (if length data < 8 then Err UnexpectedEOF
         else Ok (VInt (sint (le_word (subslice 0 8 data) :: u64)), 8))
      else if typ = ColumnTypeFloat then
        (if length data < 4 then Err UnexpectedEOF
         else Ok (VFloat (f32_to_f64 (le_word (subslice 0 4 data))), 4))
      else if typ = ColumnTypeDouble then
        (if length data < 8 then Err UnexpectedEOF
         else Ok (VFloat (le_word (subslice 0 8 data)), 8))
      else if typ = ColumnTypeDate \<or> typ = ColumnTypeTimestamp \<or> typ = ColumnTypeDateTime then
        ParseBinaryTime data
      else if typ = ColumnTypeOracleTimestampTZ \<or> typ = ColumnTypeOracleTimestampLTZ \<or>
              typ = ColumnTypeOracleTimestampNano then
        bind_res (ReadLengthEncodedString data) (\<lambda>(s, used, _).
          bind_res (ParseOracleTime s typ sessionLocation) (\<lambda>t. Ok (VTime t, used)))
      else if typ \<in> set string_types then
        bind_res (ReadLengthEncodedString data) (\<lambda>(s, used, _). Ok (VString (string_of s), used))
      else Err (Errorf ''oceanbase: unsupported binary column type %02x'' [AInt (uint typ)]))"

text \<open>The loop over the columns, from column \<open>i\<close> on; \<open>rest\<close> is \<open>packet[pos:]\<close>.\<close>

fun binary_columns ::
    "bytes \<Rightarrow> byte list \<Rightarrow> location option \<Rightarrow> nat \<Rightarrow> nat \<Rightarrow> bytes \<Rightarrow> gval list \<Rightarrow> (gval list \<times> bytes) res" where
  "binary_columns nullBitmap types loc i 0 rest row = Ok (row, rest)"
| "binary_columns nullBitmap types loc i (Suc n) rest row =
     (if bit (nullBitmap ! ((i + 2) div 8)) ((i + 2) mod 8) then
        binary_columns nullBitmap types loc (Suc i) n rest (row @ [VNil])
      else if length types \<le> i then Panic
      else
        bind_res (ParseBinaryValueInLocation rest (types ! i) loc) (\<lambda>(v, used).
          binary_columns nullBitmap types loc (Suc i) n (drop used rest) (row @ [v])))"

definition ParseBinaryRowInLocation ::
    "bytes \<Rightarrow> nat \<Rightarrow> byte list \<Rightarrow> location option \<Rightarrow> gval list res" where
  "ParseBinaryRowInLocation packet columnCount types sessionLocation =
     (if length packet = 0 \<or> packet ! 0 \<noteq> 0 then Err (Errorf ''invalid binary row header'' [])
      else
        let nullBitmapLen = (columnCount + 7 + 2) div 8
        in if length packet < 1 + nullBitmapLen then Err UnexpectedEOF
           else
             bind_res (binary_columns (subslice 1 (1 + nullBitmapLen) packet) types sessionLocation 0
                 columnCount (drop (1 + nullBitmapLen) packet) []) (\<lambda>(row, rest).
               if rest \<noteq> [] then
                 Err (Errorf ''oceanbase: binary row has %d trailing bytes'' [AInt (int (length rest))])
               else Ok row))"

subsection \<open>Parameters read back\<close>

text \<open>The parameters the driver can send, and what a reader of the binary protocol makes of them.\<close>

fun valid_param :: "gval \<Rightarrow> bool" where
  "valid_param (VInt i) = int64 i"
| "valid_param (VFloat f) = True"
| "valid_param (VBool b) = True"
| "valid_param (VString s) = go_len s"
| "valid_param (VBytes b) = go_len b"
| "valid_param (VTime t) =
     (0 \<le> wYear (time_wall t) \<and> wYear (time_wall t) < 65536 \<and> 0 \<le> nanos t \<and> nanos t < 1000000000)"
| "valid_param _ = False"

fun decoded :: "gval \<Rightarrow> gval" where
  "decoded (VBool b) = VInt (if b then 1 else 0)"
| "decoded (VBytes b) = VString (string_of b)"
| "decoded (VTime t) =
     (if IsZero t then VTime zero_time
      else VTime \<lparr>unixSec = secs_of_wall (time_wall t), nanos = nanos t div 1000 * 1000, timeLoc = UTC\<rparr>)"
| "decoded v = v"

definition param_bytes :: "gval \<Rightarrow> bytes" where
  "param_bytes v = (case AppendBinaryParam [] (GetBinaryParamType v) v of Ok b \<Rightarrow> b | _ \<Rightarrow> [])"

lemma AppendBinaryTime_append: "AppendBinaryTime buf t = buf @ AppendBinaryTime [] t"
  by (simp add: AppendBinaryTime_def Let_def)

lemma AppendBinaryParam_append:
  "valid_param v \<Longrightarrow> AppendBinaryParam buf typ v = Ok (buf @ param_bytes v)"
  by (cases v) (simp_all add: AppendBinaryParam_def param_bytes_def PutLengthEncodedString_append [of buf]
      AppendBinaryTime_append [of buf])

lemma uint_word16: "0 \<le> x \<Longrightarrow> x < 65536 \<Longrightarrow> uint (word_of_int x :: u16) = x"
  by (simp add: uint_word_of_int_eq take_bit_int_eq_self)

text \<open>A time is sent in one of four lengths; each is read back to the same reading in UTC.\<close>

lemma ParseBinaryTime_fields:
  assumes "valid_wall w" and "0 \<le> wYear w" and "wYear w < 65536" and "0 \<le> us" and "us < 1000000"
  shows "ParseBinaryTime (11 # le_bytes 2 (word_of_int (wYear w) :: u16) @ [word_of_int (wMonth w), word_of_int (wDay w)] @
      [word_of_int (wHour w), word_of_int (wMinute w), word_of_int (wSecond w)] @ le_bytes 4 (word_of_int us :: u32) @ rest) =
      Ok (VTime \<lparr>unixSec = secs_of_wall w, nanos = us * 1000, timeLoc = UTC\<rparr>, 12)"
    and "ParseBinaryTime (7 # le_bytes 2 (word_of_int (wYear w) :: u16) @ [word_of_int (wMonth w), word_of_int (wDay w)] @
      [word_of_int (wHour w), word_of_int (wMinute w), word_of_int (wSecond w)] @ rest) =
      Ok (VTime \<lparr>unixSec = secs_of_wall w, nanos = 0, timeLoc = UTC\<rparr>, 8)"
    and "wHour w = 0 \<Longrightarrow> wMinute w = 0 \<Longrightarrow> wSecond w = 0 \<Longrightarrow>
      ParseBinaryTime (4 # le_bytes 2 (word_of_int (wYear w) :: u16) @ [word_of_int (wMonth w), word_of_int (wDay w)] @ rest) =
      Ok (VTime \<lparr>unixSec = secs_of_wall w, nanos = 0, timeLoc = UTC\<rparr>, 5)"
proof -
  have b: "1 \<le> wMonth w" "wMonth w \<le> 12" "1 \<le> wDay w" "wDay w \<le> month_len (wYear w) (wMonth w)"
    "0 \<le> wHour w" "wHour w < 24" "0 \<le> wMinute w" "wMinute w < 60" "0 \<le> wSecond w" "wSecond w < 60"
    using assms(1) by (auto simp: valid_wall_def valid_date_def)
  have "wDay w \<le> 31"
    using b(4) month_cases [OF b(1,2)] by (auto simp: month_len_def days_before_month_values split: if_splits)
  with b have u: "uint (word_of_int (wMonth w) :: byte) = wMonth w" "uint (word_of_int (wDay w) :: byte) = wDay w"
    "uint (word_of_int (wHour w) :: byte) = wHour w" "uint (word_of_int (wMinute w) :: byte) = wMinute w"
    "uint (word_of_int (wSecond w) :: byte) = wSecond w"
    by (simp_all add: uint_byte)
  have y: "uint (le_word (le_bytes 2 (word_of_int (wYear w) :: u16)) :: u16) = wYear w"
    using assms(2,3) by (simp add: le_word_le_bytes_id uint_word16)
  have us: "uint (le_word (le_bytes 4 (word_of_int us :: u32)) :: u32) = us"
    using assms(4,5) by (simp add: le_word_le_bytes_id uint_word_of_int_eq take_bit_int_eq_self)
  have date: "time_Date (wYear w) (wMonth w) (wDay w) (wHour w) (wMinute w) (wSecond w) ns UTC =
      \<lparr>unixSec = secs_of_wall w, nanos = ns, timeLoc = UTC\<rparr>" if "0 \<le> ns" "ns < 1000000000" for ns
    using that assms(1) by (intro time_Date_UTC) (simp add: valid_reading_def)
  let ?y = "le_bytes 2 (word_of_int (wYear w) :: u16)"
  have len: "length ?y = 2" by simp
  have nth: "(x # ?y @ a # c # d) ! 3 = a" "(x # ?y @ a # c # d) ! 4 = c"
    "(x # ?y @ a # c # e # f # g # d) ! 5 = e" "(x # ?y @ a # c # e # f # g # d) ! 6 = f"
    "(x # ?y @ a # c # e # f # g # d) ! 7 = g" "subslice 1 3 (x # ?y @ d) = ?y"
    "subslice 8 12 (x # ?y @ a # c # e # f # g # le_bytes 4 (k :: u32) @ d) = le_bytes 4 k"
    for x a c e f g d k
    by (simp_all add: nth_append subslice_def)
  show "ParseBinaryTime (11 # ?y @ [word_of_int (wMonth w), word_of_int (wDay w)] @
      [word_of_int (wHour w), word_of_int (wMinute w), word_of_int (wSecond w)] @ le_bytes 4 (word_of_int us :: u32) @ rest) =
      Ok (VTime \<lparr>unixSec = secs_of_wall w, nanos = us * 1000, timeLoc = UTC\<rparr>, 12)"
    using assms(4,5) by (simp add: ParseBinaryTime_def Let_def nth [simplified] u y us date)
  show "ParseBinaryTime (7 # ?y @ [word_of_int (wMonth w), word_of_int (wDay w)] @
      [word_of_int (wHour w), word_of_int (wMinute w), word_of_int (wSecond w)] @ rest) =
      Ok (VTime \<lparr>unixSec = secs_of_wall w, nanos = 0, timeLoc = UTC\<rparr>, 8)"
    by (simp add: ParseBinaryTime_def Let_def nth [simplified] u y date)
  assume "wHour w = 0" "wMinute w = 0" "wSecond w = 0"
  then show "ParseBinaryTime (4 # ?y @ [word_of_int (wMonth w), word_of_int (wDay w)] @ rest) =
      Ok (VTime \<lparr>unixSec = secs_of_wall w, nanos = 0, timeLoc = UTC\<rparr>, 5)"
    using date [of 0] by (simp add: ParseBinaryTime_def Let_def nth [simplified] u y)
qed

lemma ParseBinaryTime_Append:
  assumes "valid_param (VTime t)"
  shows "ParseBinaryTime (AppendBinaryTime [] t @ rest) = Ok (decoded (VTime t), length (AppendBinaryTime [] t))"
proof -
  have w: "valid_wall (time_wall t)" by (simp add: time_wall_def valid_wall_of_secs)
  have y: "0 \<le> wYear (time_wall t)" "wYear (time_wall t) < 65536" "0 \<le> nanos t" "nanos t < 1000000000"
    using assms by simp_all
  have us: "0 \<le> nanos t div 1000" "nanos t div 1000 < 1000000"
    using y(3,4) zdiv_mono1 [of "nanos t" 999999999 1000] by (simp_all add: pos_imp_zdiv_nonneg_iff)
  note fields = ParseBinaryTime_fields [OF w y(1,2) us]
  show ?thesis
  proof (cases "IsZero t")
    case True
    then show ?thesis by (simp add: AppendBinaryTime_def ParseBinaryTime_def)
  next
    case False
    show ?thesis
    proof (cases "nanos t = 0")
      case True
      with False fields(2,3) show ?thesis by (simp add: AppendBinaryTime_def Let_def)
    next
      case nz: False
      with False fields(1) show ?thesis by (simp add: AppendBinaryTime_def Let_def)
    qed
  qed
qed

lemma sint_word64: "int64 i \<Longrightarrow> sint (word_of_int i :: u64) = i"
  by (simp add: int64_def sint_sbintrunc' signed_take_bit_int_eq_self)

lemma ParseBinaryValue_param:
  assumes "valid_param v"
  shows "ParseBinaryValueInLocation (param_bytes v @ rest) (GetBinaryParamType v) loc =
    Ok (decoded v, length (param_bytes v))"
proof (cases v)
  case (VInt i)
  with assms show ?thesis
    by (simp add: ParseBinaryValueInLocation_def GetBinaryParamType_def param_bytes_def AppendBinaryParam_def
        column_types subslice_def le_word_le_bytes_id sint_word64)
next
  case (VFloat f)
  then show ?thesis
    by (simp add: ParseBinaryValueInLocation_def GetBinaryParamType_def param_bytes_def AppendBinaryParam_def
        column_types subslice_def le_word_le_bytes_id)
next
  case (VString s)
  with assms have "go_len (bytes_of s)" by (simp add: go_len_def)
  with VString show ?thesis
    by (simp add: ParseBinaryValueInLocation_def GetBinaryParamType_def param_bytes_def AppendBinaryParam_def
        column_types string_types_def ReadLengthEncodedString_Put)
next
  case (VBytes b)
  with assms show ?thesis
    by (simp add: ParseBinaryValueInLocation_def GetBinaryParamType_def param_bytes_def AppendBinaryParam_def
        column_types string_types_def ReadLengthEncodedString_Put)
next
  case (VTime t)
  have "param_bytes v = AppendBinaryTime [] t" using VTime by (simp add: param_bytes_def AppendBinaryParam_def)
  then show ?thesis
    using VTime assms ParseBinaryTime_Append [of t rest]
    by (simp add: ParseBinaryValueInLocation_def GetBinaryParamType_def column_types del: decoded.simps)
next
  case (VBool b)
  then show ?thesis
    by (simp add: ParseBinaryValueInLocation_def GetBinaryParamType_def param_bytes_def AppendBinaryParam_def
        column_types)
qed (use assms in simp_all)

text \<open>
  every parameter value the driver accepts is encoded so that a reader of the binary protocol
  recovers it with the type byte sent along: integers, floats and strings exactly, booleans as 0
  or 1, byte slices as the string of their bytes, times as the same wall clock reading at
  microsecond precision.  Exactly the appended bytes are used.
\<close>

theorem binary_param_roundtrip:
  assumes "valid_param v"
  shows "\<exists>b. AppendBinaryParam buf (GetBinaryParamType v) v = Ok (buf @ b) \<and>
    ParseBinaryValueInLocation (b @ rest) (GetBinaryParamType v) loc = Ok (decoded v, length b)"
  using AppendBinaryParam_append [OF assms] ParseBinaryValue_param [OF assms] by blast

theorem binary_param_roundtrip_witness:
  "ParseBinaryValueInLocation [0xfe, 0xff, 0xff, 0xff, 0xff, 0xff, 0xff, 0xff, 1] ColumnTypeLongLong None =
     Ok (VInt (- 2), 8)"
proof -
  have "valid_param (VInt (- 2))" by (simp add: int64_def)
  from binary_param_roundtrip [OF this, of "[]" "[1]" None]
  have "ParseBinaryValueInLocation (le_bytes 8 (- 2 :: u64) @ [1]) ColumnTypeLongLong None = Ok (VInt (- 2), 8)"
    by (simp add: AppendBinaryParam_def GetBinaryParamType_def)
  moreover have "le_bytes 8 (- 2 :: u64) = [0xfe, 0xff, 0xff, 0xff, 0xff, 0xff, 0xff, 0xff]"
    by code_simp
  ultimately show ?thesis by simp
qed

subsection \<open>Rows read back\<close>

text \<open>A bitmap of \<open>len\<close> bytes whose bit \<open>i\<close> is \<open>P i\<close>, least significant bit first.\<close>

definition bitmap :: "nat \<Rightarrow> (nat \<Rightarrow> bool) \<Rightarrow> bytes" where
  "bitmap len P = map (\<lambda>j. horner_sum of_bool 2 (map (\<lambda>k. P (8 * j + k)) [0..<8])) [0..<len]"

lemma length_bitmap [simp]: "length (bitmap len P) = len"
  by (simp add: bitmap_def)

lemma bit_bitmap:
  assumes "i < 8 * len"
  shows "bit (bitmap len P ! (i div 8)) (i mod 8) \<longleftrightarrow> P i"
proof -
  have "i div 8 < len" using assms by (simp add: div_less_iff_less_mult mult.commute)
  then show ?thesis
    by (simp add: bitmap_def bit_horner_sum_bit_word_iff)
qed

text \<open>A row as a server sends it for the column types of the values.\<close>

definition row_bytes :: "gval list \<Rightarrow> bytes" where
  "row_bytes vs = concat (map (\<lambda>v. if v = VNil then [] else param_bytes v) vs)"

definition encode_binary_row :: "gval list \<Rightarrow> bytes" where
  "encode_binary_row vs =
     0 # bitmap ((length vs + 9) div 8) (\<lambda>i. 2 \<le> i \<and> i - 2 < length vs \<and> vs ! (i - 2) = VNil) @ row_bytes vs"

lemma binary_columns_encoded:
  assumes "\<forall>v \<in> set vs. v = VNil \<or> valid_param v"
    and "\<And>k. k < length vs \<Longrightarrow> bit (bm ! ((i + k + 2) div 8)) ((i + k + 2) mod 8) \<longleftrightarrow> vs ! k = VNil"
    and "\<And>k. k < length vs \<Longrightarrow> i + k < length types \<and> (vs ! k \<noteq> VNil \<longrightarrow> types ! (i + k) = GetBinaryParamType (vs ! k))"
  shows "binary_columns bm types loc i (length vs) (row_bytes vs @ rest) row =
    Ok (row @ map (\<lambda>v. if v = VNil then VNil else decoded v) vs, rest)"
  using assms
proof (induction vs arbitrary: i row)
  case Nil
  then show ?case by (simp add: row_bytes_def)
next
  case (Cons v vs)
  have null: "bit (bm ! ((i + 2) div 8)) ((i + 2) mod 8) \<longleftrightarrow> v = VNil"
    using Cons.prems(2) [of 0] by simp
  have ty: "i < length types" "v \<noteq> VNil \<Longrightarrow> types ! i = GetBinaryParamType v" using Cons.prems(3) [of 0] by simp_all
  have IH: "binary_columns bm types loc (Suc i) (length vs) (row_bytes vs @ rest) row' =
      Ok (row' @ map (\<lambda>v. if v = VNil then VNil else decoded v) vs, rest)" for row'
  proof (rule Cons.IH)
    show "\<forall>v \<in> set vs. v = VNil \<or> valid_param v" using Cons.prems(1) by simp
    show "bit (bm ! ((Suc i + k + 2) div 8)) ((Suc i + k + 2) mod 8) \<longleftrightarrow> vs ! k = VNil" if "k < length vs" for k
      using Cons.prems(2) [of "Suc k"] that by simp
    show "Suc i + k < length types \<and> (vs ! k \<noteq> VNil \<longrightarrow> types ! (Suc i + k) = GetBinaryParamType (vs ! k))" if "k < length vs" for k
      using Cons.prems(3) [of "Suc k"] that by simp
  qed
  have bytes: "row_bytes (u # vs) = (if u = VNil then [] else param_bytes u) @ row_bytes vs" for u
    by (simp add: row_bytes_def)
  show ?case
  proof (cases "v = VNil")
    case True
    then show ?thesis using null IH [of "row @ [VNil]"] by (simp add: bytes)
  next
    case False
    then have "valid_param v" using Cons.prems(1) by simp
    with False null ty IH [of "row @ [decoded v]"] show ?thesis
      by (simp add: bytes ParseBinaryValue_param)
  qed
qed

text \<open>A row for given column types; a NULL fits every column.\<close>

definition fits_types :: "byte list \<Rightarrow> gval list \<Rightarrow> bool" where
  "fits_types types vs \<longleftrightarrow> list_all2 (\<lambda>t v. v = VNil \<or> valid_param v \<and> t = GetBinaryParamType v) types vs"

definition decoded_row :: "gval list \<Rightarrow> gval list" where
  "decoded_row vs = map (\<lambda>v. if v = VNil then VNil else decoded v) vs"

lemma binary_row_parses:
  assumes "fits_types types vs"
  shows "ParseBinaryRowInLocation (encode_binary_row vs) (length types) types loc = Ok (decoded_row vs)"
proof -
  let ?n = "(length vs + 9) div 8"
  let ?bm = "bitmap ?n (\<lambda>i. 2 \<le> i \<and> i - 2 < length vs \<and> vs ! (i - 2) = VNil)"
  have len: "length types = length vs" and fits: "\<And>k. k < length vs \<Longrightarrow>
      vs ! k = VNil \<or> valid_param (vs ! k) \<and> types ! k = GetBinaryParamType (vs ! k)"
    using assms by (auto simp: fits_types_def list_all2_conv_all_nth)
  have "k + 2 < 8 * ?n" if "k < length vs" for k
    using that by simp
  then have "bit (?bm ! ((0 + k + 2) div 8)) ((0 + k + 2) mod 8) \<longleftrightarrow> vs ! k = VNil" if "k < length vs" for k
    using that bit_bitmap [of "k + 2" ?n "\<lambda>i. 2 \<le> i \<and> i - 2 < length vs \<and> vs ! (i - 2) = VNil"] by simp
  moreover have "\<forall>v\<in>set vs. v = VNil \<or> valid_param v" using fits by (metis in_set_conv_nth)
  ultimately have "binary_columns ?bm types loc 0 (length vs) (row_bytes vs @ []) [] = Ok ([] @ decoded_row vs, [])"
    using fits len unfolding decoded_row_def by (intro binary_columns_encoded) auto
  moreover have "subslice 1 (1 + ?n) (encode_binary_row vs) = ?bm"
    "drop (1 + ?n) (encode_binary_row vs) = row_bytes vs" "encode_binary_row vs ! 0 = 0"
    "length (encode_binary_row vs) = 1 + ?n + length (row_bytes vs)"
    by (simp_all add: encode_binary_row_def subslice_def)
  moreover have "(length vs + 7 + 2) div 8 = ?n" by (simp add: add.commute)
  ultimately show ?thesis
    unfolding ParseBinaryRowInLocation_def len by (simp only: Let_def) simp
qed

text \<open>
  A binary row with any number of columns, NULL in any of them, is decoded to the values it was
  built from (as a single value is): the NULL bitmap and the values stay aligned.
\<close>

theorem binary_row_roundtrip:
  assumes "\<forall>v \<in> set vs. v = VNil \<or> valid_param v"
  shows "ParseBinaryRowInLocation (encode_binary_row vs) (length vs) (map GetBinaryParamType vs) loc =
    Ok (map (\<lambda>v. if v = VNil then VNil else decoded v) vs)"
  using binary_row_parses [of "map GetBinaryParamType vs" vs loc] assms
  by (simp add: fits_types_def list_all2_conv_all_nth decoded_row_def)

theorem binary_row_roundtrip_witness:
  "ParseBinaryRowInLocation [0, 8, 1, 1, 65] 3
     [ColumnTypeTiny, ColumnTypeNull, ColumnTypeVarString] None = Ok [VInt 1, VNil, VString ''A'']"
proof -
  let ?vs = "[VBool True, VNil, VString ''A'']"
  have bits: "[0..<8] = [0, 1, 2, 3, 4, 5, 6, 7]" by (simp add: upt_rec)
  have "encode_binary_row ?vs = [0, 8, 1, 1, 65]"
    by (simp add: encode_binary_row_def row_bytes_def bitmap_def bits param_bytes_def AppendBinaryParam_def
        PutLengthEncodedString_def PutLengthEncodedInt_def bytes_of_def)
  with binary_row_roundtrip [of ?vs None] show ?thesis
    by (simp add: GetBinaryParamType_def go_len_def numeral_3_eq_3)
qed

subsection \<open>Run-time panics\<close>

lemma ReadLengthEncodedInt_no_Panic: "ReadLengthEncodedInt src \<noteq> Panic"
  by (simp add: ReadLengthEncodedInt_def)

lemma ReadLengthEncodedString_no_Panic: "ReadLengthEncodedString src \<noteq> Panic"
  by (auto simp: ReadLengthEncodedString_def bind_res_eq_Panic ReadLengthEncodedInt_no_Panic split: if_splits)

lemma ParseOracleTime_no_Panic: "ParseOracleTime data typ loc \<noteq> Panic"
proof -
  have z: "parseOracleTimeZone data \<noteq> Panic" by (simp add: parseOracleTimeZone_def Let_def)
  have l: "oracleTimeInLocation y mo d h mi s ns l \<noteq> Panic" for y mo d h mi s ns l
    by (simp add: oracleTimeInLocation_def Let_def split: list.splits)
  show ?thesis
    by (simp add: ParseOracleTime_def Let_def bind_res_eq_Panic z l split: option.splits)
qed

definition mysql_time_type :: "byte \<Rightarrow> bool" where
  "mysql_time_type typ \<longleftrightarrow> typ = ColumnTypeDate \<or> typ = ColumnTypeTimestamp \<or> typ = ColumnTypeDateTime"

lemma ParseBinaryTime_Panic:
  "ParseBinaryTime data = Panic \<longleftrightarrow>
     data \<noteq> [] \<and> 1 \<le> unat (hd data) \<and> unat (hd data) < length data \<and> length data < 5"
  by (cases data) (auto simp: ParseBinaryTime_def Let_def split: prod.splits)

lemma ParseBinaryValue_Panic:
  "ParseBinaryValueInLocation data typ loc = Panic \<longleftrightarrow> mysql_time_type typ \<and> ParseBinaryTime data = Panic"
proof (cases "mysql_time_type typ")
  case True
  then show ?thesis by (auto simp: mysql_time_type_def ParseBinaryValueInLocation_def column_types)
next
  case False
  then show ?thesis
    by (auto simp: mysql_time_type_def ParseBinaryValueInLocation_def bind_res_eq_Panic
        ReadLengthEncodedString_no_Panic ParseOracleTime_no_Panic split: if_splits)
qed

text \<open>A date or time value that is too short for its fields and ends the packet.\<close>

definition short_time :: "bytes \<Rightarrow> bool" where
  "short_time data \<longleftrightarrow> data \<noteq> [] \<and> 1 \<le> unat (hd data) \<and> unat (hd data) < length data \<and> length data \<le> 4"

lemma ParseBinaryTime_Panic_iff: "ParseBinaryTime data = Panic \<longleftrightarrow> short_time data"
  by (auto simp: ParseBinaryTime_Panic short_time_def)

text \<open>The loop panics at a column it reaches, that is not NULL, and that holds such a value.\<close>

lemma binary_columns_Panic:
  "i + n \<le> length types \<Longrightarrow>
   binary_columns bm types loc i n rest row = Panic \<longleftrightarrow>
     (\<exists>k<n. \<exists>row' rest'. binary_columns bm types loc i k rest row = Ok (row', rest') \<and>
        \<not> bit (bm ! ((i + k + 2) div 8)) ((i + k + 2) mod 8) \<and> mysql_time_type (types ! (i + k)) \<and>
        short_time rest')"
proof (induction bm types loc i n rest row rule: binary_columns.induct)
  case (1 bm types loc i rest row)
  then show ?case by simp
next
  case (2 bm types loc i n rest row)
  let ?null = "\<lambda>j. bit (bm ! ((j + 2) div 8)) ((j + 2) mod 8)"
  let ?bad = "\<lambda>j rest. \<not> ?null j \<and> mysql_time_type (types ! j) \<and> short_time rest"
  have split: "(\<exists>k<Suc n. P k) \<longleftrightarrow> P 0 \<or> (\<exists>k<n. P (Suc k))" for P
    by (auto simp: less_Suc_eq_0_disj)
  show ?case
  proof (cases "?null i")
    case True
    with 2 show ?thesis by (simp add: split)
  next
    case False
    show ?thesis
    proof (cases "ParseBinaryValueInLocation rest (types ! i) loc")
      case Panic
      then have "?bad i rest" using False by (simp add: ParseBinaryValue_Panic ParseBinaryTime_Panic_iff)
      with Panic False 2(3) show ?thesis by (simp add: split)
    next
      case (Err e)
      then have "\<not> (mysql_time_type (types ! i) \<and> short_time rest)"
        using ParseBinaryValue_Panic [of rest "types ! i" loc] by (simp add: ParseBinaryTime_Panic_iff)
      with Err False 2(3) show ?thesis by (auto simp: split)
    next
      case (Ok vu)
      obtain v used where vu: "vu = (v, used)" by (cases vu)
      have "\<not> (mysql_time_type (types ! i) \<and> short_time rest)"
        using ParseBinaryValue_Panic [of rest "types ! i" loc] Ok by (simp add: ParseBinaryTime_Panic_iff)
      with Ok False 2(2) [OF False _ _ vu [symmetric]] 2(3) show ?thesis by (auto simp: split vu)
    qed
  qed
qed

text \<open>
  C29: decoding a binary row from a server stops the program with an out-of-range access in exactly
  one situation: the columns before some column are decoded, that column has type \<open>DATE\<close>,
  \<open>TIMESTAMP\<close> or \<open>DATETIME\<close> and is not NULL, and what is left of the packet at its position is a
  length byte \<open>n\<close> from 1 to 3 followed by at least \<open>n\<close> and at most three bytes.  (The caller has a
  type for every column.)
\<close>

theorem binary_row_panics_only_on_short_times:
  assumes "columnCount \<le> length types"
  shows "ParseBinaryRowInLocation packet columnCount types loc = Panic \<longleftrightarrow>
    (let m = (columnCount + 9) div 8; nulls = subslice 1 (1 + m) packet
     in packet \<noteq> [] \<and> packet ! 0 = 0 \<and> 1 + m \<le> length packet \<and>
        (\<exists>k < columnCount. \<exists>row n rest.
           binary_columns nulls types loc 0 k (drop (1 + m) packet) [] = Ok (row, n # rest) \<and>
           \<not> bit (nulls ! ((k + 2) div 8)) ((k + 2) mod 8) \<and> mysql_time_type (types ! k) \<and>
           1 \<le> unat n \<and> unat n \<le> length rest \<and> length rest \<le> 3))"
proof -
  define m where "m = (columnCount + 9) div 8"
  define nulls where "nulls = subslice 1 (1 + m) packet"
  have short: "short_time data \<longleftrightarrow>
      (\<exists>n rest. data = n # rest \<and> 1 \<le> unat n \<and> unat n \<le> length rest \<and> length rest \<le> 3)" for data
    by (cases data) (auto simp: short_time_def)
  have "(columnCount + 7 + 2) div 8 = m" by (simp add: m_def)
  then have "ParseBinaryRowInLocation packet columnCount types loc = Panic \<longleftrightarrow>
    packet \<noteq> [] \<and> packet ! 0 = 0 \<and> 1 + m \<le> length packet \<and>
    binary_columns nulls types loc 0 columnCount (drop (1 + m) packet) [] = Panic"
    by (auto simp: ParseBinaryRowInLocation_def Let_def bind_res_eq_Panic nulls_def split: if_splits)
  also have "binary_columns nulls types loc 0 columnCount (drop (1 + m) packet) [] = Panic \<longleftrightarrow>
    (\<exists>k < columnCount. \<exists>row rest'. binary_columns nulls types loc 0 k (drop (1 + m) packet) [] = Ok (row, rest') \<and>
       \<not> bit (nulls ! ((k + 2) div 8)) ((k + 2) mod 8) \<and> mysql_time_type (types ! k) \<and> short_time rest')"
    using binary_columns_Panic [of 0 columnCount types nulls loc "drop (1 + m) packet" "[]"] assms by simp
  finally show ?thesis unfolding short Let_def m_def [symmetric] nulls_def [symmetric] by blast
qed

text \<open>A two-column row that ends in a date of one byte, and the same bytes as integers.\<close>

theorem binary_row_panics_witness:
  "ParseBinaryRowInLocation [0, 0, 5, 1, 7] 2 [ColumnTypeTiny, ColumnTypeDate] None = Panic \<and>
   ParseBinaryRowInLocation [0, 0, 5, 1, 7] 2 [ColumnTypeTiny, ColumnTypeShort] None \<noteq> Panic"
proof
  have cols: "binary_columns [0] [ColumnTypeTiny, ColumnTypeDate] None 0 1 [5, 1, 7] [] = Ok ([VInt 5], [1, 7])"
    by (simp add: ParseBinaryValueInLocation_def)
  have "mysql_time_type ([ColumnTypeTiny, ColumnTypeDate] ! 1)" by (simp add: mysql_time_type_def)
  then show "ParseBinaryRowInLocation [0, 0, 5, 1, 7] 2 [ColumnTypeTiny, ColumnTypeDate] None = Panic"
    using cols
    by (subst binary_row_panics_only_on_short_times)
      (auto simp: subslice_def Let_def simp del: binary_columns.simps intro!: exI [of _ "1 :: nat"])
  show "ParseBinaryRowInLocation [0, 0, 5, 1, 7] 2 [ColumnTypeTiny, ColumnTypeShort] None \<noteq> Panic"
    by (subst binary_row_panics_only_on_short_times) (auto simp: Let_def less_2_cases_iff mysql_time_type_def column_types)
qed

end
