(* ===== verification/Params.thy ===== *)
theory Params
  imports Sql_Values
begin

text \<open>
  \<open>params.go\<close>: client-side interpolation of query arguments.  One scanner decides which question
  marks are placeholders; it is written twice in the source, in \<open>interpolateParams\<close> and in
  \<open>countPlaceholders\<close>.  \<open>strconv.FormatFloat\<close> is a parameter of the definitions that print a
  float.
\<close>

subsection \<open>The code\<close>

datatype sqlState =
  sqlNormal | sqlSingleQuote | sqlDoubleQuote | sqlBacktick | sqlLineComment | sqlBlockComment

definition quoteString :: "string \<Rightarrow> string" where
  "quoteString s = [SQ] @ concat (map (\<lambda>c. if c = SQ then [SQ, SQ] else [c]) s) @ [SQ]"

definition hex_digit :: "nat \<Rightarrow> char" where
  "hex_digit n = (if n < 10 then char_of (48 + n) else char_of (55 + n))"

text \<open>\<open>strings.ToUpper(hex.EncodeToString(v))\<close>.\<close>

definition hex_upper :: "bytes \<Rightarrow> string" where
  "hex_upper bs = concat (map (\<lambda>b. [hex_digit (unat b div 16), hex_digit (unat b mod 16)]) bs)"

definition literal :: "(u64 \<Rightarrow> string) \<Rightarrow> named_value \<Rightarrow> string res" where
  "literal FormatFloat arg =
     (if nvName arg \<noteq> [] then Err (Errorf ''oceanbase: named parameters are not implemented'' [])
      else case nvValue arg of
        VNil \<Rightarrow> Ok ''NULL''
      | VInt v \<Rightarrow> Ok (FormatInt v)
      | VFloat v \<Rightarrow> Ok (FormatFloat v)
      | VBool v \<Rightarrow> Ok (if v then ''1'' else ''0'')
      | VBytes v \<Rightarrow> Ok (''hextoraw('' @ [SQ] @ hex_upper v @ [SQ] @ '')'')
      | VString v \<Rightarrow> Ok (quoteString v)
      | VTime v \<Rightarrow> Ok (''timestamp '' @ quoteString (time_Format v))
      | v \<Rightarrow> Err (Errorf ''oceanbase: unsupported parameter type %T'' [AStr (type_name v)]))"

definition not_enough :: go_error where
  "not_enough = Errorf ''oceanbase: not enough query arguments'' []"

definition too_many :: go_error where
  "too_many = Errorf ''oceanbase: too many query arguments'' []"

text \<open>
  The loop of \<open>interpolateParams\<close> over the rest of the query and the arguments not yet used;
  \<open>out\<close> is what was written.
\<close>

fun interpolate_loop ::
    "(u64 \<Rightarrow> string) \<Rightarrow> sqlState \<Rightarrow> string \<Rightarrow> named_value list \<Rightarrow> string \<Rightarrow> string res" where
  "interpolate_loop ff state [] args out = (if args \<noteq> [] then Err too_many else Ok out)"
| "interpolate_loop ff sqlNormal (ch # rest) args out =
     (if ch = SQ then interpolate_loop ff sqlSingleQuote rest args (out @ [ch])
      else if ch = DQ then interpolate_loop ff sqlDoubleQuote rest args (out @ [ch])
      else if ch = BQ then interpolate_loop ff sqlBacktick rest args (out @ [ch])
      else if ch = CHR ''#'' then interpolate_loop ff sqlLineComment rest args (out @ [ch])
      else if ch = CHR ''-'' then
        (case rest of
           c2 # rest2 \<Rightarrow>
             if c2 = CHR ''-'' then interpolate_loop ff sqlLineComment rest2 args (out @ ''--'')
             else interpolate_loop ff sqlNormal rest args (out @ [ch])
         | [] \<Rightarrow> interpolate_loop ff sqlNormal rest args (out @ [ch]))
      else if ch = CHR ''/'' then
        (case rest of
           c2 # rest2 \<Rightarrow>
             if c2 = CHR ''*'' then interpolate_loop ff sqlBlockComment rest2 args (out @ ''/*'')
             else interpolate_loop ff sqlNormal rest args (out @ [ch])
         | [] \<Rightarrow> interpolate_loop ff sqlNormal rest args (out @ [ch]))
      else if ch = CHR ''?'' then
        (case args of
           [] \<Rightarrow> Err not_enough
         | arg # args' \<Rightarrow>
             bind_res (literal ff arg) (\<lambda>lit. interpolate_loop ff sqlNormal rest args' (out @ lit)))
      else interpolate_loop ff sqlNormal rest args (out @ [ch]))"
| "interpolate_loop ff sqlSingleQuote (ch # rest) args out =
     (if ch = SQ then
        (case rest of
           c2 # rest2 \<Rightarrow>
             if c2 = SQ then interpolate_loop ff sqlSingleQuote rest2 args (out @ [ch, c2])
             else interpolate_loop ff sqlNormal rest args (out @ [ch])
         | [] \<Rightarrow> interpolate_loop ff sqlNormal rest args (out @ [ch]))
      else interpolate_loop ff sqlSingleQuote rest args (out @ [ch]))"
| "interpolate_loop ff sqlDoubleQuote (ch # rest) args out =
     interpolate_loop ff (if ch = DQ then sqlNormal else sqlDoubleQuote) rest args (out @ [ch])"
| "interpolate_loop ff sqlBacktick (ch # rest) args out =
     interpolate_loop ff (if ch = BQ then sqlNormal else sqlBacktick) rest args (out @ [ch])"
| "interpolate_loop ff sqlLineComment (ch # rest) args out =
     interpolate_loop ff (if ch = NL then sqlNormal else sqlLineComment) rest args (out @ [ch])"
| "interpolate_loop ff sqlBlockComment (ch # rest) args out =
     (if ch = CHR ''*'' then
        (case rest of
           c2 # rest2 \<Rightarrow>
             if c2 = CHR ''/'' then interpolate_loop ff sqlNormal rest2 args (out @ ''*/'')
             else interpolate_loop ff sqlBlockComment rest args (out @ [ch])
         | [] \<Rightarrow> interpolate_loop ff sqlBlockComment rest args (out @ [ch]))
      else interpolate_loop ff sqlBlockComment rest args (out @ [ch]))"

text \<open>The loop of \<open>countPlaceholders\<close>: the placeholders in the rest of the query.\<close>

fun count_loop :: "sqlState \<Rightarrow> string \<Rightarrow> nat" where
  "count_loop state [] = 0"
| "count_loop sqlNormal (ch # rest) =
     (if ch = SQ then count_loop sqlSingleQuote rest
      else if ch = DQ then count_loop sqlDoubleQuote rest
      else if ch = BQ then count_loop sqlBacktick rest
      else if ch = CHR ''#'' then count_loop sqlLineComment rest
      else if ch = CHR ''-'' then
        (case rest of
           c2 # rest2 \<Rightarrow> if c2 = CHR ''-'' then count_loop sqlLineComment rest2 else count_loop sqlNormal rest
         | [] \<Rightarrow> count_loop sqlNormal rest)
      else if ch = CHR ''/'' then
        (case rest of
           c2 # rest2 \<Rightarrow> if c2 = CHR ''*'' then count_loop sqlBlockComment rest2 else count_loop sqlNormal rest
         | [] \<Rightarrow> count_loop sqlNormal rest)
      else if ch = CHR ''?'' then Suc (count_loop sqlNormal rest)
      else count_loop sqlNormal rest)"
| "count_loop sqlSingleQuote (ch # rest) =
     (if ch = SQ then
        (case rest of
           c2 # rest2 \<Rightarrow> if c2 = SQ then count_loop sqlSingleQuote rest2 else count_loop sqlNormal rest
         | [] \<Rightarrow> count_loop sqlNormal rest)
      else count_loop sqlSingleQuote rest)"
| "count_loop sqlDoubleQuote (ch # rest) = count_loop (if ch = DQ then sqlNormal else sqlDoubleQuote) rest"
| "count_loop sqlBacktick (ch # rest) = count_loop (if ch = BQ then sqlNormal else sqlBacktick) rest"
| "count_loop sqlLineComment (ch # rest) = count_loop (if ch = NL then sqlNormal else sqlLineComment) rest"
| "count_loop sqlBlockComment (ch # rest) =
     (if ch = CHR ''*'' then
        (case rest of
           c2 # rest2 \<Rightarrow> if c2 = CHR ''/'' then count_loop sqlNormal rest2 else count_loop sqlBlockComment rest
         | [] \<Rightarrow> count_loop sqlBlockComment rest)
      else count_loop sqlBlockComment rest)"

definition countPlaceholders :: "string \<Rightarrow> nat" where
  "countPlaceholders query = count_loop sqlNormal query"

definition interpolateParams :: "(u64 \<Rightarrow> string) \<Rightarrow> string \<Rightarrow> named_value list \<Rightarrow> string res" where
  "interpolateParams ff query args =
     (if args = [] then (if 0 < countPlaceholders query then Err not_enough else Ok query)
      else interpolate_loop ff sqlNormal query args [])"

subsection \<open>The scanner\<close>

text \<open>
  One step of the scanner both loops share: how many characters it takes and the state after them.
  A placeholder is a question mark taken in the normal state.
\<close>

definition scan_step :: "sqlState \<Rightarrow> char \<Rightarrow> string \<Rightarrow> nat \<times> sqlState" where
  "scan_step st ch rest =
     (let next = (\<lambda>c. rest \<noteq> [] \<and> hd rest = c)
      in case st of
        sqlNormal \<Rightarrow>
          (if ch = SQ then (1, sqlSingleQuote)
           else if ch = DQ then (1, sqlDoubleQuote)
           else if ch = BQ then (1, sqlBacktick)
           else if ch = CHR ''#'' then (1, sqlLineComment)
           else if ch = CHR ''-'' \<and> next (CHR ''-'') then (2, sqlLineComment)
           else if ch = CHR ''/'' \<and> next (CHR ''*'') then (2, sqlBlockComment)
           else (1, sqlNormal))
      | sqlSingleQuote \<Rightarrow>
          (if ch = SQ then (if next SQ then (2, sqlSingleQuote) else (1, sqlNormal)) else (1, sqlSingleQuote))
      | sqlDoubleQuote \<Rightarrow> (1, if ch = DQ then sqlNormal else sqlDoubleQuote)
      | sqlBacktick \<Rightarrow> (1, if ch = BQ then sqlNormal else sqlBacktick)
      | sqlLineComment \<Rightarrow> (1, if ch = NL then sqlNormal else sqlLineComment)
      | sqlBlockComment \<Rightarrow>
          (if ch = CHR ''*'' \<and> next (CHR ''/'') then (2, sqlNormal) else (1, sqlBlockComment)))"

definition placeholder :: "sqlState \<Rightarrow> char \<Rightarrow> bool" where
  "placeholder st ch \<longleftrightarrow> st = sqlNormal \<and> ch = CHR ''?''"

lemma scan_step_cases:
  "scan_step st ch rest = (n, st') \<Longrightarrow> n = 1 \<or> n = 2 \<and> rest \<noteq> []"
  by (cases st) (auto simp: scan_step_def Let_def split: if_splits)

lemma scan_step_placeholder: "placeholder st ch \<Longrightarrow> scan_step st ch rest = (1, sqlNormal)"
  by (simp add: placeholder_def scan_step_def quote_chars Let_def)

lemma count_loop_step:
  "count_loop st (ch # rest) =
     (let (n, st') = scan_step st ch rest
      in (if placeholder st ch then 1 else 0) + count_loop st' (drop n (ch # rest)))"
proof (cases st)
  case sqlNormal
  show ?thesis
  proof (cases rest)
    case Nil
    with sqlNormal show ?thesis by (simp add: scan_step_def placeholder_def quote_chars)
  next
    case (Cons c2 r2)
    with sqlNormal show ?thesis
      by (cases "ch = CHR ''-''"; cases "ch = CHR ''/''")
        (simp_all add: scan_step_def placeholder_def quote_chars)
  qed
qed (cases rest; simp add: scan_step_def placeholder_def)+

lemma interpolate_loop_step:
  "interpolate_loop ff st (ch # rest) args out =
     (let (n, st') = scan_step st ch rest; tok = take n (ch # rest); rest' = drop n (ch # rest)
      in if placeholder st ch then
           (case args of [] \<Rightarrow> Err not_enough
            | a # as \<Rightarrow> bind_res (literal ff a) (\<lambda>lit. interpolate_loop ff st' rest' as (out @ lit)))
         else interpolate_loop ff st' rest' args (out @ tok))"
proof (cases st)
  case sqlNormal
  show ?thesis
  proof (cases rest)
    case Nil
    with sqlNormal show ?thesis by (simp add: scan_step_def placeholder_def quote_chars)
  next
    case (Cons c2 r2)
    with sqlNormal show ?thesis
      by (cases "ch = CHR ''-''"; cases "ch = CHR ''/''")
        (simp_all add: scan_step_def placeholder_def quote_chars)
  qed
qed (cases rest; simp add: scan_step_def placeholder_def)+

declare count_loop.simps [simp del] interpolate_loop.simps [simp del]

lemma loops_Nil [simp]:
  "count_loop st [] = 0"
  "interpolate_loop ff st [] args out = (if args \<noteq> [] then Err too_many else Ok out)"
  by (cases st; simp add: count_loop.simps interpolate_loop.simps)+

text \<open>Induction along the scanner.\<close>

lemma scan_induct [case_names Nil Step]:
  assumes "\<And>st. P st []"
    and "\<And>st ch rest n st'. scan_step st ch rest = (n, st') \<Longrightarrow> P st' (drop n (ch # rest)) \<Longrightarrow> P st (ch # rest)"
  shows "P st q"
proof (induction q arbitrary: st rule: length_induct)
  case (1 q)
  show ?case
  proof (cases q)
    case Nil
    then show ?thesis using assms(1) by simp
  next
    case (Cons ch rest)
    obtain n st' where step: "scan_step st ch rest = (n, st')" by fastforce
    have "length (drop n (ch # rest)) < length q"
      using scan_step_cases [OF step] Cons by auto
    with 1 step Cons assms(2) show ?thesis by blast
  qed
qed

subsection \<open>When interpolation succeeds\<close>

lemma interpolate_loop_ok_iff:
  "is_ok (interpolate_loop ff st q args out) \<longleftrightarrow>
     count_loop st q = length args \<and> (\<forall>a \<in> set args. is_ok (literal ff a))"
proof (induction st q arbitrary: args out rule: scan_induct)
  case (Nil st)
  then show ?case by simp
next
  case (Step st ch rest n st')
  show ?case
  proof (cases "placeholder st ch")
    case True
    show ?thesis
    proof (cases args)
      case Nil
      with True Step show ?thesis by (simp add: count_loop_step interpolate_loop_step)
    next
      case (Cons a as)
      with True Step show ?thesis
        by (cases "literal ff a") (simp_all add: count_loop_step interpolate_loop_step)
    qed
  next
    case False
    with Step show ?thesis by (simp add: count_loop_step interpolate_loop_step)
  qed
qed

text \<open>
  C28: interpolation succeeds exactly when the query has as many placeholders outside quotes and
  comments as there are arguments and every argument has a literal; the two scanners of the source
  agree on what a placeholder is.
\<close>

theorem interpolation_succeeds_iff:
  "is_ok (interpolateParams ff query args) \<longleftrightarrow>
     countPlaceholders query = length args \<and> list_all (\<lambda>a. is_ok (literal ff a)) args"
  by (cases "args = []")
    (auto simp: interpolateParams_def countPlaceholders_def interpolate_loop_ok_iff list_all_iff)

subsection \<open>Interpolated text keeps the lexical structure\<close>

text \<open>Scanning a text: the state at its end and the number of placeholders.\<close>

function scan :: "sqlState \<Rightarrow> string \<Rightarrow> sqlState \<times> nat" where
  "scan st [] = (st, 0)"
| "scan st (ch # rest) =
     (let (n, st') = scan_step st ch rest; (st'', k) = scan st' (drop n (ch # rest))
      in (st'', (if placeholder st ch then 1 else 0) + k))"
  by pat_completeness auto
termination
  by (relation "measure (\<lambda>(st, q). length q)") (auto dest!: sym [of "(_, _)"] scan_step_cases)

declare scan.simps(2) [simp del]

lemma count_loop_scan: "count_loop st q = snd (scan st q)"
proof (induction st q rule: scan_induct)
  case (Nil st)
  then show ?case by simp
next
  case (Step st ch rest n st')
  then show ?case by (simp add: count_loop_step scan.simps split: prod.splits)
qed

text \<open>
  A query whose placeholders do not touch a minus sign, a quote or another placeholder: such a
  neighbour could combine with the first or last character of a literal.
\<close>

function separated :: "sqlState \<Rightarrow> string \<Rightarrow> bool" where
  "separated st [] = True"
| "separated st (ch # rest) =
     (let (n, st') = scan_step st ch rest; r = drop n (ch # rest)
      in (st' = sqlNormal \<and> (ch \<in> {SQ, CHR ''-''} \<or> placeholder st ch) \<longrightarrow> r = [] \<or> hd r \<noteq> CHR ''?'') \<and>
         (placeholder st ch \<longrightarrow> r = [] \<or> hd r \<noteq> SQ) \<and> separated st' r)"
  by pat_completeness auto
termination
  by (relation "measure (\<lambda>(st, q). length q)") (auto dest!: sym [of "(_, _)"] scan_step_cases)

declare separated.simps(2) [simp del]

text \<open>Characters that keep the scanner in the normal state, whatever follows.\<close>

definition plain :: "char \<Rightarrow> bool" where
  "plain c \<longleftrightarrow> c \<notin> {SQ, DQ, BQ, CHR ''#'', CHR ''-'', CHR ''/'', CHR ''?'', CHR ''*''}"

text \<open>The shape of a printed number: every minus sign is followed by another character.\<close>

fun number_text :: "string \<Rightarrow> bool" where
  "number_text [] = True"
| "number_text (c # cs) =
     (if c = CHR ''-'' then cs \<noteq> [] \<and> hd cs \<noteq> CHR ''-'' \<and> number_text cs else plain c \<and> number_text cs)"

lemma scan_number: "number_text xs \<Longrightarrow> scan sqlNormal (xs @ r) = scan sqlNormal r"
proof (induction xs)
  case Nil
  then show ?case by simp
next
  case (Cons c cs)
  have "scan_step sqlNormal c (cs @ r) = (1, sqlNormal)"
    using Cons.prems by (auto simp: scan_step_def plain_def quote_chars Let_def split: if_splits)
  moreover have "\<not> placeholder sqlNormal c"
    using Cons.prems by (auto simp: placeholder_def plain_def split: if_splits)
  ultimately show ?case
    using Cons by (simp add: scan.simps split: if_splits prod.splits)
qed

lemma number_text_plain: "list_all plain xs \<Longrightarrow> number_text xs"
  by (induction xs) (auto simp: plain_def)

lemmas scan_plain = scan_number [OF number_text_plain]

lemma plain_digit: "is_digit c \<Longrightarrow> plain c"
  by (auto simp: is_digit_def plain_def quote_chars less_eq_char_def)

lemma number_text_FormatInt: "number_text (FormatInt i)"
proof -
  have p: "list_all plain (dec n)" and ne: "dec n \<noteq> []" for n
    using dec_digits [of n] plain_digit by (auto simp: all_digits_def list_all_iff)
  have "hd (dec n) \<noteq> CHR ''-''" for n using hd_digit [OF dec_digits] by blast
  with p ne show ?thesis
    by (auto simp: FormatInt_def intro: number_text_plain)
qed

lemma FormatInt_nonempty: "FormatInt i \<noteq> []"
  using dec_digits by (auto simp: FormatInt_def all_digits_def)

lemma scan_quote_body:
  assumes "r = [] \<or> hd r \<noteq> SQ"
  shows "scan sqlSingleQuote (concat (map (\<lambda>c. if c = SQ then [SQ, SQ] else [c]) s) @ SQ # r) = scan sqlNormal r"
proof (induction s)
  case Nil
  have "scan_step sqlSingleQuote SQ r = (1, sqlNormal)" using assms by (auto simp: scan_step_def Let_def)
  then show ?case by (simp add: scan.simps placeholder_def split: prod.splits)
next
  case (Cons c s)
  show ?case
  proof (cases "c = SQ")
    case True
    have "scan_step sqlSingleQuote SQ (SQ # t) = (2, sqlSingleQuote)" for t by (simp add: scan_step_def Let_def)
    with True Cons show ?thesis by (simp add: scan.simps placeholder_def split: prod.splits)
  next
    case False
    have "scan_step sqlSingleQuote c t = (1, sqlSingleQuote)" for t
      using False by (simp add: scan_step_def Let_def)
    with False Cons show ?thesis by (simp add: scan.simps placeholder_def split: prod.splits)
  qed
qed

lemma scan_quoteString:
  assumes "r = [] \<or> hd r \<noteq> SQ"
  shows "scan sqlNormal (quoteString s @ r) = scan sqlNormal r"
proof -
  have "scan_step sqlNormal SQ t = (1, sqlSingleQuote)" for t by (simp add: scan_step_def Let_def)
  moreover have "\<not> placeholder sqlNormal SQ" by (simp add: placeholder_def quote_chars)
  ultimately show ?thesis
    using scan_quote_body [OF assms, of s] by (simp add: quoteString_def scan.simps split: prod.splits)
qed

lemma hex_upper_no_quote: "SQ \<notin> set (hex_upper bs)"
proof -
  have "hex_digit n \<noteq> SQ" if "n < 16" for n
  proof
    assume "hex_digit n = SQ"
    then have "(of_char (hex_digit n) :: nat) = 39" by (simp add: SQ_def)
    with that show False by (simp add: hex_digit_def split: if_splits)
  qed
  moreover have "unat b div 16 < 16" for b :: byte
    using unsigned_less [of b] by (simp add: div_less_iff_less_mult)
  moreover have "unat b mod 16 < 16" for b :: byte by simp
  ultimately have "SQ \<notin> set [hex_digit (unat b div 16), hex_digit (unat b mod 16)]" for b :: byte
    by (metis empty_iff empty_set set_ConsD)
  then show ?thesis by (simp add: hex_upper_def)
qed

lemma quoteString_plain: "SQ \<notin> set s \<Longrightarrow> quoteString s = SQ # s @ [SQ]"
proof -
  assume "SQ \<notin> set s"
  then have "concat (map (\<lambda>c. if c = SQ then [SQ, SQ] else [c]) s) = s" by (induction s) auto
  then show ?thesis by (simp add: quoteString_def)
qed

text \<open>Every literal is neutral for the scanner and starts with a harmless character.\<close>

lemma literal_neutral:
  assumes floats: "\<forall>v. ff v \<noteq> [] \<and> number_text (ff v)" and lit: "literal ff a = Ok lit"
    and r: "r = [] \<or> hd r \<noteq> SQ"
  shows "scan sqlNormal (lit @ r) = scan sqlNormal r" and "lit \<noteq> []" and "hd lit \<noteq> CHR ''*''"
proof -
  have star: "hd xs \<noteq> CHR ''*''" if "number_text xs" "xs \<noteq> []" for xs
    using that by (cases xs) (auto simp: plain_def split: if_splits)
  have plains: "list_all plain ''NULL''" "list_all plain ''hextoraw(''" "list_all plain '')''"
    "list_all plain ''timestamp ''" "list_all plain ''1''" "list_all plain ''0''"
    by (simp_all add: plain_def quote_chars)
  have hex: "scan sqlNormal ((''hextoraw('' @ quoteString x @ '')'') @ r) = scan sqlNormal r" for x
    using scan_plain [OF plains(2), of "quoteString x @ '')'' @ r"] scan_quoteString [of "'')'' @ r" x]
      scan_plain [OF plains(3), of r] by (simp add: SQ_def)
  have ts: "scan sqlNormal ((''timestamp '' @ quoteString x) @ r) = scan sqlNormal r" for x
    using scan_plain [OF plains(4), of "quoteString x @ r"] scan_quoteString [OF r, of x] by simp
  have q: "hd (quoteString x) = SQ" "quoteString x \<noteq> []" for x by (simp_all add: quoteString_def)
  from lit have "scan sqlNormal (lit @ r) = scan sqlNormal r \<and> lit \<noteq> [] \<and> hd lit \<noteq> CHR ''*''"
  proof (cases "nvValue a")
    case (VInt i)
    with lit have "lit = FormatInt i" by (simp add: literal_def split: if_splits)
    with scan_number number_text_FormatInt FormatInt_nonempty star show ?thesis by simp
  next
    case (VFloat v)
    with lit have "lit = ff v" by (simp add: literal_def split: if_splits)
    with scan_number floats star show ?thesis by simp
  next
    case (VBytes b)
    with lit have "lit = ''hextoraw('' @ quoteString (hex_upper b) @ '')''"
      by (simp add: literal_def quoteString_plain hex_upper_no_quote split: if_splits)
    with hex show ?thesis by simp
  next
    case (VString x)
    with lit have "lit = quoteString x" by (simp add: literal_def split: if_splits)
    with scan_quoteString [OF r] q show ?thesis by (simp add: SQ_def)
  next
    case (VTime t)
    with lit have "lit = ''timestamp '' @ quoteString (time_Format t)" by (simp add: literal_def split: if_splits)
    with ts show ?thesis by simp
  next
    case VNil
    with lit have "lit = ''NULL''" by (simp add: literal_def split: if_splits)
    with scan_plain [OF plains(1)] show ?thesis by simp
  next
    case (VBool v)
    with lit have "lit = (if v then ''1'' else ''0'')" by (simp add: literal_def split: if_splits)
    with scan_plain [OF plains(5)] scan_plain [OF plains(6)] show ?thesis by simp
  qed (simp_all add: literal_def split: if_splits)
  then show "scan sqlNormal (lit @ r) = scan sqlNormal r" and "lit \<noteq> []" and "hd lit \<noteq> CHR ''*''" by auto
qed

text \<open>The step only looks at the next character, and only at a few.\<close>

lemma scan_step_cong:
  assumes "scan_step st ch rest = (1, st')" and "rest = [] \<longleftrightarrow> rest2 = []"
    and "rest \<noteq> [] \<Longrightarrow> hd rest2 = hd rest \<or>
      st' = sqlNormal \<and> ch \<notin> {SQ, CHR ''-''} \<and> hd rest2 \<noteq> CHR ''*''"
  shows "scan_step st ch rest2 = (1, st')"
  using assms by (cases st) (auto simp: scan_step_def Let_def split: if_splits)

lemma interpolate_loop_structure:
  assumes floats: "\<forall>v. ff v \<noteq> [] \<and> number_text (ff v)"
  shows "separated st q \<Longrightarrow> interpolate_loop ff st q args out = Ok res \<Longrightarrow>
    \<exists>r. res = out @ r \<and> scan st r = (fst (scan st q), 0) \<and> (r = [] \<longleftrightarrow> q = []) \<and>
      (q \<noteq> [] \<longrightarrow> (if placeholder st (hd q) then hd r \<noteq> CHR ''*'' else hd r = hd q))"
proof (induction st q arbitrary: args out rule: scan_induct)
  case (Nil st)
  then show ?case by (simp split: if_splits)
next
  case (Step st ch rest n st')
  let ?tok = "take n (ch # rest)" and ?q = "drop n (ch # rest)"
  note step = Step.hyps
  have sep: "separated st' ?q"
    and touch: "st' = sqlNormal \<and> (ch \<in> {SQ, CHR ''-''} \<or> placeholder st ch) \<Longrightarrow> ?q = [] \<or> hd ?q \<noteq> CHR ''?''"
    and quote: "placeholder st ch \<Longrightarrow> ?q = [] \<or> hd ?q \<noteq> SQ"
    using Step.prems(1) unfolding separated.simps step Let_def prod.case by blast+
  show ?case
  proof (cases "placeholder st ch")
    case True
    have st: "st = sqlNormal" "st' = sqlNormal" "n = 1" "?q = rest"
      using True scan_step_placeholder [OF True] step by (auto simp: placeholder_def)
    from Step.prems(2) True obtain a as lit where lit: "literal ff a = Ok lit"
      and rec: "interpolate_loop ff st' ?q as (out @ lit) = Ok res"
      by (auto simp: interpolate_loop_step step split: list.splits)
    from Step.IH [OF sep rec] obtain r where r: "res = out @ lit @ r"
      "scan st' r = (fst (scan st' ?q), 0)" "r = [] \<longleftrightarrow> ?q = []"
      "?q \<noteq> [] \<Longrightarrow> (if placeholder st' (hd ?q) then hd r \<noteq> CHR ''*'' else hd r = hd ?q)"
      by auto
    have "r = [] \<or> hd r \<noteq> SQ"
      using touch quote True r(3,4) st by (auto simp: placeholder_def split: if_splits)
    note neutral = literal_neutral [OF floats lit this]
    have "scan st (lit @ r) = (fst (scan st (ch # rest)), 0)"
      using neutral(1) r(2) True st step by (auto simp: scan.simps split: prod.splits)
    with r(1) neutral True show ?thesis by (intro exI [of _ "lit @ r"]) simp
  next
    case False
    from Step.prems(2) False have rec: "interpolate_loop ff st' ?q args (out @ ?tok) = Ok res"
      by (simp add: interpolate_loop_step step)
    from Step.IH [OF sep rec] obtain r where r: "res = out @ ?tok @ r"
      "scan st' r = (fst (scan st' ?q), 0)" "r = [] \<longleftrightarrow> ?q = []"
      "?q \<noteq> [] \<Longrightarrow> (if placeholder st' (hd ?q) then hd r \<noteq> CHR ''*'' else hd r = hd ?q)"
      by auto
    obtain tl_tok where tok: "?tok = ch # tl_tok" and len: "length tl_tok = n - 1"
      using scan_step_cases [OF step] by (cases n; cases rest) auto
    have again: "scan_step st ch (tl_tok @ r) = (n, st')"
      using scan_step_cases [OF step]
    proof
      assume n: "n = 1"
      then have q: "?q = rest" "tl_tok = []" using len by simp_all
      show ?thesis
        unfolding q(2) n append_Nil
      proof (rule scan_step_cong [OF step [unfolded n]])
        show "rest = [] \<longleftrightarrow> r = []" using r(3) q by simp
        show "hd r = hd rest \<or> st' = sqlNormal \<and> ch \<notin> {SQ, CHR ''-''} \<and> hd r \<noteq> CHR ''*''" if "rest \<noteq> []"
          using that r(4) q touch by (auto simp: placeholder_def split: if_splits)
      qed
    next
      assume n: "n = 2 \<and> rest \<noteq> []"
      then obtain c2 r2 where rest: "rest = c2 # r2" by (cases rest) auto
      then have "tl_tok = [c2]" using tok n by simp
      then show ?thesis
        using step n rest by (cases st) (auto simp: scan_step_def Let_def split: if_splits)
    qed
    have "drop n (ch # tl_tok @ r) = r" using tok len scan_step_cases [OF step] by (cases n) auto
    then have "scan st (?tok @ r) = (fst (scan st (ch # rest)), 0)"
      using again r(2) False by (simp add: tok scan.simps step split: prod.splits)
    with r(1) False show ?thesis by (intro exI [of _ "?tok @ r"]) (simp add: tok)
  qed
qed

text \<open>
  C12: interpolation cannot change the lexical structure of a query.  When the placeholders touch
  no minus sign, quote or other placeholder, and floats are printed as numbers, then scanning the
  interpolated text ends in the same state as scanning the query (inside no string or comment the
  query was not inside) and finds no placeholder, whatever the argument values are.
\<close>

theorem interpolation_keeps_structure:
  assumes "\<forall>v. ff v \<noteq> [] \<and> number_text (ff v)" and "separated sqlNormal query"
    and "interpolateParams ff query args = Ok text"
  shows "scan sqlNormal text = (fst (scan sqlNormal query), 0)"
proof (cases "args = []")
  case True
  with assms(3) have "text = query" "count_loop sqlNormal query = 0"
    by (auto simp: interpolateParams_def countPlaceholders_def split: if_splits)
  then show ?thesis by (metis count_loop_scan prod.collapse)
next
  case False
  with assms(3) have "interpolate_loop ff sqlNormal query args [] = Ok text" by (simp add: interpolateParams_def)
  from interpolate_loop_structure [OF assms(1,2) this] show ?thesis by auto
qed

lemma FormatInt_minus3: "FormatInt (- 3) = ''-3''"
  by code_simp

text \<open>A query with two placeholders and hostile argument values.\<close>

definition sample_args :: "named_value list" where
  "sample_args =
     [\<lparr>nvName = [], nvOrdinal = 1, nvValue = VString (SQ # '' OR 1=1 --'')\<rparr>,
      \<lparr>nvName = [], nvOrdinal = 2, nvValue = VInt (- 3)\<rparr>]"

theorem interpolation_keeps_structure_witness:
  "scan sqlNormal (''select ('' @ [SQ, SQ, SQ] @ '' OR 1=1 --'' @ [SQ] @ '', -3)'') = (sqlNormal, 0)"
proof -
  let ?q = "''select (?, ?)''" and ?ff = "\<lambda>_ :: u64. ''0''"
  have out: "interpolateParams ?ff ?q sample_args =
      Ok (''select ('' @ [SQ, SQ, SQ] @ '' OR 1=1 --'' @ [SQ] @ '', -3)'')"
    by (simp add: interpolateParams_def interpolate_loop_step scan_step_def placeholder_def quote_chars
        sample_args_def literal_def quoteString_def FormatInt_minus3)
  have sep: "separated sqlNormal ?q" and fin: "fst (scan sqlNormal ?q) = sqlNormal"
    by (simp_all add: separated.simps scan.simps scan_step_def placeholder_def quote_chars)
  have ff: "\<forall>v. ?ff v \<noteq> [] \<and> number_text (?ff v)" by (simp add: plain_def quote_chars)
  from interpolation_keeps_structure [OF ff sep out] fin show ?thesis by simp
qed

subsection \<open>A placeholder after a minus sign\<close>

text \<open>What follows a text starts with a minus sign and does not change how the text is scanned.\<close>

lemma scan_step_minus:
  assumes "rest = [] \<longrightarrow> ch \<noteq> CHR ''-''"
  shows "scan_step st ch (rest @ CHR ''-'' # r) = scan_step st ch rest"
  using assms by (cases rest; cases st) (auto simp: scan_step_def quote_chars Let_def)

lemma last_drop_or_Nil: "xs = [] \<or> last xs \<noteq> c \<Longrightarrow> drop n xs = [] \<or> last (drop n xs) \<noteq> c"
  by (cases "n < length xs") (auto simp: last_drop)

lemma scan_Step:
  "scan_step st ch rest = (n, st') \<Longrightarrow>
   scan st (ch # rest) =
     (fst (scan st' (drop n (ch # rest))), (if placeholder st ch then 1 else 0) + snd (scan st' (drop n (ch # rest))))"
  by (simp add: scan.simps(2) split: prod.splits)

lemma scan_before_minus:
  assumes "q = [] \<or> last q \<noteq> CHR ''-''"
  shows "scan st (q @ CHR ''-'' # r) =
    (fst (scan (fst (scan st q)) (CHR ''-'' # r)), snd (scan st q) + snd (scan (fst (scan st q)) (CHR ''-'' # r)))"
  using assms
proof (induction st q rule: scan_induct)
  case (Nil st)
  then show ?case by simp
next
  case (Step st ch rest n st')
  have n: "n \<le> length (ch # rest)" using scan_step_cases [OF Step(1)] by (cases rest) auto
  have "scan_step st ch (rest @ CHR ''-'' # r) = (n, st')"
    using Step.prems Step(1) by (subst scan_step_minus) auto
  moreover have "drop n (ch # rest @ CHR ''-'' # r) = drop n (ch # rest) @ CHR ''-'' # r"
    using n drop_append [of n "ch # rest" "CHR ''-'' # r"] by simp
  ultimately show ?case
    using Step.IH [OF last_drop_or_Nil [OF Step.prems]]
    by (simp only: append_Cons scan_Step [OF Step(1)] scan_Step fst_conv snd_conv add.assoc)
qed

lemma interpolate_before_minus:
  assumes "q = [] \<or> last q \<noteq> CHR ''-''" and "snd (scan st q) = 0"
  shows "interpolate_loop ff st (q @ CHR ''-'' # r) args out =
    interpolate_loop ff (fst (scan st q)) (CHR ''-'' # r) args (out @ q)"
  using assms
proof (induction st q arbitrary: out rule: scan_induct)
  case (Nil st)
  then show ?case by simp
next
  case (Step st ch rest n st')
  have n: "n \<le> length (ch # rest)" using scan_step_cases [OF Step(1)] by (cases rest) auto
  have "scan_step st ch (rest @ CHR ''-'' # r) = (n, st')"
    using Step.prems(1) Step(1) by (subst scan_step_minus) auto
  moreover have "drop n (ch # rest @ CHR ''-'' # r) = drop n (ch # rest) @ CHR ''-'' # r"
    "take n (ch # rest @ CHR ''-'' # r) = take n (ch # rest)"
    using n drop_append [of n "ch # rest" "CHR ''-'' # r"] take_append [of n "ch # rest" "CHR ''-'' # r"] by simp_all
  moreover have no: "\<not> placeholder st ch" "snd (scan st' (drop n (ch # rest))) = 0"
    using Step.prems(2) by (auto simp: scan_Step [OF Step(1)] split: if_splits)
  moreover have "(out @ take n (ch # rest)) @ drop n (ch # rest) = out @ ch # rest" by (simp del: drop_Cons')
  ultimately show ?case
    using Step.IH [OF last_drop_or_Nil [OF Step.prems(1)] no(2), of "out @ take n (ch # rest)"]
    by (simp only: append_Cons interpolate_loop_step Let_def prod.case scan_Step [OF Step(1)] fst_conv if_False)
qed

lemma interpolate_loop_extends:
  "interpolate_loop ff st q args out = Ok text \<Longrightarrow> \<exists>more. text = out @ more"
proof (induction st q arbitrary: args out rule: scan_induct)
  case (Nil st)
  then show ?case by (simp split: if_splits)
next
  case (Step st ch rest n st')
  show ?case
  proof (cases "placeholder st ch")
    case True
    with Step.prems Step(1) obtain lit as where "interpolate_loop ff st' (drop n (ch # rest)) as (out @ lit) = Ok text"
      by (auto simp: interpolate_loop_step split: list.splits)
    from Step.IH [OF this] show ?thesis by auto
  next
    case False
    with Step.prems Step(1) have "interpolate_loop ff st' (drop n (ch # rest)) args (out @ take n (ch # rest)) = Ok text"
      by (simp add: interpolate_loop_step)
    from Step.IH [OF this] show ?thesis by auto
  qed
qed

lemma scan_line_comment: "NL \<notin> set x \<Longrightarrow> scan sqlLineComment x = (sqlLineComment, 0)"
  by (induction x) (auto simp: scan.simps(2) scan_step_def placeholder_def)

text \<open>
  C35: a placeholder right after a minus sign is not safe.  In every query whose first placeholder
  directly follows a minus sign that is not itself part of a comment or string, a negative integer
  argument puts two minus signs next to each other.  The query up to the placeholder leaves the
  scanner in the normal state, but the interpolated text from the two signs to the next newline, and
  with it the argument and the rest of the line, is a line comment.
\<close>

theorem interpolation_minus_comment:
  assumes "scan sqlNormal before = (sqlNormal, 0)" and "before = [] \<or> last before \<noteq> CHR ''-''"
    and "nvValue arg = VInt n" and "n < 0"
    and "interpolateParams ff (before @ ''-?'' @ rest) (arg # args) = Ok text"
  shows "scan sqlNormal (before @ ''-?'') = (sqlNormal, 1) \<and>
    (\<exists>more. text = before @ ''-'' @ FormatInt n @ more \<and>
      (\<forall>line later. FormatInt n @ more = CHR ''-'' # line @ later \<and> NL \<notin> set line \<longrightarrow>
        scan sqlNormal (before @ ''--'' @ line) = (sqlLineComment, 0)))"
proof (intro conjI)
  show "scan sqlNormal (before @ ''-?'') = (sqlNormal, 1)"
    using scan_before_minus [OF assms(2), of sqlNormal "''?''"] assms(1)
    by (simp add: scan.simps(2) scan_step_def placeholder_def quote_chars)
  have "interpolate_loop ff sqlNormal rest args (before @ ''-'' @ FormatInt n) = Ok text"
    using interpolate_before_minus [OF assms(2), of sqlNormal ff "CHR ''?'' # rest" "arg # args" "[]"] assms
    by (simp add: interpolateParams_def interpolate_loop_step scan_step_def placeholder_def quote_chars literal_def
        split: if_splits)
  from interpolate_loop_extends [OF this] obtain more where eq: "text = before @ ''-'' @ FormatInt n @ more" by auto
  have "scan sqlNormal (before @ ''--'' @ line) = (sqlLineComment, 0)" if "NL \<notin> set line" for line
    using scan_before_minus [OF assms(2), of sqlNormal "CHR ''-'' # line"] assms(1) scan_line_comment [OF that]
    by (simp add: scan.simps(2) [of sqlNormal] scan_step_def placeholder_def quote_chars)
  with eq show "\<exists>more. text = before @ ''-'' @ FormatInt n @ more \<and>
      (\<forall>line later. FormatInt n @ more = CHR ''-'' # line @ later \<and> NL \<notin> set line \<longrightarrow>
        scan sqlNormal (before @ ''--'' @ line) = (sqlLineComment, 0))"
    by blast
qed

theorem interpolation_minus_comment_witness:
  "scan sqlNormal ''select 5-?'' = (sqlNormal, 1) \<and>
   interpolateParams (\<lambda>_. ''0'') ''select 5-?, name from t'' [\<lparr>nvName = [], nvOrdinal = 1, nvValue = VInt (- 3)\<rparr>] =
     Ok ''select 5--3, name from t'' \<and>
   scan sqlNormal ''select 5--3, name from t'' = (sqlLineComment, 0)"
proof -
  let ?arg = "\<lparr>nvName = [], nvOrdinal = 1, nvValue = VInt (- 3)\<rparr>" and ?ff = "\<lambda>_ :: u64. ''0''"
  have run: "interpolateParams ?ff ''select 5-?, name from t'' [?arg] = Ok ''select 5--3, name from t''"
    by (simp add: interpolateParams_def interpolate_loop_step scan_step_def placeholder_def quote_chars literal_def
        FormatInt_minus3)
  have start: "scan sqlNormal ''select 5'' = (sqlNormal, 0)"
    by (simp add: scan.simps scan_step_def placeholder_def quote_chars)
  have "scan sqlNormal (''select 5'' @ ''-?'') = (sqlNormal, 1) \<and>
    (\<exists>more. ''select 5--3, name from t'' = ''select 5'' @ ''-'' @ FormatInt (- 3) @ more \<and>
      (\<forall>line later. FormatInt (- 3) @ more = CHR ''-'' # line @ later \<and> NL \<notin> set line \<longrightarrow>
        scan sqlNormal (''select 5'' @ ''--'' @ line) = (sqlLineComment, 0)))"
    by (rule interpolation_minus_comment [OF start, of ?arg "- 3" ?ff "'', name from t''" "[]"]) (simp_all add: run)
  then have "scan sqlNormal (''select 5'' @ ''-?'') = (sqlNormal, 1)"
    "\<forall>line later. ''3, name from t'' = line @ later \<and> NL \<notin> set line \<longrightarrow>
        scan sqlNormal (''select 5'' @ ''--'' @ line) = (sqlLineComment, 0)"
    by (auto simp: FormatInt_minus3)
  moreover from this(2) [rule_format, of "''3, name from t''" "[]"]
  have "scan sqlNormal ''select 5--3, name from t'' = (sqlLineComment, 0)" by (simp add: quote_chars)
  ultimately show ?thesis using run by simp
qed

end
