(* ===== verification/Text_Rows.thy ===== *)
theory Text_Rows
  imports Binary Params
begin

text \<open>
  The parts of \<open>rows.go\<close> that look at one packet: the recognition of OK, EOF and result-set
  terminators, column definitions, the text protocol's rows and the column type tables.
  \<open>strconv.ParseFloat(s, 64)\<close> is a parameter of the text conversion; \<open>time.ParseInLocation\<close> is
  modelled for the three layouts the driver tries.
\<close>

subsection \<open>Packet classification\<close>

definition maxDrainRows :: nat where "maxDrainRows = 10000"
definition maxResultColumns :: nat where "maxResultColumns = 10000"
definition notNullFlag :: u16 where "notNullFlag = 1"

text \<open>The status flags and whether the packet is a well-formed OK packet with that header.\<close>

definition packetStatusFlags :: "bytes \<Rightarrow> byte \<Rightarrow> bool \<Rightarrow> u16 \<times> bool" where
  "packetStatusFlags packet header sessionTrack =
     (if packet = [] \<or> packet ! 0 \<noteq> header then (0, False)
      else case ReadLengthEncodedInt (drop 1 packet) of
        Ok (_, used1, _) \<Rightarrow>
          (let pos = 1 + used1
           in case ReadLengthEncodedInt (drop pos packet) of
                Ok (_, used2, _) \<Rightarrow>
                  (let pos = pos + used2
                   in if length packet < pos + 4 then (0, False)
                      else
                        let status = le_word (subslice pos (pos + 2) packet); pos = pos + 4
                        in if pos = length packet then (status, True)
                           else if \<not> sessionTrack then (status, True)
                           else case ReadLengthEncodedString (drop pos packet) of
                             Ok (_, used3, _) \<Rightarrow>
                               (let pos = pos + used3
                                in if status AND ServerSessionStateChanged \<noteq> 0 then
                                     (case ReadLengthEncodedString (drop pos packet) of
                                        Ok (_, used4, _) \<Rightarrow> (status, pos + used4 = length packet)
                                      | _ \<Rightarrow> (0, False))
                                   else (status, pos = length packet))
                           | _ \<Rightarrow> (0, False))
              | _ \<Rightarrow> (0, False))
      | _ \<Rightarrow> (0, False))"

definition isOKPacketWithHeader :: "bytes \<Rightarrow> byte \<Rightarrow> bool \<Rightarrow> bool" where
  "isOKPacketWithHeader packet header sessionTrack = snd (packetStatusFlags packet header sessionTrack)"

definition isEOFPacket :: "bytes \<Rightarrow> bool" where
  "isEOFPacket packet \<longleftrightarrow> (length packet = 1 \<or> length packet = 5) \<and> packet ! 0 = EOFPacket"

definition isOKPacket :: "bytes \<Rightarrow> bool \<Rightarrow> bool" where
  "isOKPacket packet sessionTrack = isOKPacketWithHeader packet OKPacket sessionTrack"

definition isResultSetOKPacket :: "bytes \<Rightarrow> bool \<Rightarrow> bool" where
  "isResultSetOKPacket packet sessionTrack = isOKPacketWithHeader packet EOFPacket sessionTrack"

definition isResultSetTerminatorPacket :: "bytes \<Rightarrow> bool \<Rightarrow> bool" where
  "isResultSetTerminatorPacket packet sessionTrack \<longleftrightarrow>
     isEOFPacket packet \<or> isResultSetOKPacket packet sessionTrack"

definition isResultSetTerminatorForMode :: "bytes \<Rightarrow> bool \<Rightarrow> bool \<Rightarrow> bool" where
  "isResultSetTerminatorForMode packet resultSetOK sessionTrack =
     (if resultSetOK then isResultSetOKPacket packet sessionTrack else isEOFPacket packet)"

definition isEOFOrOK :: "bytes \<Rightarrow> bool \<Rightarrow> bool" where
  "isEOFOrOK packet sessionTrack =
     (if packet = [] then False
      else if packet ! 0 = ErrPacket then False
      else if packet ! 0 = OKPacket then isOKPacket packet sessionTrack
      else if packet ! 0 = EOFPacket then isResultSetTerminatorPacket packet sessionTrack
      else False)"

definition resultSetTerminatorHasMoreResults :: "bytes \<Rightarrow> bool \<Rightarrow> bool" where
  "resultSetTerminatorHasMoreResults packet sessionTrack =
     (if isEOFPacket packet then
        (if length packet < 5 then False
         else le_word (subslice 3 5 packet) AND ServerMoreResultsExists \<noteq> 0)
      else
        let (status, ok) = packetStatusFlags packet EOFPacket sessionTrack
        in ok \<and> status AND ServerMoreResultsExists \<noteq> 0)"

subsection \<open>Column definitions\<close>

record columnDef =
  cdName :: string
  cdTyp :: byte
  cdFlags :: u16
  cdDecimals :: byte
  cdColumnLength :: u32
  cdCharset :: u16

text \<open>Skipping \<open>n\<close> length-encoded strings: the position after them.\<close>

fun skip_strings :: "nat \<Rightarrow> bytes \<Rightarrow> nat \<Rightarrow> nat res" where
  "skip_strings 0 packet pos = Ok pos"
| "skip_strings (Suc n) packet pos =
     bind_res (ReadLengthEncodedString (drop pos packet)) (\<lambda>(_, used, _).
       skip_strings n packet (pos + used))"

definition parseColumnDefinition :: "bytes \<Rightarrow> columnDef res" where
  "parseColumnDefinition packet =
     bind_res (skip_strings 4 packet 0) (\<lambda>pos.
     bind_res (ReadLengthEncodedString (drop pos packet)) (\<lambda>(nameBytes, used, _).
     bind_res (skip_strings 1 packet (pos + used)) (\<lambda>pos.
       if length packet < pos + 13 then Err UnexpectedEOF
       else Ok \<lparr>cdName = string_of nameBytes,
                cdTyp = packet ! (pos + 7),
                cdFlags = le_word (subslice (pos + 8) (pos + 10) packet),
                cdDecimals = packet ! (pos + 10),
                cdColumnLength = le_word (subslice (pos + 3) (pos + 7) packet),
                cdCharset = le_word (subslice (pos + 1) (pos + 3) packet)\<rparr>)))"

subsection \<open>Dates in text rows\<close>

text \<open>
  \<open>time.ParseInLocation\<close> for the layouts of \<open>textValue\<close>.  The two layouts with a time of day
  accept the same strings: a fraction may follow the seconds whether or not the layout has one.
  \<open>getnum\<close> reads two digits, or one where the layout does not ask for a leading zero (the hour).
\<close>

definition getnum :: "bool \<Rightarrow> string \<Rightarrow> (int \<times> string) option" where
  "getnum fixed s =
     (case s of
        a # b # rest \<Rightarrow>
          if \<not> is_digit a then None
          else if is_digit b then Some (int (digit_val a * 10 + digit_val b), rest)
          else if fixed then None else Some (int (digit_val a), b # rest)
      | [a] \<Rightarrow> if is_digit a \<and> \<not> fixed then Some (int (digit_val a), []) else None
      | [] \<Rightarrow> None)"

definition year4 :: "string \<Rightarrow> (int \<times> string) option" where
  "year4 s =
     (if length s < 4 \<or> \<not> all_digits (take 4 s) then None
      else Some (int (dec_val (take 4 s)), drop 4 s))"

definition skip_char :: "char \<Rightarrow> string \<Rightarrow> string option" where
  "skip_char c s = (if s \<noteq> [] \<and> hd s = c then Some (tl s) else None)"

text \<open>A space of the layout stands for the spaces of the value; it needs one unless the value is at its end.\<close>

definition skip_spaces :: "string \<Rightarrow> string option" where
  "skip_spaces s =
     (if s \<noteq> [] \<and> hd s \<noteq> CHR '' '' then None else Some (dropWhile (\<lambda>c. c = CHR '' '') s))"

text \<open>The fraction: the digits behind a period or comma, of which nine count.\<close>

definition parse_fraction :: "string \<Rightarrow> int \<times> string" where
  "parse_fraction s =
     (if 2 \<le> length s \<and> (s ! 0 = CHR ''.'' \<or> s ! 0 = CHR '','') \<and> is_digit (s ! 1) then
        let digits = takeWhile is_digit (tl s); used = take 9 digits
        in (int (dec_val used * 10 ^ (9 - length used)), drop (length digits) (tl s))
      else (0, s))"

definition parse_date :: "string \<Rightarrow> ((int \<times> int \<times> int) \<times> string) option" where
  "parse_date s =
     Option.bind (year4 s) (\<lambda>(year, s).
     Option.bind (skip_char (CHR ''-'') s) (\<lambda>s.
     Option.bind (getnum True s) (\<lambda>(month, s).
     Option.bind (skip_char (CHR ''-'') s) (\<lambda>s.
     Option.bind (getnum True s) (\<lambda>(day, s).
       if month < 1 \<or> 12 < month then None else Some ((year, month, day), s))))))"

definition parse_clock :: "string \<Rightarrow> ((int \<times> int \<times> int \<times> int) \<times> string) option" where
  "parse_clock s =
     Option.bind (getnum False s) (\<lambda>(hour, s).
     Option.bind (skip_char (CHR '':'') s) (\<lambda>s.
     Option.bind (getnum True s) (\<lambda>(minute, s).
     Option.bind (skip_char (CHR '':'') s) (\<lambda>s.
     Option.bind (getnum True s) (\<lambda>(sec, s).
       let (nsec, s) = parse_fraction s
       in if 24 \<le> hour \<or> 60 \<le> minute \<or> 60 \<le> sec then None
          else Some ((hour, minute, sec, nsec), s))))))"

definition date_ok :: "int \<times> int \<times> int \<Rightarrow> bool" where
  "date_ok = (\<lambda>(year, month, day). 1 \<le> day \<and> day \<le> month_len year month)"

datatype layout = DateTimeLayout | DateLayout

definition ParseInLocation :: "layout \<Rightarrow> string \<Rightarrow> location \<Rightarrow> go_time option" where
  "ParseInLocation f value l =
     Option.bind (parse_date value) (\<lambda>(date, s).
       case f of
         DateLayout \<Rightarrow>
           if s = [] \<and> date_ok date then
             (case date of (year, month, day) \<Rightarrow> Some (time_Date year month day 0 0 0 0 l))
           else None
       | DateTimeLayout \<Rightarrow>
           Option.bind (skip_spaces s) (\<lambda>s.
           Option.bind (parse_clock s) (\<lambda>(clock, s).
             if s = [] \<and> date_ok date then
               (case (date, clock) of ((year, month, day), (hour, minute, sec, nsec)) \<Rightarrow>
                  Some (time_Date year month day hour minute sec nsec l))
             else None)))"

text \<open>The loop over the formats: with a fraction, without one, date only.\<close>

fun try_formats :: "layout list \<Rightarrow> string \<Rightarrow> go_time option" where
  "try_formats [] s = None"
| "try_formats (f # fs) s =
     (case ParseInLocation f s UTC of Some t \<Rightarrow> Some t | None \<Rightarrow> try_formats fs s)"

subsection \<open>Text rows\<close>

definition int_or_string :: "string \<Rightarrow> gval" where
  "int_or_string s = (case ParseInt s of Some v \<Rightarrow> VInt v | None \<Rightarrow> VString s)"

definition textValue :: "(string \<Rightarrow> u64 option) \<Rightarrow> bytes \<Rightarrow> byte \<Rightarrow> gval" where
  "textValue ParseFloat raw ty =
     (let s = string_of raw
      in if ty \<in> {ColumnTypeTiny, ColumnTypeShort, ColumnTypeLong, ColumnTypeInt24} then int_or_string s
         else if ty = ColumnTypeLongLong then int_or_string s
         else if ty = ColumnTypeOracleNumberFloat then VString s
         else if ty = ColumnTypeFloat \<or> ty = ColumnTypeDouble then
           (case ParseFloat s of Some v \<Rightarrow> VFloat v | None \<Rightarrow> VString s)
         else if ty = ColumnTypeDecimal \<or> ty = ColumnTypeNewDecimal then VString s
         else if ty \<in> {ColumnTypeDate, ColumnTypeDateTime, ColumnTypeTimestamp} then
           (case try_formats [DateTimeLayout, DateTimeLayout, DateLayout] s of
              Some t \<Rightarrow> VTime t
            | None \<Rightarrow> VString s)
         else if ty = ColumnTypeTime then VString s
         else if ty = ColumnTypeYear then int_or_string s
         else if ty = ColumnTypeBit then VBytes raw
         else if ty \<in> {ColumnTypeTinyBlob, ColumnTypeMediumBlob, ColumnTypeLongBlob, ColumnTypeBlob,
                       ColumnTypeOracleRaw, ColumnTypeOracleBlob, ColumnTypeOracleClob} then VBytes raw
         else VString s)"

definition textValueInLocation ::
    "(string \<Rightarrow> u64 option) \<Rightarrow> bytes \<Rightarrow> byte \<Rightarrow> location option \<Rightarrow> gval res" where
  "textValueInLocation ParseFloat raw ty sessionLocation =
     (if IsOracleTimeType ty then
        bind_res (ParseOracleTime raw ty sessionLocation) (\<lambda>t. Ok (VTime t))
      else Ok (textValue ParseFloat raw ty))"

text \<open>
  The loop of \<open>parseTextRowInLocation\<close> over the columns left, on the unread rest of the packet;
  it returns the values and the bytes behind them.
\<close>

fun text_columns ::
    "(string \<Rightarrow> u64 option) \<Rightarrow> byte list \<Rightarrow> location option \<Rightarrow> nat \<Rightarrow> bytes \<Rightarrow> (gval list \<times> bytes) res" where
  "text_columns pf types l 0 rest = Ok ([], rest)"
| "text_columns pf types l (Suc n) rest =
     (if rest = [] then Err UnexpectedEOF
      else if rest ! 0 = NullColumn then
        bind_res (text_columns pf (tl types) l n (drop 1 rest)) (\<lambda>(row, rest'). Ok (VNil # row, rest'))
      else
        bind_res (ReadLengthEncodedString rest) (\<lambda>(raw, used, _).
        bind_res (textValueInLocation pf raw (if types = [] then ColumnTypeVarString else hd types) l) (\<lambda>value.
        bind_res (text_columns pf (tl types) l n (drop used rest)) (\<lambda>(row, rest'). Ok (value # row, rest')))))"

definition parseTextRowInLocation ::
    "(string \<Rightarrow> u64 option) \<Rightarrow> bytes \<Rightarrow> nat \<Rightarrow> byte list \<Rightarrow> location option \<Rightarrow> gval list res" where
  "parseTextRowInLocation pf packet columnCount types sessionLocation =
     bind_res (text_columns pf types sessionLocation columnCount packet) (\<lambda>(row, rest).
       if rest \<noteq> [] then Err (Errorf ''oceanbase: text row has %d trailing bytes'' [AInt (int (length rest))])
       else Ok row)"

definition parseTextRow :: "(string \<Rightarrow> u64 option) \<Rightarrow> bytes \<Rightarrow> nat \<Rightarrow> byte list \<Rightarrow> gval list res" where
  "parseTextRow pf packet columnCount types = parseTextRowInLocation pf packet columnCount types (Some UTC)"

subsection \<open>Column type tables\<close>

definition databaseTypeName :: "byte \<Rightarrow> string" where
  "databaseTypeName ty =
     (if ty = ColumnTypeDecimal then ''DECIMAL''
      else if ty = ColumnTypeTiny then ''TINYINT''
      else if ty = ColumnTypeShort then ''SMALLINT''
      else if ty = ColumnTypeLong then ''INT''
      else if ty = ColumnTypeFloat then ''FLOAT''
      else if ty = ColumnTypeDouble then ''DOUBLE''
      else if ty = ColumnTypeNull then ''NULL''
      else if ty = ColumnTypeTimestamp then ''TIMESTAMP''
      else if ty = ColumnTypeLongLong then ''BIGINT''
      else if ty = ColumnTypeInt24 then ''MEDIUMINT''
      else if ty = ColumnTypeDate then ''DATE''
      else if ty = ColumnTypeTime then ''TIME''
      else if ty = ColumnTypeDateTime then ''DATETIME''
      else if ty = ColumnTypeYear then ''YEAR''
      else if ty = ColumnTypeVarChar then ''VARCHAR''
      else if ty = ColumnTypeBit then ''BIT''
      else if ty = ColumnTypeJSON then ''JSON''
      else if ty = ColumnTypeNewDecimal then ''NEWDECIMAL''
      else if ty = ColumnTypeEnum then ''ENUM''
      else if ty = ColumnTypeSet then ''SET''
      else if ty = ColumnTypeTinyBlob then ''TINYBLOB''
      else if ty = ColumnTypeMediumBlob then ''MEDIUMBLOB''
      else if ty = ColumnTypeLongBlob then ''LONGBLOB''
      else if ty = ColumnTypeBlob then ''BLOB''
      else if ty = ColumnTypeVarString then ''VAR_STRING''
      else if ty = ColumnTypeString then ''STRING''
      else if ty = ColumnTypeGeometry then ''GEOMETRY''
      else if ty = ColumnTypeOracleTimestampNano then ''TIMESTAMP''
      else if ty = ColumnTypeOracleTimestampTZ then ''TIMESTAMP WITH TIME ZONE''
      else if ty = ColumnTypeOracleTimestampLTZ then ''TIMESTAMP WITH LOCAL TIME ZONE''
      else if ty = ColumnTypeOracleRaw then ''RAW''
      else if ty = ColumnTypeOracleRowID then ''ROWID''
      else if ty = ColumnTypeOracleNumberFloat then ''NUMBER''
      else if ty = ColumnTypeOracleNVarChar2 then ''NVARCHAR2''
      else if ty = ColumnTypeOracleNChar then ''NCHAR''
      else if ty = ColumnTypeOracleBlob then ''BLOB''
      else if ty = ColumnTypeOracleClob then ''CLOB''
      else if ty = ColumnTypeOracleIntervalYM then ''INTERVAL YEAR TO MONTH''
      else if ty = ColumnTypeOracleIntervalDS then ''INTERVAL DAY TO SECOND''
      else ''TYPE_'' @ [hex_digit (unat ty div 16), hex_digit (unat ty mod 16)])"

text \<open>The \<open>reflect.Type\<close>s a column may be scanned into.\<close>

datatype scan_type = TInt64 | TFloat64 | TString | TTime | TBytes

definition scanType :: "byte \<Rightarrow> scan_type" where
  "scanType ty =
     (if ty \<in> {ColumnTypeTiny, ColumnTypeShort, ColumnTypeLong, ColumnTypeInt24, ColumnTypeLongLong} then TInt64
      else if ty \<in> {ColumnTypeFloat, ColumnTypeDouble} then TFloat64
      else if ty \<in> {ColumnTypeDecimal, ColumnTypeNewDecimal} then TString
      else if ty \<in> {ColumnTypeDate, ColumnTypeDateTime, ColumnTypeTimestamp, ColumnTypeOracleTimestampNano,
                    ColumnTypeOracleTimestampTZ, ColumnTypeOracleTimestampLTZ} then TTime
      else if ty \<in> {ColumnTypeTinyBlob, ColumnTypeMediumBlob, ColumnTypeLongBlob, ColumnTypeBlob,
                    ColumnTypeGeometry, ColumnTypeOracleRaw, ColumnTypeOracleBlob, ColumnTypeOracleClob} then TBytes
      else TString)"

subsection \<open>Dates are read back as they are printed\<close>

lemma getnum_pad_dec:
  assumes "n < 100"
  shows "getnum b (pad_dec 2 n @ rest) = Some (int n, rest)"
  using assms digit_char_val [of "n div 10"] digit_char_val [of "n mod 10"]
  by (simp add: pad_dec_2 getnum_def)

lemma year4_pad_dec:
  assumes "n < 10000"
  shows "year4 (pad_dec 4 n @ rest) = Some (int n, rest)"
proof -
  have "length (pad_dec 4 n) = 4" using length_pad_dec [of n 4] assms by simp
  moreover from this have "all_digits (pad_dec 4 n)"
    using pad_dec_digits [of 4 n] by (auto simp: all_digits_def)
  ultimately show ?thesis by (simp add: year4_def)
qed

text \<open>A string without its trailing occurrences of a character, and those occurrences.\<close>

lemma strip_trailing:
  fixes c :: char
  defines "front \<equiv> (\<lambda>s. rev (dropWhile (\<lambda>x. x = c) (rev s)))"
  shows "s = front s @ replicate (length s - length (front s)) c"
proof -
  have "takeWhile (\<lambda>x. x = c) (rev s) = replicate (length (takeWhile (\<lambda>x. x = c) (rev s))) c"
    by (metis (full_types) replicate_length_same set_takeWhileD)
  moreover have "s = front s @ rev (takeWhile (\<lambda>x. x = c) (rev s))"
    unfolding front_def by (metis rev_append rev_rev_ident takeWhile_dropWhile_id)
  ultimately show ?thesis
    by (metis add_diff_cancel_left' length_append length_rev rev_replicate)
qed

lemma parse_fraction9:
  assumes "ns < 1000000000"
  shows "parse_fraction (fraction9 ns) = (int ns, [])"
proof -
  let ?d = "pad_dec 9 ns"
  define e where "e = rev (dropWhile (\<lambda>x. x = CHR ''0'') (rev ?d))"
  have len: "length ?d = 9" using length_pad_dec [of ns 9] assms by simp
  then have d: "?d = e @ replicate (9 - length e) (CHR ''0'')"
    unfolding e_def by (metis strip_trailing)
  then have le: "length e \<le> 9" using len by (metis le_add1 length_append)
  have dig: "list_all is_digit e" using pad_dec_digits [of 9 ns] d by (metis list_all_append)
  have val: "dec_val e * 10 ^ (9 - length e) = ns"
    using dec_val_trailing_zeros [of e "9 - length e"] d by (metis dec_val_pad_dec)
  have frac: "fraction9 ns = (if e = [] then [] else CHR ''.'' # e)"
    by (simp only: fraction9_def Let_def e_def)
  show ?thesis
  proof (cases e)
    case Nil
    then have "fraction9 ns = []" and "ns = 0" using frac val by (simp_all add: dec_val_def)
    then show ?thesis by (simp add: parse_fraction_def)
  next
    case (Cons x xs)
    then have ne: "e \<noteq> []" "Suc 0 \<le> length e" "is_digit (e ! 0)" using dig by simp_all
    have tw: "takeWhile is_digit e = e" using dig by (simp add: takeWhile_eq_all_conv list_all_iff)
    from val have "int (dec_val e) * 10 ^ (9 - length e) = int ns"
      by (metis of_nat_mult of_nat_numeral of_nat_power)
    with ne le show ?thesis
      by (simp add: frac Let_def parse_fraction_def tw)
  qed
qed

text \<open>The times the text protocol can carry: in UTC, years 0 to 9999, whole nanoseconds.\<close>

definition printable_time :: "go_time \<Rightarrow> bool" where
  "printable_time t \<longleftrightarrow>
     timeLoc t = UTC \<and> 0 \<le> nanos t \<and> nanos t < 1000000000 \<and>
     0 \<le> wYear (time_wall t) \<and> wYear (time_wall t) < 10000"

lemma ParseInLocation_Format:
  assumes "printable_time t"
  shows "ParseInLocation DateTimeLayout (time_Format t) UTC = Some t"
proof -
  define w where "w = time_wall t"
  have valid: "valid_wall w" by (simp add: w_def time_wall_def valid_wall_of_secs)
  then have m: "1 \<le> wMonth w" "wMonth w \<le> 12" and d: "1 \<le> wDay w" "wDay w \<le> month_len (wYear w) (wMonth w)"
    and h: "0 \<le> wHour w" "wHour w < 24" "0 \<le> wMinute w" "wMinute w < 60" "0 \<le> wSecond w" "wSecond w < 60"
    by (auto simp: valid_wall_def valid_date_def)
  have y: "0 \<le> wYear w" "wYear w < 10000" using assms by (auto simp: printable_time_def w_def)
  have d100: "wDay w < 100"
    using d month_cases [OF m] by (auto simp: month_len_def month_table_def days_before_month_def split: if_splits)
  have ns: "0 \<le> nanos t" "nat (nanos t) < 1000000000" using assms by (auto simp: printable_time_def)
  have date: "time_Date (wYear w) (wMonth w) (wDay w) (wHour w) (wMinute w) (wSecond w) (nanos t) UTC = t"
  proof -
    have "secs_of_wall w = unixSec t"
      using assms by (simp add: w_def time_wall_def printable_time_def zone_offset_def lookup_def UTC_def)
    then show ?thesis
      using assms valid time_Date_UTC [of w "nanos t"]
      by (simp add: printable_time_def valid_reading_def)
  qed
  have space: "skip_spaces (CHR '' '' # pad_dec 2 (nat (wHour w)) @ r) = Some (pad_dec 2 (nat (wHour w)) @ r)" for r
  proof -
    have "nat (wHour w) div 10 < 10" using h(1,2) by simp
    then have "hd (pad_dec 2 (nat (wHour w)) @ r) \<noteq> CHR '' ''"
      using h digit_char_val(2) [of "nat (wHour w) div 10"]
      by (auto simp: pad_dec_2 is_digit_def less_eq_char_def)
    then show ?thesis
      using h by (auto simp: skip_spaces_def pad_dec_2)
  qed
  note nums = getnum_pad_dec [of "nat (wMonth w)"] getnum_pad_dec [of "nat (wDay w)"]
    getnum_pad_dec [of "nat (wHour w)"] getnum_pad_dec [of "nat (wMinute w)"] getnum_pad_dec [of "nat (wSecond w)"]
    year4_pad_dec [of "nat (wYear w)"]
  show ?thesis
    using m d d100 h y ns
    by (simp add: ParseInLocation_def time_Format_def w_def [symmetric] Let_def parse_date_def parse_clock_def
        nums skip_char_def space parse_fraction9 date_ok_def date)
qed

subsection \<open>Rows are read back\<close>

text \<open>The text a server sends for a value, and the columns that carry such values.\<close>

fun cell_text :: "gval \<Rightarrow> bytes" where
  "cell_text (VInt i) = bytes_of (FormatInt i)"
| "cell_text (VString s) = bytes_of s"
| "cell_text (VBytes b) = b"
| "cell_text (VTime t) = bytes_of (time_Format t)"
| "cell_text _ = []"

fun text_cell :: "gval \<Rightarrow> bytes" where
  "text_cell VNil = [NullColumn]"
| "text_cell v = PutLengthEncodedString [] (cell_text v)"

definition text_row :: "gval list \<Rightarrow> bytes" where
  "text_row vs = concat (map text_cell vs)"

definition int_columns :: "byte list" where
  "int_columns = [ColumnTypeTiny, ColumnTypeShort, ColumnTypeLong, ColumnTypeInt24, ColumnTypeLongLong, ColumnTypeYear]"

definition string_columns :: "byte list" where
  "string_columns =
     [ColumnTypeOracleNumberFloat, ColumnTypeDecimal, ColumnTypeNewDecimal, ColumnTypeTime, ColumnTypeVarChar,
      ColumnTypeVarString, ColumnTypeString, ColumnTypeJSON, ColumnTypeEnum, ColumnTypeSet, ColumnTypeOracleRowID,
      ColumnTypeOracleIntervalYM, ColumnTypeOracleIntervalDS, ColumnTypeOracleNVarChar2, ColumnTypeOracleNChar]"

definition bytes_columns :: "byte list" where
  "bytes_columns =
     [ColumnTypeBit, ColumnTypeTinyBlob, ColumnTypeMediumBlob, ColumnTypeLongBlob, ColumnTypeBlob,
      ColumnTypeOracleRaw, ColumnTypeOracleBlob, ColumnTypeOracleClob]"

definition time_columns :: "byte list" where
  "time_columns = [ColumnTypeDate, ColumnTypeDateTime, ColumnTypeTimestamp]"

lemmas column_groups = int_columns_def string_columns_def bytes_columns_def time_columns_def

fun fits_column :: "gval \<Rightarrow> byte \<Rightarrow> bool" where
  "fits_column VNil ty = True"
| "fits_column (VInt i) ty = (int64 i \<and> ty \<in> set int_columns)"
| "fits_column (VString s) ty = (ty \<in> set string_columns)"
| "fits_column (VBytes b) ty = (ty \<in> set bytes_columns)"
| "fits_column (VTime t) ty = (printable_time t \<and> ty \<in> set time_columns)"
| "fits_column _ ty = False"

lemma textValue_groups:
  "list_all (\<lambda>ty. textValueInLocation pf raw ty l = Ok (int_or_string (string_of raw))) int_columns"
  "list_all (\<lambda>ty. textValueInLocation pf raw ty l = Ok (VString (string_of raw))) string_columns"
  "list_all (\<lambda>ty. textValueInLocation pf raw ty l = Ok (VBytes raw)) bytes_columns"
  "list_all (\<lambda>ty. textValueInLocation pf raw ty l =
     Ok (case try_formats [DateTimeLayout, DateTimeLayout, DateLayout] (string_of raw) of
           Some t \<Rightarrow> VTime t | None \<Rightarrow> VString (string_of raw))) time_columns"
  by (simp_all add: column_groups textValueInLocation_def textValue_def Let_def IsOracleTimeType_def column_types
      del: try_formats.simps)

lemma textValue_cell:
  assumes "fits_column v ty" and "v \<noteq> VNil"
  shows "textValueInLocation pf (cell_text v) ty l = Ok v"
proof (cases v)
  case (VInt i)
  with assms have "ParseInt (FormatInt i) = Some i"
    by (intro ParseInt_FormatInt) (auto simp: int64_def)
  then show ?thesis
    using assms VInt textValue_groups(1) [of pf "cell_text v" l] by (simp add: list_all_iff int_or_string_def)
next
  case (VString s)
  then show ?thesis
    using assms textValue_groups(2) [of pf "cell_text v" l] by (simp add: list_all_iff)
next
  case (VBytes b)
  then show ?thesis
    using assms textValue_groups(3) [of pf "cell_text v" l] by (simp add: list_all_iff)
next
  case (VTime t)
  then show ?thesis
    using assms textValue_groups(4) [of pf "cell_text v" l] by (simp add: list_all_iff ParseInLocation_Format)
qed (use assms in auto)

lemma text_cell_cases:
  "text_cell v = (if v = VNil then [NullColumn] else PutLengthEncodedString [] (cell_text v))"
  by (cases v) auto

lemma PutLengthEncodedString_hd:
  "PutLengthEncodedString [] s \<noteq> [] \<and> hd (PutLengthEncodedString [] s) \<noteq> 0xfb \<and>
   hd (PutLengthEncodedString [] s) \<noteq> 0xff"
proof -
  have "(ucast n :: byte) \<noteq> 0xfb \<and> (ucast n :: byte) \<noteq> 0xff" if "n < 251" for n :: u64
    using small_byte(2) [OF that] by auto
  then show ?thesis by (auto simp: PutLengthEncodedString_def PutLengthEncodedInt_def)
qed

lemma text_columns_row:
  assumes "list_all2 fits_column vs types" and "\<forall>v \<in> set vs. go_len (cell_text v)"
  shows "text_columns pf types l (length vs) (text_row vs @ rest) = Ok (vs, rest)"
  using assms
proof (induction vs types rule: list_all2_induct)
  case Nil
  then show ?case by (simp add: text_row_def)
next
  case (Cons v vs ty types)
  show ?case
  proof (cases "v = VNil")
    case True
    with Cons show ?thesis by (simp add: text_row_def)
  next
    case False
    have ne: "text_cell v \<noteq> [] \<and> hd (text_cell v) \<noteq> NullColumn"
      using False PutLengthEncodedString_hd [of "cell_text v"] by (simp add: text_cell_cases NullColumn_def)
    then have nth: "(text_cell v @ r) ! 0 = hd (text_cell v)" for r by (simp add: hd_conv_nth nth_append)
    have rd: "ReadLengthEncodedString (text_cell v @ r) = Ok (cell_text v, length (text_cell v), False)" for r
      using False ReadLengthEncodedString_Put [of "cell_text v" r] Cons.prems by (simp add: text_cell_cases)
    have "textValueInLocation pf (cell_text v) ty l = Ok v"
      using textValue_cell Cons.hyps(1) False by blast
    with Cons ne nth rd show ?thesis by (simp add: text_row_def)
  qed
qed

text \<open>
  A row of the text protocol is decoded to the values it was written from: NULLs, integers of
  64 bits, strings, byte strings and times from year 0 to 9999 with nanoseconds, in columns of a
  type that carries them, whatever the session's time zone.
\<close>

theorem text_row_roundtrip:
  assumes "list_all2 fits_column vs types" and "\<forall>v \<in> set vs. go_len (cell_text v)"
  shows "parseTextRowInLocation pf (text_row vs) (length vs) types l = Ok vs"
  using text_columns_row [OF assms, of pf l "[]"] by (simp add: parseTextRowInLocation_def)

theorem text_row_roundtrip_witness:
  "parseTextRowInLocation (\<lambda>_. None) (text_row [VInt (- 7), VNil, VString ''ab'', VBytes [0, 255]]) 4
     [ColumnTypeLong, ColumnTypeLong, ColumnTypeVarString, ColumnTypeBlob] (Some UTC) =
   Ok [VInt (- 7), VNil, VString ''ab'', VBytes [0, 255]]"
proof -
  have four: "4 = length [VInt (- 7), VNil, VString ''ab'', VBytes [0, 255]]" by simp
  show ?thesis
    unfolding four
    by (rule text_row_roundtrip) (simp_all add: column_groups int64_def go_len_def FormatInt_def dec.simps [of 7])
qed

subsection \<open>Rows and control packets\<close>

lemma text_cell_lead:
  assumes "go_len (cell_text v)"
  shows "text_cell v \<noteq> [] \<and> hd (text_cell v) \<noteq> ErrPacket \<and>
    (hd (text_cell v) = EOFPacket \<longleftrightarrow> v \<noteq> VNil \<and> 2 ^ 24 \<le> length (cell_text v)) \<and>
    length (cell_text v) \<le> length (text_cell v)"
proof (cases "v = VNil")
  case True
  then show ?thesis by (simp add: packet_bytes)
next
  case False
  let ?n = "word_of_nat (length (cell_text v)) :: u64"
  have n: "unat ?n = length (cell_text v)"
    using assms by (intro unat_of_nat_small) (simp add: go_len_def)
  then have big: "2 ^ 24 \<le> length (cell_text v) \<longleftrightarrow> \<not> ?n < 0x1000000"
    by (simp add: word_less_nat_alt not_less)
  have "(ucast ?n :: byte) \<noteq> 0xfe" if "?n < 251"
    using small_byte(2) [OF that] by auto
  then have "hd (PutLengthEncodedString [] (cell_text v)) = 0xfe \<longleftrightarrow> \<not> ?n < 0x1000000"
    by (auto simp: PutLengthEncodedString_def PutLengthEncodedInt_def word_less_nat_alt n)
  then show ?thesis
    using False big PutLengthEncodedString_hd [of "cell_text v"]
    by (simp add: text_cell_cases packet_bytes, simp add: PutLengthEncodedString_def)
qed

lemma text_row_Cons: "text_row (v # vs) = text_cell v @ text_row vs"
  by (simp add: text_row_def)

lemma row_not_control:
  assumes "go_len (cell_text v)" and "resultSetOK \<longrightarrow> v = VNil \<or> length (cell_text v) < 2 ^ 24"
  shows "text_row (v # vs) ! 0 \<noteq> ErrPacket \<and>
    \<not> isResultSetTerminatorForMode (text_row (v # vs)) resultSetOK sessionTrack"
proof -
  have lead: "text_row (v # vs) ! 0 = hd (text_cell v)" "length (text_cell v) \<le> length (text_row (v # vs))"
    using text_cell_lead [OF assms(1)] by (simp_all add: text_row_Cons nth_append hd_conv_nth)
  then have "\<not> isEOFPacket (text_row (v # vs))"
    using text_cell_lead [OF assms(1)] by (auto simp: isEOFPacket_def)
  moreover have "\<not> isResultSetOKPacket (text_row (v # vs)) sessionTrack" if resultSetOK
    using text_cell_lead [OF assms(1)] that assms(2) lead
    by (auto simp: isResultSetOKPacket_def isOKPacketWithHeader_def packetStatusFlags_def)
  ultimately show ?thesis
    using text_cell_lead [OF assms(1)] lead by (simp add: isResultSetTerminatorForMode_def)
qed

text \<open>
  A row is not mistaken for a control packet: it never looks like an error packet nor like an
  EOF packet, and it looks like the OK packet that ends a result set at most when its first value
  has 16 MiB or more.
\<close>

theorem text_row_not_control:
  assumes "go_len (cell_text v)" and "resultSetOK \<longrightarrow> v = VNil \<or> length (cell_text v) < 2 ^ 24"
  shows "text_row (v # vs) ! 0 \<noteq> ErrPacket \<and>
    \<not> isResultSetTerminatorForMode (text_row (v # vs)) resultSetOK sessionTrack"
  using assms by (rule row_not_control)

theorem text_row_not_control_witness:
  "text_row [VString ''x'', VNil] ! 0 \<noteq> ErrPacket \<and>
   \<not> isResultSetTerminatorForMode (text_row [VString ''x'', VNil]) True False"
  using text_row_not_control [of "VString ''x''" True "[VNil]" False] by (simp add: go_len_def)

text \<open>
  C36: With the OK packets of \<open>CLIENT_DEPRECATE_EOF\<close> and without session tracking, a row whose first
  value has 16 MiB or more is taken for the end of the result set: its length prefix \<open>0xfe\<close> is the
  header of that packet, and any bytes behind the status flags are accepted.
\<close>

theorem large_first_column_ends_result:
  assumes "v \<noteq> VNil" and "2 ^ 24 \<le> length (cell_text v)" and "length (cell_text v) < 2 ^ 63"
    and "length (cell_text v) mod 256 < 251" and "length (cell_text v) div 256 mod 256 < 251"
  shows "isResultSetTerminatorForMode (text_row (v # vs)) True False"
proof -
  let ?n = "length (cell_text v)" and ?w = "word_of_nat (length (cell_text v)) :: u64"
  define b0 where "b0 = (ucast ?w :: byte)"
  define b1 where "b1 = (ucast (drop_bit 8 ?w) :: byte)"
  have un: "unat ?w = ?n" using assms(3) by (intro unat_of_nat_small) simp
  then have "\<not> ?w < 251" "\<not> ?w < 0x10000" "\<not> ?w < 0x1000000"
    using assms(2) by (simp_all add: word_less_nat_alt)
  then obtain tail where row: "text_row (v # vs) = 0xfe # b0 # b1 # tail" and tail: "?n \<le> length tail"
    using assms(1)
    by (simp add: text_row_Cons text_cell_cases PutLengthEncodedString_def PutLengthEncodedInt_def b0_def b1_def)
  have "unat b0 = ?n mod 256"
    by (simp add: b0_def unsigned_ucast_eq take_bit_eq_mod un)
  then have b0: "b0 < 251" using assms(4) by (simp add: word_less_nat_alt)
  have "unat b1 = ?n div 256 mod 256"
    by (simp add: b1_def unsigned_ucast_eq unsigned_drop_bit_eq take_bit_eq_mod drop_bit_eq_div unat_div un)
  then have b1: "b1 < 251" using assms(5) by (simp add: word_less_nat_alt)
  have small: "ReadLengthEncodedInt (b # r) = Ok (ucast b, 1, False)" if "b < 251" for b r
    using that by (auto simp: ReadLengthEncodedInt_Cons word_less_nat_alt)
  have "5 \<le> length tail" using tail assms(2) by simp
  then show ?thesis
    by (simp add: isResultSetTerminatorForMode_def isResultSetOKPacket_def isOKPacketWithHeader_def
        packetStatusFlags_def row packet_bytes small [OF b0] small [OF b1] Let_def)
qed

theorem large_first_column_ends_result_witness:
  "isResultSetTerminatorForMode (text_row [VBytes (replicate (2 ^ 24) 0)]) True False"
  using large_first_column_ends_result [of "VBytes (replicate (2 ^ 24) 0)" "[]"] by simp

end
