(* ===== verification/Conn.thy ===== *)
theory Conn
  imports Config Text_Rows Packet_Framing
begin

text \<open>
  \<open>conn.go\<close>, \<open>context.go\<close> and the stateful part of \<open>session_timezone.go\<close>: the connection, the
  classification of its errors, OK packets with session-state changes, and the synchronisation of
  the decoding time zone.  Result sets, statements and the handshake are in the next theories.

  The state of a connection is the record \<open>conn\<close>.  \<open>netConn\<close> and \<open>packets\<close> are pointers the code
  clears in \<open>Close\<close>: \<open>None\<close> is nil and using it panics.  \<open>locked\<close> says whether the mutex \<open>mu\<close> is
  held between calls, by a result set that is still streaming.  A method is a function of the state
  it finds when it holds the mutex; who may enter is the subject of the step relation in a later
  theory.  Trace output is not modelled.

  A context is what the code reads of it: whether it has a deadline, the error it reports once the
  call has run (the environment chooses it), and the values the driver stores in it.  The timer that
  expires the deadline and the goroutine that does so on cancellation act on the byte stream: reads
  then fail with the stream's end error.
\<close>

subsection \<open>Contexts\<close>

record go_ctx =
  ctxDeadline :: bool
  ctxErr :: "go_error option"
  ctxPartitionID :: "int option"
  ctxTraceID :: "string option"
  ctxSpanID :: "string option"

definition Background :: go_ctx where
  "Background = \<lparr>ctxDeadline = False, ctxErr = None, ctxPartitionID = None, ctxTraceID = None, ctxSpanID = None\<rparr>"

definition WithPartitionID :: "go_ctx \<Rightarrow> int \<Rightarrow> go_ctx" where
  "WithPartitionID ctx i = ctx\<lparr>ctxPartitionID := Some i\<rparr>"

definition WithTraceID :: "go_ctx \<Rightarrow> string \<Rightarrow> go_ctx" where
  "WithTraceID ctx i = ctx\<lparr>ctxTraceID := Some i\<rparr>"

definition WithSpanID :: "go_ctx \<Rightarrow> string \<Rightarrow> go_ctx" where
  "WithSpanID ctx i = ctx\<lparr>ctxSpanID := Some i\<rparr>"

text \<open>A type assertion that fails yields the zero value and false.\<close>

definition partitionIDFromContext :: "go_ctx \<Rightarrow> int \<times> bool" where
  "partitionIDFromContext ctx = (case ctxPartitionID ctx of Some i \<Rightarrow> (i, True) | None \<Rightarrow> (0, False))"

definition traceIDFromContext :: "go_ctx \<Rightarrow> string \<times> bool" where
  "traceIDFromContext ctx = (case ctxTraceID ctx of Some i \<Rightarrow> (i, True) | None \<Rightarrow> ([], False))"

definition spanIDFromContext :: "go_ctx \<Rightarrow> string \<times> bool" where
  "spanIDFromContext ctx = (case ctxSpanID ctx of Some i \<Rightarrow> (i, True) | None \<Rightarrow> ([], False))"

subsection \<open>State\<close>

text \<open>
  The socket: the results of the coming \<open>SetDeadline\<close> calls whose error is looked at, and of
  \<open>Close\<close>.  Its bytes are in the packet layer.
\<close>

record net_conn =
  deadlineErrs :: "go_error option list"
  closeErr :: "go_error option"

record conn =
  netConn :: "net_conn option"
  packets :: "packet_conn option"
  cfg :: "config option"
  db :: string
  ob20Confirmed :: bool
  ob20Declined :: bool
  deprecateEOF :: bool
  sessionTrack :: bool
  tenantMode :: string
  sessionLocation :: "location option"
  closed :: bool
  bad :: bool
  inTx :: bool
  locked :: bool

type_synonym 'a cst = "(conn, 'a) st"

record exec_result =
  affectedRows :: int
  lastInsertID :: int

text \<open>\<open>compress/zlib\<close>, the parameter of the packet layer.\<close>

record zlib =
  zlibOpen :: zlib_open
  zlibDeflate :: "bytes \<Rightarrow> bytes"

definition on_packets :: "'a pst \<Rightarrow> 'a cst" where
  "on_packets m c =
     (case packets c of
        None \<Rightarrow> (Panic, c)
      | Some p \<Rightarrow> (case m p of (r, p') \<Rightarrow> (r, c\<lparr>packets := Some p'\<rparr>)))"

definition conn_read :: "zlib \<Rightarrow> bytes cst" where
  "conn_read z = on_packets (ReadPacket (zlibOpen z))"

definition conn_write :: "zlib \<Rightarrow> bytes \<Rightarrow> unit cst" where
  "conn_write z payload = on_packets (WritePacket (zlibDeflate z) payload)"

text \<open>\<open>c.packets.ResetSequence(); c.packets.NextRequest()\<close>, at the start of every command.\<close>

definition new_command :: "unit cst" where
  "new_command = on_packets (\<lambda>p. (Ok (), NextRequest (ResetSequence p)))"

subsection \<open>Errors\<close>

definition checkUsableLocked :: "unit cst" where
  "checkUsableLocked c = (if closed c \<or> bad c then (Err BadConn, c) else (Ok (), c))"

definition IsValid :: "conn \<Rightarrow> bool" where
  "IsValid c \<longleftrightarrow> \<not> closed c \<and> \<not> bad c"

definition markBadIfConnErr :: "go_error \<Rightarrow> conn \<Rightarrow> go_error \<times> conn" where
  "markBadIfConnErr e c = (if isBadConnError e then (BadConn, c\<lparr>bad := True\<rparr>) else (e, c))"

definition markProtocolError :: "go_error \<Rightarrow> conn \<Rightarrow> go_error \<times> conn" where
  "markProtocolError e c =
     (if errors_As_ServerError e then (e, c)
      else
        let c = c\<lparr>bad := True\<rparr>
        in if errors_Is e BadConn then (e, c)
           else (Errorf ''oceanbase: protocol error: %v: %w'' [AErr e, AWrap BadConn], c))"

definition markSessionResetError :: "go_error \<Rightarrow> conn \<Rightarrow> go_error \<times> conn" where
  "markSessionResetError e c =
     (let c = c\<lparr>bad := True\<rparr>
      in if errors_Is e BadConn then (e, c)
         else (Errorf ''oceanbase: session reset failed: %w: %w'' [AWrap e, AWrap BadConn], c))"

text \<open>\<open>on_error mark m\<close>: run \<open>m\<close>; an error is passed through one of the functions above.\<close>

definition on_error :: "(go_error \<Rightarrow> conn \<Rightarrow> go_error \<times> conn) \<Rightarrow> 'a cst \<Rightarrow> 'a cst" where
  "on_error mark m c =
     (case m c of
        (Err e, c') \<Rightarrow> (case mark e c' of (e', c'') \<Rightarrow> (Err e', c''))
      | r \<Rightarrow> r)"

abbreviation fail_protocol :: "go_error \<Rightarrow> 'a cst" where
  "fail_protocol e \<equiv> on_error markProtocolError (fail_st e)"

text \<open>\<open>ReadPacket\<close> with its error marked, and an outcome of a pure parser with its error marked.\<close>

definition read_marked :: "zlib \<Rightarrow> bytes cst" where
  "read_marked z = on_error markProtocolError (conn_read z)"

definition lift_res :: "'a res \<Rightarrow> 'a cst" where
  "lift_res r c = (r, c)"

definition SetDeadline :: "unit cst" where
  "SetDeadline c =
     (case netConn c of
        None \<Rightarrow> (Panic, c)
      | Some n \<Rightarrow>
          (case deadlineErrs n of
             [] \<Rightarrow> (Ok (), c)
           | e # es \<Rightarrow>
               (case e of None \<Rightarrow> Ok () | Some e' \<Rightarrow> Err e', c\<lparr>netConn := Some (n\<lparr>deadlineErrs := es\<rparr>)\<rparr>)))"

text \<open>Whether a deadline is set: the context's, or the configured timeout's.\<close>

definition needs_deadline :: "go_ctx \<Rightarrow> bool cst" where
  "needs_deadline ctx c =
     (if ctxDeadline ctx then (Ok True, c)
      else case cfg c of None \<Rightarrow> (Panic, c) | Some config \<Rightarrow> (Ok (0 < Timeout config), c))"

definition withDeadline :: "go_ctx \<Rightarrow> 'a cst \<Rightarrow> 'a cst" where
  "withDeadline ctx fn =
     bind_st (needs_deadline ctx) (\<lambda>ok.
     bind_st (if ok then SetDeadline else return_st ()) (\<lambda>_ c.
       case fn c of
         (Err e, c') \<Rightarrow>
           (case ctxErr ctx of
              Some ctxE \<Rightarrow> (Err ctxE, c'\<lparr>bad := True\<rparr>)
            | None \<Rightarrow> (Err e, c'))
       | r \<Rightarrow> r))"

subsection \<open>OK packets\<close>

definition noteCapability :: "string \<Rightarrow> string \<Rightarrow> conn \<Rightarrow> conn" where
  "noteCapability k v c =
     (if k = ''ob_capability_flag'' \<or> k = ''__proxy_capability_flag'' then
        (if fst (ParseUint v) AND OBCapOBProtocolV2 \<noteq> 0 then c\<lparr>ob20Confirmed := True\<rparr>
         else c\<lparr>ob20Declined := True\<rparr>)
      else c)"

text \<open>
  The inner loop over tracked variables.  \<open>varEnd\<close> is computed in Go's \<open>int\<close>: a length of \<open>2^63\<close>
  or more makes it negative (or wraps the sum), and the slice expression then panics.
\<close>

function track_loop :: "bytes \<Rightarrow> nat \<Rightarrow> unit cst" where
  "track_loop val pos2 c =
     (if length val \<le> pos2 then (Ok (), c)
      else case ReadLengthEncodedInt (drop pos2 val) of
        Ok (varLen, used, _) \<Rightarrow>
          (let pos3 = pos2 + used; varEnd = add_int64 (int pos3) (go_int varLen)
           in if int (length val) < varEnd then (Ok (), c)
              else if varEnd < int pos3 then (Panic, c)
              else case ReadLengthEncodedString (subslice pos3 (nat varEnd) val) of
                Ok (k, kUsed, _) \<Rightarrow>
                  (case ReadLengthEncodedString (subslice (pos3 + kUsed) (nat varEnd) val) of
                     Ok (v, vUsed, _) \<Rightarrow>
                       track_loop val (max (pos3 + kUsed + vUsed) (nat varEnd))
                         (noteCapability (string_of k) (string_of v) c)
                   | _ \<Rightarrow> (Ok (), c))
              | _ \<Rightarrow> (Ok (), c))
      | _ \<Rightarrow> (Ok (), c))"
  by pat_completeness auto
termination
  by (relation "measure (\<lambda>(val, pos2, c). length val - pos2)")
    (auto dest!: ReadLengthEncodedInt_used simp: diff_less_mono2)

declare track_loop.simps [simp del]

function state_loop :: "bytes \<Rightarrow> nat \<Rightarrow> unit cst" where
  "state_loop data pos c =
     (if length data \<le> pos then (Ok (), c)
      else case ReadLengthEncodedString (drop (pos + 1) data) of
        Err e \<Rightarrow> (Err e, c)
      | Panic \<Rightarrow> (Panic, c)
      | Ok (val, used, _) \<Rightarrow>
          (case (if data ! pos = 0x00 \<or> data ! pos = 0x26 then track_loop val 0 c
                 else if data ! pos = 0x01 then (Ok (), c\<lparr>db := string_of val\<rparr>)
                 else (Ok (), c)) of
             (Ok _, c') \<Rightarrow> state_loop data (pos + 1 + used) c'
           | (Err e, c') \<Rightarrow> (Err e, c')
           | (Panic, c') \<Rightarrow> (Panic, c')))"
  by pat_completeness auto
termination
  by (relation "measure (\<lambda>(data, pos, c). length data - pos)") auto

declare state_loop.simps [simp del]

definition handleStateChange :: "bytes \<Rightarrow> unit cst" where
  "handleStateChange data = state_loop data 0"

text \<open>The session-state part of an OK packet, from position \<open>pos\<close>; its parse errors are dropped.\<close>

definition ok_session_state :: "bytes \<Rightarrow> nat \<Rightarrow> unit cst" where
  "ok_session_state packet pos c =
     (let pos = (if pos < length packet then
                   (case ReadLengthEncodedString (drop pos packet) of
                      Ok (_, used, _) \<Rightarrow> pos + used
                    | _ \<Rightarrow> pos)
                 else pos)
      in if pos < length packet then
           (case ReadLengthEncodedString (drop pos packet) of
              Ok (trackData, _, _) \<Rightarrow>
                (case handleStateChange trackData c of
                   (Panic, c') \<Rightarrow> (Panic, c')
                 | (_, c') \<Rightarrow> (Ok (), c'))
            | _ \<Rightarrow> (Ok (), c))
         else (Ok (), c))"

definition handleOK :: "bytes \<Rightarrow> (exec_result \<times> u16) cst" where
  "handleOK packet =
     (if packet = [] \<or> packet ! 0 \<noteq> OKPacket then fail_st (Errorf ''not an OK packet'' [])
      else
        bind_st (lift_res (ReadLengthEncodedInt (drop 1 packet))) (\<lambda>(affected, used1, _).
        bind_st (lift_res (ReadLengthEncodedInt (drop (1 + used1) packet))) (\<lambda>(lastID, used2, _).
          let pos = 1 + used1 + used2;
              result = \<lparr>affectedRows = sint affected, lastInsertID = sint lastID\<rparr>
          in if pos < length packet then
               (if length packet < pos + 4 then fail_st UnexpectedEOF
                else
                  let status = le_word (subslice pos (pos + 2) packet)
                  in bind_st
                       (if status AND ServerSessionStateChanged \<noteq> 0 then ok_session_state packet (pos + 4)
                        else return_st ())
                       (\<lambda>_. return_st (result, status)))
             else return_st (result, 0))))"

subsection \<open>The session's time zone\<close>

definition sessionTimeZoneSyncError :: "string \<Rightarrow> go_error \<Rightarrow> 'a cst" where
  "sessionTimeZoneSyncError query e c =
     (Err (Errorf ''oceanbase: cannot synchronize session time zone for %q: %v: %w'' [AStr query, AErr e, AWrap BadConn]),
      c\<lparr>sessionLocation := None, bad := True\<rparr>)"

definition updateSessionTimeZoneFromQuery :: "string \<Rightarrow> named_value list \<Rightarrow> unit cst" where
  "updateSessionTimeZoneFromQuery query args c =
     (if tenantMode c = ''mysql'' then (Ok (), c)
      else case sessionTimeZoneAssignmentFromQuery query of
        None \<Rightarrow>
          if isSessionTimeZoneMutation query then
            sessionTimeZoneSyncError query (Errorf ''unsupported session time zone mutation syntax'' []) c
          else (Ok (), c)
      | Some (value, parameter) \<Rightarrow>
          (case (if parameter then sessionTimeZoneValueFromArgs args else Ok value) of
             Err e \<Rightarrow> sessionTimeZoneSyncError query e c
           | Panic \<Rightarrow> (Panic, c)
           | Ok value \<Rightarrow>
               (case parseSessionTimeZone value of
                  Err e \<Rightarrow> sessionTimeZoneSyncError query e c
                | Panic \<Rightarrow> (Panic, c)
                | Ok (location, canonical) \<Rightarrow> (Ok (), c\<lparr>sessionLocation := Some location\<rparr>))))"

subsection \<open>Requests\<close>

definition writeQuery :: "zlib \<Rightarrow> string \<Rightarrow> unit cst" where
  "writeQuery z query =
     bind_st new_command (\<lambda>_. conn_write z (ComQuery # bytes_of query))"

definition setupExtraInfo :: "go_ctx \<Rightarrow> unit cst" where
  "setupExtraInfo ctx =
     bind_st (on_packets (\<lambda>p. (Ok (), ClearExtraInfo p))) (\<lambda>_.
     bind_st
       (case partitionIDFromContext ctx of
          (pid, ok) \<Rightarrow>
            if ok then
              on_packets (\<lambda>p. (Ok (), AddExtraInfo OB20ExtraInfoTypePartitionID
                (rev (le_bytes 8 (word_of_int pid :: u64))) p))
            else return_st ()) (\<lambda>_.
       let (traceID, okT) = traceIDFromContext ctx; (spanID, okS) = spanIDFromContext ctx
       in if okT \<or> okS then
            on_packets (\<lambda>p. (Ok (), AddExtraInfo OB20ExtraInfoTypeFullTrace (BuildFLTExtraInfo (bytes_of traceID) (bytes_of spanID)) p))
          else return_st ()))"

text \<open>Accessors that take the lock.\<close>

definition IsOB20 :: "conn \<Rightarrow> bool" where
  "IsOB20 c = (case packets c of None \<Rightarrow> False | Some p \<Rightarrow> ob20 p)"

definition ConnectionID :: "conn \<Rightarrow> u32" where
  "ConnectionID c = (case packets c of None \<Rightarrow> 0 | Some p \<Rightarrow> connectionID p)"

definition Conn_Close :: "zlib \<Rightarrow> unit cst" where
  "Conn_Close z c =
     (if closed c then (Ok (), c)
      else
        let c = c\<lparr>closed := True\<rparr>
        in case netConn c of
             None \<Rightarrow> (Ok (), c)
           | Some n \<Rightarrow>
               (case bind_st new_command (\<lambda>_. conn_write z [ComQuit]) c of
                  (Panic, c') \<Rightarrow> (Panic, c')
                | (_, c') \<Rightarrow>
                    (case closeErr n of None \<Rightarrow> Ok () | Some e \<Rightarrow> Err e,
                     c'\<lparr>netConn := None, packets := None\<rparr>)))"

definition closeStmt :: "zlib \<Rightarrow> u32 \<Rightarrow> unit cst" where
  "closeStmt z stmtID c =
     (if closed c \<or> bad c then (Ok (), c)
      else bind_st new_command (\<lambda>_. conn_write z (ComStmtClose # le_bytes 4 stmtID)) c)"

text \<open>\<open>BeginTx\<close>: only the default isolation level; nothing is sent.\<close>

definition BeginTx :: "int \<Rightarrow> bool \<Rightarrow> unit cst" where
  "BeginTx isolation readOnly c =
     (if isolation \<noteq> 0 then (Err (Errorf ''oceanbase: custom transaction isolation is not implemented'' []), c)
      else if readOnly then (Err (Errorf ''oceanbase: read-only transactions are not implemented'' []), c)
      else if inTx c then (Err (Errorf ''oceanbase: transaction already active'' []), c)
      else (Ok (), c\<lparr>inTx := True\<rparr>))"

definition Begin :: "unit cst" where
  "Begin = BeginTx 0 False"

definition TenantMode :: "conn \<Rightarrow> string" where
  "TenantMode c = tenantMode c"

definition Ping :: "zlib \<Rightarrow> go_ctx \<Rightarrow> unit cst" where
  "Ping z ctx =
     bind_st checkUsableLocked (\<lambda>_.
       on_error markBadIfConnErr (withDeadline ctx
         (bind_st new_command (\<lambda>_.
          bind_st (conn_write z [ComPing]) (\<lambda>_.
          bind_st (read_marked z) (\<lambda>packet.
            if packet = [] then fail_protocol UnexpectedEOF
            else if packet ! 0 = ErrPacket then fail_protocol (parseServerError packet)
            else if packet ! 0 \<noteq> OKPacket then
              fail_protocol (Errorf ''oceanbase: unexpected ping response packet 0x%02x'' [AInt (uint (packet ! 0))])
            else return_st ()))))))"

subsection \<open>Compression negotiation\<close>

definition isEnvClosed :: "string \<Rightarrow> bool" where
  "isEnvClosed env \<longleftrightarrow> env \<noteq> [] \<and> ToLower env \<in> {''0'', ''false'', ''off'', ''no''}"

definition NegotiateCompression :: "bool \<Rightarrow> u32 \<Rightarrow> string \<Rightarrow> bool" where
  "NegotiateCompression optionUseCompression serverCapabilityFlags envOverride =
     (let envClosed = (envOverride \<noteq> [] \<and> ToLower envOverride \<in> {''0'', ''false'', ''off'', ''no''});
          clientWants = optionUseCompression \<and> \<not> envClosed;
          serverSupports = serverCapabilityFlags AND ClientCompress \<noteq> 0
      in clientWants \<and> serverSupports)"

definition boolToOnOff :: "bool \<Rightarrow> string" where
  "boolToOnOff b = (if b then ''on'' else ''off'')"

definition negotiationResultLabel :: "bool \<Rightarrow> bool \<Rightarrow> bool \<Rightarrow> string" where
  "negotiationResultLabel negotiated client server =
     (if negotiated then ''ENABLED''
      else if client \<and> \<not> server then ''downgraded to uncompressed''
      else if \<not> client \<and> server then ''uncompressed (client opted out)''
      else ''uncompressed'')"

end
