(* ===== verification/State_Frames.thy ===== *)
theory State_Frames
  imports Packet_Framing
begin

text \<open>
  What a call may change.  A \<open>state_frame\<close> is a reflexive and transitive relation between the state
  before and after a call; a call is within the frame when every outcome, errors and panics
  included, relates the two states.  The rules of the locale take a frame through sequencing, so
  that the frame of an operation follows from the frames of the calls it makes.
\<close>

lemma bind_assoc: "bind_st (bind_st m f) g = bind_st m (\<lambda>x. bind_st (f x) g)"
  by (rule ext) (auto simp: bind_st_def split: prod.splits res.splits)

lemma bind_fail: "bind_st (fail_st e) f = fail_st e"
  by (rule ext) simp

definition within :: "('s \<Rightarrow> 's \<Rightarrow> bool) \<Rightarrow> ('s, 'a) st \<Rightarrow> bool" where
  "within R m \<longleftrightarrow> (\<forall>s. R s (snd (m s)))"

lemma withinD: "within R m \<Longrightarrow> m s = (r, s') \<Longrightarrow> R s s'"
  by (metis snd_conv within_def)

lemma within_snd: "within R m \<Longrightarrow> R s (snd (m s))"
  by (simp add: within_def)

lemma withinI: "(\<And>s r s'. m s = (r, s') \<Longrightarrow> R s s') \<Longrightarrow> within R m"
  by (simp add: within_def prod_eq_iff)

text \<open>The same for the calls that return a value.\<close>

definition ok_within :: "('s \<Rightarrow> 's \<Rightarrow> bool) \<Rightarrow> ('s, 'a) st \<Rightarrow> bool" where
  "ok_within R m \<longleftrightarrow> (\<forall>s x s'. m s = (Ok x, s') \<longrightarrow> R s s')"

lemma ok_withinD: "ok_within R m \<Longrightarrow> m s = (Ok x, s') \<Longrightarrow> R s s'"
  by (simp add: ok_within_def)

lemma ok_withinI: "(\<And>s x s'. m s = (Ok x, s') \<Longrightarrow> R s s') \<Longrightarrow> ok_within R m"
  by (simp add: ok_within_def)

locale state_frame =
  fixes R :: "'s \<Rightarrow> 's \<Rightarrow> bool"
  assumes refl [simp, intro]: "R s s"
    and trans: "R s t \<Longrightarrow> R t u \<Longrightarrow> R s u"
begin

lemma within_return [simp]: "within R (return_st x)"
  by (simp add: within_def)

lemma within_fail [simp]: "within R (fail_st e)"
  by (simp add: within_def)

lemma within_const [simp]: "within R (\<lambda>s. (f s, s))"
  by (simp add: within_def)

lemma within_bind:
  assumes "within R m" and "\<And>x. within R (f x)"
  shows "within R (bind_st m f)"
proof (rule withinI)
  fix s r s' assume run: "bind_st m f s = (r, s')"
  obtain r1 s1 where m: "m s = (r1, s1)" by fastforce
  then have first: "R s s1" using assms(1) by (rule withinD [rotated])
  show "R s s'"
  proof (cases r1)
    case (Ok x)
    with run m have "f x s1 = (r, s')" by simp
    with assms(2) have "R s1 s'" using withinD by metis
    with first show ?thesis by (rule trans)
  qed (use run m first in auto)
qed

lemma within_if: "(b \<Longrightarrow> within R m) \<Longrightarrow> (\<not> b \<Longrightarrow> within R n) \<Longrightarrow> within R (if b then m else n)"
  by simp

lemmas within_rules = within_return within_fail within_const within_if within_bind

lemma ok_return [simp]: "ok_within R (return_st x)"
  by (simp add: ok_within_def)

lemma ok_fail [simp]: "ok_within R (fail_st e)"
  by (simp add: ok_within_def)

lemma ok_const [simp]: "ok_within R (\<lambda>s. (f s, s))"
  by (simp add: ok_within_def)

lemma ok_bind:
  assumes "ok_within R m" and "\<And>x. ok_within R (f x)"
  shows "ok_within R (bind_st m f)"
proof -
  have "R s t" if "bind_st m f s = (Ok y, t)" for s y t
    using that assms by (elim bind_st_Ok_E) (metis ok_within_def trans)
  then show ?thesis by (simp add: ok_within_def)
qed

lemma ok_if: "(b \<Longrightarrow> ok_within R m) \<Longrightarrow> (\<not> b \<Longrightarrow> ok_within R n) \<Longrightarrow> ok_within R (if b then m else n)"
  by simp

lemmas ok_rules = ok_return ok_fail ok_const ok_if ok_bind

end

subsection \<open>Reading packets\<close>

text \<open>
  How much is left to read: the stream, then the bytes already unpacked.  Reading a packet makes it
  smaller in the lexicographic order, which is what ends the loops that drain result sets.
\<close>

definition unread_le :: "packet_conn \<Rightarrow> packet_conn \<Rightarrow> bool" where
  "unread_le p q \<longleftrightarrow>
     length (rx q) < length (rx p) \<or>
     length (rx q) = length (rx p) \<and> length (mysqlBuf q) \<le> length (mysqlBuf p)"

definition unread_less :: "packet_conn \<Rightarrow> packet_conn \<Rightarrow> bool" where
  "unread_less p q \<longleftrightarrow>
     length (rx q) < length (rx p) \<or>
     length (rx q) = length (rx p) \<and> length (mysqlBuf q) < length (mysqlBuf p)"

interpretation ul: state_frame unread_le
  by unfold_locales (auto simp: unread_le_def)

text \<open>Reading takes a prefix of the stream, writes nothing and keeps the protocol's mode.\<close>

definition same_mode :: "packet_conn \<Rightarrow> packet_conn \<Rightarrow> bool" where
  "same_mode p q \<longleftrightarrow>
     rxEnd q = rxEnd p \<and> ob20 q = ob20 p \<and> compressed q = compressed p \<and> connectionID q = connectionID p \<and>
     ob20Magic q = ob20Magic p \<and> ob20NewExtraInfo q = ob20NewExtraInfo p \<and> ob20Checksum q = ob20Checksum p"

definition read_only :: "packet_conn \<Rightarrow> packet_conn \<Rightarrow> bool" where
  "read_only p q \<longleftrightarrow>
     (\<exists>k. rx q = drop k (rx p)) \<and> tx q = tx p \<and> txFail q = txFail p \<and> same_mode p q \<and>
     requestID q = requestID p \<and> extraInfos q = extraInfos p"

lemma drop_trans: "rx t = drop k (rx s) \<Longrightarrow> rx u = drop l (rx t) \<Longrightarrow> \<exists>m. rx u = drop m (rx s)"
  by (intro exI [of _ "l + k"]) simp

interpretation ro: state_frame read_only
proof
  show "read_only s s" for s
    unfolding read_only_def same_mode_def by (auto intro: exI [of _ 0])
  show "read_only s u" if "read_only s t" and "read_only t u" for s t u
  proof -
    from that obtain k l where "rx t = drop k (rx s)" and "rx u = drop l (rx t)"
      by (auto simp: read_only_def)
    from drop_trans [OF this] that show ?thesis by (simp add: read_only_def same_mode_def)
  qed
qed

lemma read_only_updates [simp]:
  "read_only s (s\<lparr>mysqlBuf := b\<rparr>)" "read_only s (s\<lparr>seq := n\<rparr>)" "read_only s (s\<lparr>mysqlBuf := b, seq := n\<rparr>)"
  by (auto simp: read_only_def same_mode_def intro: exI [of _ 0])

lemma readFull_read_only: "within read_only (readFull n)"
proof (rule withinI)
  fix s r s' assume run: "readFull n s = (r, s')"
  then obtain rest where s': "s' = s\<lparr>rx := rest\<rparr>" by (auto simp: readFull_def split: prod.splits)
  have "rest = drop n (rx s) \<or> rest = drop (length (rx s)) (rx s)"
    using run by (auto simp: s' readFull_def read_full_src_def split: if_splits) (metis packet_conn.select_convs(1) packet_conn.update_convs(1) packet_conn.surjective)+
  then show "read_only s s'"
    by (auto simp: s' read_only_def same_mode_def)
qed

lemma readOB20Frame_read_only: "within read_only readOB20Frame"
  unfolding readOB20Frame_def
  by (intro ro.within_bind readFull_read_only)
    (auto simp: Let_def within_def intro!: ro.within_bind [unfolded within_def, rule_format] readFull_read_only [unfolded within_def, rule_format]
      split: option.splits)

lemma drain_mysql_read_only: "drain_mysql out c = (r, c') \<Longrightarrow> read_only c c'"
proof -
  have "read_only c (snd (drain_mysql out c))"
  proof (induction out c rule: drain_mysql.induct)
    case (1 out c)
    show ?case
    proof (cases "length (mysqlBuf c) < 4 \<or> length (mysqlBuf c) < 4 + mysql_len (mysqlBuf c) \<or>
        mysql_len (mysqlBuf c) < maxPayloadLen")
      case True
      then show ?thesis by (subst drain_mysql.simps) (auto simp: Let_def)
    next
      case False
      let ?n = "mysql_len (mysqlBuf c)"
      let ?c = "c\<lparr>mysqlBuf := drop (4 + ?n) (mysqlBuf c), seq := seq c + 1\<rparr>"
      have "read_only ?c (snd (drain_mysql (out @ subslice 4 (4 + ?n) (mysqlBuf c)) ?c))"
        using False by (intro 1) auto
      then have "read_only c (snd (drain_mysql (out @ subslice 4 (4 + ?n) (mysqlBuf c)) ?c))"
        using ro.trans read_only_updates(3) by blast
      with False show ?thesis
        by (subst drain_mysql.simps) (simp add: Let_def)
    qed
  qed
  then show "drain_mysql out c = (r, c') \<Longrightarrow> read_only c c'" by simp
qed

lemma readCompressedFrame_read_only: "within read_only (readCompressedFrame zopen out)"
proof -
  have drain: "read_only c (snd (let ((out', complete), c') = drain_mysql out (c\<lparr>mysqlBuf := b\<rparr>)
      in (Ok (f out' complete), c')))" for c b f
  proof -
    obtain o1 k c1 where d: "drain_mysql out (c\<lparr>mysqlBuf := b\<rparr>) = ((o1, k), c1)" by (metis surj_pair)
    from drain_mysql_read_only [OF d] have "read_only c c1"
      using ro.trans [of c "c\<lparr>mysqlBuf := b\<rparr>" c1] by simp
    then show ?thesis by (simp add: d)
  qed
  show ?thesis
    unfolding readCompressedFrame_def Let_def
    by (intro ro.within_bind readFull_read_only)
      (auto simp: within_def drain [unfolded Let_def] split: res.splits)
qed

lemma readPlainFrame_read_only: "within read_only (readPlainFrame out)"
proof -
  have step: "read_only c (snd (bind_st (readFull n) f (c\<lparr>seq := k\<rparr>)))" if "\<And>x. within read_only (f x)"
    for n f c and k :: byte
    using ro.within_bind [OF readFull_read_only that] ro.trans [of c "c\<lparr>seq := k\<rparr>"]
    by (auto simp: within_def)
  show ?thesis
    unfolding readPlainFrame_def Let_def
    by (intro ro.within_bind readFull_read_only) (auto simp: within_def intro!: step)
qed

text \<open>One round of the loop of \<open>ReadPacket\<close>: it stops, or goes on with less to read.\<close>

lemma ReadPacket_loop_round:
  obtains (stop) r c' where "ReadPacket_loop zopen out c = (r, c')" and "read_only c c'"
      and "\<And>b. r = Ok b \<Longrightarrow> unread_less c c'"
  | (again) out1 c1 where "ReadPacket_loop zopen out c = ReadPacket_loop zopen out1 c1" and "read_only c c1"
      and "unread_less c c1"
proof (cases "ob20 c")
  case ob: True
  let ?b = "mysqlBuf c" and ?n = "mysql_len (mysqlBuf c)"
  show ?thesis
  proof (cases "4 \<le> length ?b \<and> 4 + ?n \<le> length ?b")
    case True
    let ?c = "c\<lparr>mysqlBuf := drop (4 + ?n) ?b\<rparr>"
    have "unread_less c ?c" using True by (auto simp: unread_less_def)
    with True ob show ?thesis
      using stop [of "Ok (out @ subslice 4 (4 + ?n) ?b)" ?c] again [of "out @ subslice 4 (4 + ?n) ?b" ?c]
      by (cases "?n < maxPayloadLen") (simp_all add: ReadPacket_loop.simps [of zopen out c] Let_def)
  next
    case False
    obtain r c1 where run: "readOB20Frame c = (r, c1)" by fastforce
    note ro1 = withinD [OF readOB20Frame_read_only run]
    have eq: "ReadPacket_loop zopen out c = (case readOB20Frame c of
        (Ok _, c') \<Rightarrow> ReadPacket_loop zopen out c' | (Err e, c') \<Rightarrow> (Err e, c') | (Panic, c') \<Rightarrow> (Panic, c'))"
      using ob False by (auto simp: ReadPacket_loop.simps [of zopen out c] Let_def)
    show ?thesis
    proof (cases r)
      case (Ok u)
      then have "unread_less c c1" using readOB20Frame_shrinks run by (auto simp: unread_less_def)
      with Ok run ro1 eq show ?thesis using again [of out c1] by simp
    qed (use stop eq run ro1 in auto)
  qed
next
  case plain: False
  define step where "step = (if compressed c then readCompressedFrame zopen out else readPlainFrame out)"
  have eq: "ReadPacket_loop zopen out c = (case step c of
      (Ok (out', complete), c') \<Rightarrow> if complete then (Ok out', c') else ReadPacket_loop zopen out' c'
    | (Err e, c') \<Rightarrow> (Err e, c') | (Panic, c') \<Rightarrow> (Panic, c'))"
    using plain by (simp add: ReadPacket_loop.simps [of zopen out c] step_def)
  obtain r c1 where run: "step c = (r, c1)" by fastforce
  have ro1: "read_only c c1"
    using run withinD [OF readCompressedFrame_read_only] withinD [OF readPlainFrame_read_only]
    by (auto simp: step_def split: if_splits)
  show ?thesis
  proof (cases r)
    case (Ok x)
    obtain o1 k where x: "x = (o1, k)" by fastforce
    have "unread_less c c1"
      using Ok run readCompressedFrame_shrinks readPlainFrame_shrinks
      by (auto simp: unread_less_def step_def split: if_splits)
    with Ok x run ro1 eq show ?thesis
      using stop [of "Ok o1" c1] again [of o1 c1] by (cases k) simp_all
  qed (use stop eq run ro1 in auto)
qed

lemma unread_less_wf: "wf {(q, p). unread_less p q}"
  by (rule wf_subset [OF wf_measures [of "[\<lambda>c. length (rx c), \<lambda>c. length (mysqlBuf c)]"]])
    (auto simp: unread_less_def)

lemma unread_less_trans: "unread_less p q \<Longrightarrow> unread_less q s \<Longrightarrow> unread_less p s"
  by (auto simp: unread_less_def)

lemma ReadPacket_loop_frame:
  "ReadPacket_loop zopen out c = (r, c') \<Longrightarrow> read_only c c' \<and> (\<forall>b. r = Ok b \<longrightarrow> unread_less c c')"
proof (induction c arbitrary: out r c' rule: wf_induct_rule [OF unread_less_wf])
  case (1 c)
  show ?case
  proof (cases rule: ReadPacket_loop_round [of zopen out c])
    case (stop r1 c1)
    with 1 show ?thesis by auto
  next
    case (again out1 c1)
    with 1 have "read_only c1 c' \<and> (\<forall>b. r = Ok b \<longrightarrow> unread_less c1 c')" by simp
    with again show ?thesis using ro.trans unread_less_trans by blast
  qed
qed

lemma ReadPacket_read_only: "within read_only (ReadPacket zopen)"
  by (rule withinI) (use ReadPacket_loop_frame in \<open>auto simp: ReadPacket_def\<close>)

lemma ReadPacket_unread: "ReadPacket zopen c = (Ok b, c') \<Longrightarrow> unread_less c c'"
  using ReadPacket_loop_frame by (auto simp: ReadPacket_def)

subsection \<open>Writing packets\<close>

text \<open>Any exchange: a prefix of the stream is taken, bytes are appended to what was sent.\<close>

definition exchange :: "packet_conn \<Rightarrow> packet_conn \<Rightarrow> bool" where
  "exchange p q \<longleftrightarrow> (\<exists>k. rx q = drop k (rx p)) \<and> (\<exists>w. tx q = tx p @ w) \<and> same_mode p q"

interpretation ex: state_frame exchange
proof
  show "exchange s s" for s
    unfolding exchange_def same_mode_def by (auto intro: exI [of _ 0])
  show "exchange s u" if "exchange s t" and "exchange t u" for s t u
  proof -
    from that obtain k l where "rx t = drop k (rx s)" and "rx u = drop l (rx t)"
      by (auto simp: exchange_def)
    from drop_trans [OF this] that show ?thesis by (auto simp: exchange_def same_mode_def)
  qed
qed

lemma read_only_exchange: "read_only p q \<Longrightarrow> exchange p q"
  by (auto simp: read_only_def exchange_def)

lemma exchange_updates [simp]:
  "exchange s (s\<lparr>seq := n\<rparr>)" "exchange s (NextRequest (ResetSequence s))" "exchange s (ClearExtraInfo s)"
  "exchange s (AddExtraInfo t d s)"
  by (auto simp: exchange_def same_mode_def NextRequest_def ResetSequence_def ClearExtraInfo_def AddExtraInfo_def
      intro: exI [of _ 0])

lemma writeRaw_exchange: "within exchange (writeRaw b)"
  by (auto simp: within_def writeRaw_def exchange_def same_mode_def intro: exI [of _ 0]
      split: list.splits option.splits)

lemma write_ob20_frame_exchange: "within exchange (write_ob20_frame h b)"
proof -
  have "exchange c (snd (write_ob20_frame h b c))" for c
    unfolding write_ob20_frame_def
    by (rule within_snd [where R = exchange], intro ex.within_bind writeRaw_exchange)
  then show ?thesis by (simp add: within_def)
qed

lemma writeChunk_exchange: "within exchange (writeChunk deflate chunk)"
proof (rule withinI)
  fix c r c' assume run: "writeChunk deflate chunk c = (r, c')"
  let ?c = "c\<lparr>seq := seq c + 1\<rparr>"
  have two: "exchange ?c (snd (bind_st (writeRaw a) (\<lambda>_. writeRaw b) ?c))" for a b
    by (rule within_snd [where R = exchange], intro ex.within_bind writeRaw_exchange)
  have "exchange ?c c'"
    using run withinD [OF write_ob20_frame_exchange] withinD [OF writeRaw_exchange] two
    by (auto simp: writeChunk_def Let_def split: if_splits) (metis snd_conv)+
  then show "exchange c c'" using ex.trans [of c ?c c'] by simp
qed

lemma writeEmptyContinuation_exchange: "within exchange writeEmptyContinuation"
proof (rule withinI)
  fix c r c' assume run: "writeEmptyContinuation c = (r, c')"
  let ?c = "c\<lparr>seq := seq c + 1\<rparr>"
  have "exchange ?c c'"
    using run withinD [OF write_ob20_frame_exchange] withinD [OF writeRaw_exchange]
    by (auto simp: writeEmptyContinuation_def Let_def split: if_splits)
  then show "exchange c c'" using ex.trans [of c ?c c'] by simp
qed

lemma WritePacket_exchange: "within exchange (WritePacket deflate payload)"
proof -
  have "WritePacket deflate payload c = (r, c') \<Longrightarrow> exchange c c'" for r c c'
  proof (induction deflate payload c arbitrary: r c' rule: WritePacket.induct)
    case (1 deflate payload c)
    let ?n = "min (length payload) (chunk_limit c)"
    obtain r1 c1 where chunk: "writeChunk deflate (take ?n payload) c = (r1, c1)" by fastforce
    have c1: "exchange c c1" using withinD [OF writeChunk_exchange chunk] .
    show ?case
    proof (cases r1)
      case (Ok u)
      have "exchange c1 c'"
        using "1.prems" chunk Ok withinD [OF writeEmptyContinuation_exchange]
          "1.IH" [OF refl chunk [symmetric, unfolded Ok]]
        by (auto simp: WritePacket.simps [of deflate payload c] Let_def split: if_splits)
      with c1 show ?thesis by (rule ex.trans)
    qed (use "1.prems" chunk c1 in \<open>auto simp: WritePacket.simps [of deflate payload c] Let_def\<close>)
  qed
  then show ?thesis by (rule withinI)
qed

end
