(* ===== verification/Conn_Frames.thy ===== *)
theory Conn_Frames
  imports Conn State_Frames
begin

text \<open>
  What the calls of a connection may change: the configuration, the negotiated flags, the lock and
  the transaction flag stay, a connection once marked bad stays bad, and the packet layer moves
  within a frame of its own.  The locale \<open>lifted_frame\<close> lifts a frame of the packet layer to the
  connection and \<open>packet_frame\<close> adds that reading stays in it; they are interpreted for calls that
  leave the packet layer alone, that only read, and that also write.
\<close>

definition conn_frame :: "(packet_conn \<Rightarrow> packet_conn \<Rightarrow> bool) \<Rightarrow> conn \<Rightarrow> conn \<Rightarrow> bool" where
  "conn_frame P c d \<longleftrightarrow>
     rel_option P (packets c) (packets d) \<and> cfg d = cfg c \<and> deprecateEOF d = deprecateEOF c \<and>
     sessionTrack d = sessionTrack c \<and> tenantMode d = tenantMode c \<and> closed d = closed c \<and>
     inTx d = inTx c \<and> locked d = locked c \<and> (bad c \<longrightarrow> bad d) \<and> (netConn d = None \<longleftrightarrow> netConn c = None)"

text \<open>One round of the loop over tracked variables.\<close>

lemma track_loop_round:
  obtains (stop) r where "track_loop val pos c = (r, c)"
  | (again) pos' k v where "track_loop val pos c = track_loop val pos' (noteCapability k v c)"
      and "length val - pos' < length val - pos"
proof (cases "pos < length val")
  case False
  then show ?thesis using stop [of "Ok ()"] by (simp add: track_loop.simps [of val pos c])
next
  case pos: True
  show ?thesis
  proof (cases "ReadLengthEncodedInt (drop pos val)")
    case (Ok x)
    obtain n used null where x: "x = (n, used, null)" by (metis prod_cases3)
    have used: "0 < used" using ReadLengthEncodedInt_used Ok x by blast
    let ?p = "pos + used"
    let ?e = "add_int64 (int ?p) (go_int n)"
    have eq: "track_loop val pos c =
      (if int (length val) < ?e then (Ok (), c)
       else if ?e < int ?p then (Panic, c)
       else case ReadLengthEncodedString (subslice ?p (nat ?e) val) of
         Ok (k, kUsed, _) \<Rightarrow>
           (case ReadLengthEncodedString (subslice (?p + kUsed) (nat ?e) val) of
              Ok (v, vUsed, _) \<Rightarrow>
                track_loop val (max (?p + kUsed + vUsed) (nat ?e)) (noteCapability (string_of k) (string_of v) c)
            | _ \<Rightarrow> (Ok (), c))
       | _ \<Rightarrow> (Ok (), c))"
      using pos Ok x by (simp add: track_loop.simps [of val pos c] Let_def)
    show ?thesis
    proof (cases "int (length val) < ?e \<or> ?e < int ?p")
      case True
      then show ?thesis using eq stop by (cases "int (length val) < ?e") simp_all
    next
      case range: False
      show ?thesis
      proof (cases "ReadLengthEncodedString (subslice ?p (nat ?e) val)")
        case (Ok y)
        obtain k kUsed m where y: "y = (k, kUsed, m)" by (metis prod_cases3)
        show ?thesis
        proof (cases "ReadLengthEncodedString (subslice (?p + kUsed) (nat ?e) val)")
          case (Ok w)
          obtain v vUsed l where w: "w = (v, vUsed, l)" by (metis prod_cases3)
          show ?thesis
            using eq range \<open>ReadLengthEncodedString (subslice ?p (nat ?e) val) = _\<close> Ok y w used pos
            by (intro again [of "max (?p + kUsed + vUsed) (nat ?e)" "string_of k" "string_of v"]) auto
        qed (use eq range \<open>ReadLengthEncodedString (subslice ?p (nat ?e) val) = _\<close> y stop in auto)
      qed (use eq range stop in auto)
    qed
  qed (use pos stop in \<open>auto simp: track_loop.simps [of val pos c]\<close>)
qed

locale lifted_frame = state_frame P for P :: "packet_conn \<Rightarrow> packet_conn \<Rightarrow> bool"

sublocale lifted_frame \<subseteq> cf: state_frame "conn_frame P"
proof
  show "conn_frame P s s" for s
    by (cases "packets s") (simp_all add: conn_frame_def)
  show "conn_frame P s u" if "conn_frame P s t" and "conn_frame P t u" for s t u
  proof -
    have "rel_option P a d" if "rel_option P a b" and "rel_option P b d" for a b d
      using that by (cases a; cases b; cases d) (auto intro: trans)
    then have "rel_option P (packets s) (packets u)" using that unfolding conn_frame_def by blast
    with that show ?thesis by (simp add: conn_frame_def)
  qed
qed

context lifted_frame
begin

lemma on_packets_within:
  assumes "within P m"
  shows "within (conn_frame P) (on_packets m)"
proof (rule withinI)
  fix c r c' assume run: "on_packets m c = (r, c')"
  show "conn_frame P c c'"
  proof (cases "packets c")
    case None
    then show ?thesis using run by (simp add: on_packets_def)
  next
    case (Some p)
    obtain r' p' where m: "m p = (r', p')" by fastforce
    with run Some have "c' = c\<lparr>packets := Some p'\<rparr>" by (simp add: on_packets_def)
    moreover have "P p p'" using withinD [OF assms m] .
    ultimately show ?thesis using Some by (simp add: conn_frame_def)
  qed
qed

lemma bad_within [simp]: "conn_frame P c (c\<lparr>bad := True\<rparr>)"
  by (cases "packets c") (simp_all add: conn_frame_def)

lemma field_updates_within [simp]:
  "conn_frame P c (c\<lparr>db := s\<rparr>)" "conn_frame P c (c\<lparr>sessionLocation := l\<rparr>)" "conn_frame P c (c\<lparr>ob20Confirmed := b\<rparr>)"
  "conn_frame P c (c\<lparr>ob20Declined := b\<rparr>)" "conn_frame P c (c\<lparr>sessionLocation := l, bad := True\<rparr>)"
  by (cases "packets c"; simp add: conn_frame_def)+

lemma marks_within:
  "conn_frame P c (snd (markProtocolError e c))" "conn_frame P c (snd (markBadIfConnErr e c))"
  "conn_frame P c (snd (markSessionResetError e c))"
  by (simp_all add: markProtocolError_def markBadIfConnErr_def markSessionResetError_def Let_def)

lemma on_error_within:
  assumes "within (conn_frame P) m" and "\<And>e c. conn_frame P c (snd (mark e c))"
  shows "within (conn_frame P) (on_error mark m)"
proof (rule withinI)
  fix c r c' assume run: "on_error mark m c = (r, c')"
  obtain r1 c1 where m: "m c = (r1, c1)" by fastforce
  have first: "conn_frame P c c1" using withinD [OF assms(1) m] .
  show "conn_frame P c c'"
  proof (cases r1)
    case (Err e)
    obtain e' c2 where "mark e c1 = (e', c2)" by fastforce
    with assms(2) [of c1 e] run m Err first cf.trans show ?thesis by (auto simp: on_error_def)
  qed (use run m first in \<open>auto simp: on_error_def\<close>)
qed

lemma protocol_within: "within (conn_frame P) m \<Longrightarrow> within (conn_frame P) (on_error markProtocolError m)"
  by (rule on_error_within [OF _ marks_within(1)])

lemma bad_conn_within: "within (conn_frame P) m \<Longrightarrow> within (conn_frame P) (on_error markBadIfConnErr m)"
  by (rule on_error_within [OF _ marks_within(2)])

lemma fail_protocol_within: "within (conn_frame P) (fail_protocol e)"
  by (rule protocol_within) simp

lemma lift_res_within [simp]: "within (conn_frame P) (lift_res r)"
  by (simp add: within_def lift_res_def)

lemma checkUsable_within: "within (conn_frame P) checkUsableLocked"
  by (simp add: within_def checkUsableLocked_def)

lemma noteCapability_within: "conn_frame P c (noteCapability k v c)"
  by (simp add: noteCapability_def)

lemma track_loop_within: "track_loop val pos c = (r, c') \<Longrightarrow> conn_frame P c c'"
proof (induction "length val - pos" arbitrary: pos c rule: less_induct)
  case less
  show ?case
  proof (cases rule: track_loop_round [of val pos c])
    case (stop r1)
    with less(2) show ?thesis by simp
  next
    case (again pos' k v)
    with less have "conn_frame P (noteCapability k v c) c'" by simp
    then show ?thesis using cf.trans noteCapability_within by blast
  qed
qed

lemma state_loop_within: "state_loop data pos c = (r, c') \<Longrightarrow> conn_frame P c c'"
proof (induction data pos c arbitrary: r c' rule: state_loop.induct)
  case (1 data pos c)
  show ?case
  proof (cases "length data \<le> pos")
    case True
    then show ?thesis using 1(2) by (simp add: state_loop.simps [of data pos c])
  next
    case False
    show ?thesis
    proof (cases "ReadLengthEncodedString (drop (pos + 1) data)")
      case (Ok x)
      obtain val used n where x: "x = (val, used, n)" by (metis prod_cases3)
      define item where "item = (if data ! pos = 0x00 \<or> data ! pos = 0x26 then track_loop val 0 c
        else if data ! pos = 0x01 then (Ok (), c\<lparr>db := string_of val\<rparr>) else (Ok (), c))"
      obtain r1 c1 where item1: "item = (r1, c1)" by fastforce
      have first: "conn_frame P c c1"
        using item1 track_loop_within [of val 0 c] by (auto simp: item_def split: if_splits)
      have eq: "state_loop data pos c = (case item of (Ok _, c') \<Rightarrow> state_loop data (pos + 1 + used) c'
          | (Err e, c') \<Rightarrow> (Err e, c') | (Panic, c') \<Rightarrow> (Panic, c'))"
        using False Ok x by (simp add: state_loop.simps [of data pos c] item_def)
      show ?thesis
      proof (cases r1)
        case (Ok u)
        with 1(2) eq item1 have "state_loop data (pos + 1 + used) c1 = (r, c')" by simp
        then have "conn_frame P c1 c'"
          using 1(1) [OF False \<open>ReadLengthEncodedString _ = _\<close> x [symmetric] HOL.refl, of r1 c1 u r c'] item1 Ok
          by (simp add: item_def)
        with first show ?thesis by (rule cf.trans)
      qed (use 1(2) eq item1 first in auto)
    qed (use False 1(2) in \<open>auto simp: state_loop.simps [of data pos c]\<close>)
  qed
qed

lemma handleOK_within: "within (conn_frame P) (handleOK packet)"
proof -
  have "within (conn_frame P) (ok_session_state packet pos)" for pos
    by (auto simp: within_def ok_session_state_def handleStateChange_def Let_def
        split: res.splits prod.splits dest: state_loop_within)
  then show ?thesis
    unfolding handleOK_def Let_def
    by (auto intro!: cf.within_bind split: prod.splits)
qed

lemma updateSessionTimeZone_within: "within (conn_frame P) (updateSessionTimeZoneFromQuery query args)"
  by (auto simp: within_def updateSessionTimeZoneFromQuery_def sessionTimeZoneSyncError_def
      split: option.splits res.splits prod.splits)

lemma withDeadline_within:
  assumes "within (conn_frame P) m"
  shows "within (conn_frame P) (withDeadline ctx m)"
proof -
  have net: "within (conn_frame P) SetDeadline"
  proof (rule withinI)
    fix c r c' assume "SetDeadline c = (r, c')"
    then show "conn_frame P c c'"
      by (cases "packets c")
        (auto simp: SetDeadline_def conn_frame_def split: option.splits list.splits)
  qed
  have body: "within (conn_frame P) (\<lambda>c. case m c of
      (Err e, c') \<Rightarrow> (case ctxErr ctx of Some ctxE \<Rightarrow> (Err ctxE, c'\<lparr>bad := True\<rparr>) | None \<Rightarrow> (Err e, c')) | r \<Rightarrow> r)"
  proof (rule withinI)
    fix c r c' assume run: "(case m c of
      (Err e, c') \<Rightarrow> (case ctxErr ctx of Some ctxE \<Rightarrow> (Err ctxE, c'\<lparr>bad := True\<rparr>) | None \<Rightarrow> (Err e, c')) | r \<Rightarrow> r) = (r, c')"
    obtain r1 c1 where m: "m c = (r1, c1)" by fastforce
    with withinD [OF assms m] run show "conn_frame P c c'"
      by (auto split: res.splits option.splits intro: cf.trans [OF _ bad_within])
  qed
  show ?thesis
    unfolding withDeadline_def
    by (intro cf.within_bind body) (auto simp: within_def needs_deadline_def net [unfolded within_def] split: option.splits)
qed

end

locale packet_frame = lifted_frame P for P :: "packet_conn \<Rightarrow> packet_conn \<Rightarrow> bool" +
  assumes reading: "read_only p q \<Longrightarrow> P p q"
begin

lemma conn_read_within: "within (conn_frame P) (conn_read z)"
  unfolding conn_read_def
  by (rule on_packets_within) (use within_snd [OF ReadPacket_read_only] reading in \<open>auto simp: within_def\<close>)

lemma read_marked_within: "within (conn_frame P) (read_marked z)"
  unfolding read_marked_def by (rule protocol_within, rule conn_read_within)

end

text \<open>Calls that do not touch the packet layer, that only read, and that exchange packets.\<close>

interpretation un: lifted_frame "(=)"
  by unfold_locales auto

interpretation rd: packet_frame read_only
  by unfold_locales

interpretation xc: packet_frame exchange
  by unfold_locales (rule read_only_exchange)

lemma conn_frame_mono: "conn_frame read_only c d \<Longrightarrow> conn_frame exchange c d"
  using read_only_exchange by (auto simp: conn_frame_def elim: option.rel_mono_strong)

lemma within_exchange: "within (conn_frame read_only) m \<Longrightarrow> within (conn_frame exchange) m"
  by (auto simp: within_def conn_frame_mono)

lemma conn_write_within: "within (conn_frame exchange) (conn_write z b)"
  unfolding conn_write_def by (rule xc.on_packets_within, rule WritePacket_exchange)

lemma new_command_within: "within (conn_frame exchange) new_command"
  unfolding new_command_def by (rule xc.on_packets_within) (simp add: within_def)

lemma writeQuery_within: "within (conn_frame exchange) (writeQuery z query)"
  unfolding writeQuery_def by (intro xc.cf.within_bind new_command_within conn_write_within)

lemma setupExtraInfo_within: "within (conn_frame exchange) (setupExtraInfo ctx)"
  unfolding setupExtraInfo_def Let_def
  by (intro xc.cf.within_bind xc.on_packets_within)
    (auto simp: within_def split: prod.splits intro!: xc.on_packets_within [unfolded within_def, rule_format])

subsection \<open>What is left to read\<close>

definition conn_unread_le :: "conn \<Rightarrow> conn \<Rightarrow> bool" where
  "conn_unread_le c d \<longleftrightarrow> rel_option unread_le (packets c) (packets d)"

definition conn_unread_less :: "conn \<Rightarrow> conn \<Rightarrow> bool" where
  "conn_unread_less c d \<longleftrightarrow> (\<exists>p q. packets c = Some p \<and> packets d = Some q \<and> unread_less p q)"

interpretation cu: state_frame conn_unread_le
proof
  show "conn_unread_le s s" for s
    by (cases "packets s") (simp_all add: conn_unread_le_def)
  have "rel_option unread_le a d" if "rel_option unread_le a b" and "rel_option unread_le b d" for a b d
    using that by (cases a; cases b; cases d) (auto intro: ul.trans)
  then show "conn_unread_le s u" if "conn_unread_le s t" and "conn_unread_le t u" for s t u
    using that unfolding conn_unread_le_def by blast
qed

lemma unchanged_unread: "conn_frame (=) c d \<Longrightarrow> conn_unread_le c d"
  by (cases "packets c") (auto simp: conn_frame_def conn_unread_le_def unread_le_def elim!: option.rel_cases)

lemma unchanged_ok: "within (conn_frame (=)) m \<Longrightarrow> ok_within conn_unread_le m"
  by (auto simp: ok_within_def dest: withinD unchanged_unread)

lemma on_error_Ok: "on_error mark m c = (Ok x, c') \<longleftrightarrow> m c = (Ok x, c')"
  by (auto simp: on_error_def split: prod.splits res.splits)

lemma read_marked_unread: "read_marked z c = (Ok b, c') \<Longrightarrow> conn_unread_less c c'"
  by (auto simp: read_marked_def on_error_Ok conn_read_def on_packets_def conn_unread_less_def
      split: option.splits prod.splits dest: ReadPacket_unread)

lemma unread_less_le: "conn_unread_less c d \<Longrightarrow> conn_unread_le c d"
  by (auto simp: conn_unread_less_def conn_unread_le_def unread_less_def unread_le_def)

lemma read_marked_ok: "ok_within conn_unread_le (read_marked z)"
  by (auto simp: ok_within_def dest: read_marked_unread unread_less_le)

lemma on_error_ok: "ok_within conn_unread_le m \<Longrightarrow> ok_within conn_unread_le (on_error mark m)"
  by (simp add: ok_within_def on_error_Ok)

text \<open>A measure on what is left, for the loops that read until a result ends.\<close>

definition unread_size :: "conn \<Rightarrow> nat \<times> nat" where
  "unread_size c = (case packets c of None \<Rightarrow> (0, 0) | Some p \<Rightarrow> (length (rx p), length (mysqlBuf p)))"

lemma unread_size_less: "conn_unread_less c d \<Longrightarrow> (unread_size d, unread_size c) \<in> less_than <*lex*> less_than"
  by (auto simp: conn_unread_less_def unread_size_def unread_less_def)

lemma unread_le_less_trans: "conn_unread_le c d \<Longrightarrow> conn_unread_less d e \<Longrightarrow> conn_unread_less c e"
  by (cases "packets c") (auto simp: conn_unread_le_def conn_unread_less_def unread_le_def unread_less_def)

end
