(* ===== verification/Result_Sets.thy ===== *)
theory Result_Sets
  imports Conn_Frames
begin

text \<open>
  The stateful part of \<open>rows.go\<close> and \<open>drainRemainingResults\<close> of \<open>conn_stmt.go\<close>: reading the header
  of a result set, streaming its rows, and draining what the caller does not read so that the next
  command finds the stream at its start.

  A method of \<open>Rows\<close> works on the result set and on the connection it belongs to; its state is the
  pair of both.  The loops bounded by \<open>maxDrainRows\<close> recurse on the rounds left.  The loop over
  result sets has no bound of its own: it ends because every round takes a packet off the stream.
\<close>

subsection \<open>Terminators\<close>

definition readEOFOrOKPacket :: "zlib \<Rightarrow> bytes cst" where
  "readEOFOrOKPacket z =
     bind_st (read_marked z) (\<lambda>packet c.
       if packet \<noteq> [] \<and> packet ! 0 = ErrPacket then fail_protocol (parseServerError packet) c
       else if \<not> isEOFOrOK packet (sessionTrack c) then
         (if packet = [] then fail_protocol UnexpectedEOF c
          else fail_protocol (Errorf ''expected EOF/OK packet, got 0x%02x'' [AInt (uint (packet ! 0))]) c)
       else (Ok packet, c))"

definition readEOFOrOK :: "zlib \<Rightarrow> unit cst" where
  "readEOFOrOK z = bind_st (readEOFOrOKPacket z) (\<lambda>_. return_st ())"

definition readResultSetTerminatorPacket :: "zlib \<Rightarrow> bytes cst" where
  "readResultSetTerminatorPacket z =
     bind_st (read_marked z) (\<lambda>packet c.
       if packet \<noteq> [] \<and> packet ! 0 = ErrPacket then fail_protocol (parseServerError packet) c
       else if \<not> isResultSetTerminatorPacket packet (sessionTrack c) then
         (if packet = [] then fail_protocol UnexpectedEOF c
          else fail_protocol (Errorf ''expected result-set EOF/OK packet, got 0x%02x'' [AInt (uint (packet ! 0))]) c)
       else (Ok packet, c))"

text \<open>The terminator behind the column definitions decides how the rows end.\<close>

definition metadata_mode :: "zlib \<Rightarrow> bool cst" where
  "metadata_mode z c =
     (if deprecateEOF c then (Ok True, c)
      else bind_st (readResultSetTerminatorPacket z) (\<lambda>t c. (Ok (isResultSetOKPacket t (sessionTrack c)), c)) c)"

subsection \<open>Draining\<close>

fun skip_packets :: "zlib \<Rightarrow> nat \<Rightarrow> unit cst" where
  "skip_packets z 0 = return_st ()"
| "skip_packets z (Suc n) = bind_st (read_marked z) (\<lambda>_. skip_packets z n)"

fun drain_rows :: "zlib \<Rightarrow> bool \<Rightarrow> nat \<Rightarrow> bool cst" where
  "drain_rows z resultSetOK 0 =
     (\<lambda>c. (Err (Errorf ''oceanbase: result-set drain exceeded %d rows, possible protocol desync'' [AInt (int maxDrainRows)]),
           c\<lparr>bad := True\<rparr>))"
| "drain_rows z resultSetOK (Suc n) =
     bind_st (read_marked z) (\<lambda>packet c.
       if packet \<noteq> [] \<and> packet ! 0 = ErrPacket then fail_protocol (parseServerError packet) c
       else if isResultSetTerminatorForMode packet resultSetOK (sessionTrack c) then
         (Ok (resultSetTerminatorHasMoreResults packet (sessionTrack c)), c)
       else drain_rows z resultSetOK n c)"

definition too_many_columns :: "u64 \<Rightarrow> go_error" where
  "too_many_columns n =
     Errorf ''oceanbase: result set column count %d exceeds maximum %d'' [AInt (uint n), AInt (int maxResultColumns)]"

definition drainResultSetAfterColumnCount :: "zlib \<Rightarrow> bytes \<Rightarrow> bool cst" where
  "drainResultSetAfterColumnCount z first =
     bind_st (on_error markProtocolError (lift_res (ReadLengthEncodedInt first))) (\<lambda>(columnCount, _, _).
       if maxResultColumns < unat columnCount then fail_protocol (too_many_columns columnCount)
       else
         bind_st (skip_packets z (unat columnCount)) (\<lambda>_.
         bind_st (metadata_mode z) (\<lambda>resultSetOK. drain_rows z resultSetOK maxDrainRows)))"

definition drainResultFromFirstPacket :: "zlib \<Rightarrow> bytes \<Rightarrow> bool cst" where
  "drainResultFromFirstPacket z first =
     (if first = [] then fail_protocol UnexpectedEOF
      else if first ! 0 = OKPacket then
        bind_st (on_error markProtocolError (handleOK first)) (\<lambda>(_, status).
          return_st (status AND ServerMoreResultsExists \<noteq> 0))
      else if first ! 0 = ErrPacket then fail_protocol (parseServerError first)
      else drainResultSetAfterColumnCount z first)"

subsubsection \<open>The loop over result sets ends\<close>

lemma handleOK_ok: "ok_within conn_unread_le (handleOK packet)"
  by (rule unchanged_ok, rule un.handleOK_within)

lemma fail_protocol_ok: "ok_within conn_unread_le (fail_protocol e)"
  by (simp add: ok_within_def on_error_Ok)

lemma lift_res_ok: "ok_within conn_unread_le (lift_res r)"
  by (simp add: ok_within_def lift_res_def)

lemma metadata_mode_ok: "ok_within conn_unread_le (metadata_mode z)"
proof -
  have "ok_within conn_unread_le (readResultSetTerminatorPacket z)"
    unfolding readResultSetTerminatorPacket_def
    by (rule cu.ok_bind [OF read_marked_ok]) (auto simp: ok_within_def on_error_Ok split: if_splits)
  then have "ok_within conn_unread_le
      (bind_st (readResultSetTerminatorPacket z) (\<lambda>t c. (Ok (isResultSetOKPacket t (sessionTrack c)), c)))"
    by (rule cu.ok_bind) simp
  then show ?thesis by (auto simp: ok_within_def metadata_mode_def split: if_splits)
qed

lemma skip_packets_ok: "ok_within conn_unread_le (skip_packets z n)"
  by (induction n) (simp_all add: cu.ok_bind read_marked_ok)

lemma drain_rows_ok: "ok_within conn_unread_le (drain_rows z b n)"
proof (induction n)
  case 0
  then show ?case by (simp add: ok_within_def)
next
  case (Suc n)
  show ?case
    unfolding drain_rows.simps
    by (rule cu.ok_bind [OF read_marked_ok]) (use Suc in \<open>auto simp: ok_within_def on_error_Ok split: if_splits\<close>)
qed

lemma drainResultFromFirstPacket_ok: "ok_within conn_unread_le (drainResultFromFirstPacket z first)"
  unfolding drainResultFromFirstPacket_def drainResultSetAfterColumnCount_def
  by (auto intro!: cu.ok_bind on_error_ok handleOK_ok lift_res_ok fail_protocol_ok skip_packets_ok metadata_mode_ok
      drain_rows_ok split: prod.splits)

function drainResultSetsFromFirstPacket :: "zlib \<Rightarrow> bytes \<Rightarrow> unit cst" where
  "drainResultSetsFromFirstPacket z first c =
     (case on_error markProtocolError (drainResultFromFirstPacket z first) c of
        (Ok more_results, c1) \<Rightarrow>
          if \<not> more_results then (Ok (), c1)
          else (case read_marked z c1 of
                  (Ok first', c2) \<Rightarrow> drainResultSetsFromFirstPacket z first' c2
                | (Err e, c2) \<Rightarrow> (Err e, c2)
                | (Panic, c2) \<Rightarrow> (Panic, c2))
      | (Err e, c1) \<Rightarrow> (Err e, c1)
      | (Panic, c1) \<Rightarrow> (Panic, c1))"
  by pat_completeness auto
termination
proof (relation "inv_image (less_than <*lex*> less_than) (\<lambda>(z, first, c). unread_size c)", goal_cases)
  case 1
  show ?case by auto
next
  case (2 z first c x c1 more_results y c2 first')
  then have "on_error markProtocolError (drainResultFromFirstPacket z first) c = (Ok more_results, c1)"
    and "read_marked z c1 = (Ok first', c2)" by auto
  then have "conn_unread_less c c2"
    using ok_withinD [OF on_error_ok [OF drainResultFromFirstPacket_ok]] read_marked_unread unread_le_less_trans
    by blast
  then show ?case using unread_size_less by simp
qed

declare drainResultSetsFromFirstPacket.simps [simp del]

definition drainRemainingResults :: "zlib \<Rightarrow> unit cst" where
  "drainRemainingResults z = bind_st (read_marked z) (\<lambda>first. drainResultSetsFromFirstPacket z first)"

subsection \<open>Result sets\<close>

record rows =
  rConn :: bool
  rColDefs :: "columnDef list"
  rColumns :: "string list"
  rTypes :: "byte list"
  rValues :: "gval list list"
  rPos :: nat
  rStreaming :: bool
  rBinary :: bool
  rResultSetOK :: bool
  rSessionTrack :: bool
  rSessionLocation :: "location option"
  rDone :: bool
  rClosed :: bool
  rRelease :: bool

definition zero_rows :: rows where
  "zero_rows =
     \<lparr>rConn = False, rColDefs = [], rColumns = [], rTypes = [], rValues = [], rPos = 0, rStreaming = False,
      rBinary = False, rResultSetOK = False, rSessionTrack = False, rSessionLocation = None, rDone = False,
      rClosed = False, rRelease = False\<rparr>"

fun read_columns :: "zlib \<Rightarrow> nat \<Rightarrow> columnDef list cst" where
  "read_columns z 0 = return_st []"
| "read_columns z (Suc n) =
     bind_st (read_marked z) (\<lambda>packet.
     bind_st (on_error markProtocolError (lift_res (parseColumnDefinition packet))) (\<lambda>cd.
     bind_st (read_columns z n) (\<lambda>cds. return_st (cd # cds))))"

definition readQueryResult :: "zlib \<Rightarrow> rows cst" where
  "readQueryResult z =
     bind_st (read_marked z) (\<lambda>first.
       if first = [] then fail_protocol UnexpectedEOF
       else if first ! 0 = ErrPacket then fail_protocol (parseServerError first)
       else if first ! 0 = OKPacket then
         bind_st (on_error markProtocolError (handleOK first)) (\<lambda>(_, status).
         bind_st (if status AND ServerMoreResultsExists \<noteq> 0 then drainRemainingResults z else return_st ()) (\<lambda>_.
           return_st (zero_rows\<lparr>rDone := True\<rparr>)))
       else
         bind_st (on_error markProtocolError (lift_res (ReadLengthEncodedInt first))) (\<lambda>(columnCount, _, _).
           if maxResultColumns < unat columnCount then fail_protocol (too_many_columns columnCount)
           else
             bind_st (read_columns z (unat columnCount)) (\<lambda>colDefs.
             bind_st (on_error markProtocolError (metadata_mode z)) (\<lambda>resultSetOK c.
               (Ok (zero_rows\<lparr>rConn := True, rColDefs := colDefs, rColumns := map cdName colDefs,
                     rTypes := map cdTyp colDefs, rStreaming := True, rResultSetOK := resultSetOK,
                     rSessionTrack := sessionTrack c, rSessionLocation := sessionLocation c\<rparr>), c)))))"

definition readQueryResultAfterColumnCount :: "zlib \<Rightarrow> bytes \<Rightarrow> rows cst" where
  "readQueryResultAfterColumnCount z first =
     bind_st (\<lambda>c. drainResultSetsFromFirstPacket z first c) (\<lambda>_. return_st zero_rows)"

definition readResultFromFirstPacket :: "zlib \<Rightarrow> bytes \<Rightarrow> exec_result cst" where
  "readResultFromFirstPacket z packet =
     (if packet = [] then fail_protocol UnexpectedEOF
      else if packet ! 0 = OKPacket then
        bind_st (on_error markProtocolError (handleOK packet)) (\<lambda>(res, status).
        bind_st (if status AND ServerMoreResultsExists \<noteq> 0 then drainRemainingResults z else return_st ()) (\<lambda>_.
          return_st res))
      else if packet ! 0 = ErrPacket then fail_protocol (parseServerError packet)
      else
        bind_st (readQueryResultAfterColumnCount z packet) (\<lambda>_.
          return_st \<lparr>affectedRows = 0, lastInsertID = 0\<rparr>))"

subsection \<open>Rows\<close>

type_synonym 'a rst = "(rows \<times> conn, 'a) st"

text \<open>\<open>finish\<close>: the result set is done and gives back the lock it holds.\<close>

fun rows_finish :: "rows \<times> conn \<Rightarrow> rows \<times> conn" where
  "rows_finish (r, c) =
     (r\<lparr>rDone := True, rRelease := False\<rparr>, if rRelease r then c\<lparr>locked := False\<rparr> else c)"

definition isResultSetTerminator :: "rows \<Rightarrow> bytes \<Rightarrow> bool" where
  "isResultSetTerminator r packet =
     (if rResultSetOK r then isResultSetOKPacket packet (rSessionTrack r) else isEOFPacket packet)"

fun rows_drain :: "zlib \<Rightarrow> rows \<Rightarrow> nat \<Rightarrow> unit cst" where
  "rows_drain z r 0 =
     (\<lambda>c. (Err (Errorf ''oceanbase: drain() exceeded %d rows, possible protocol desync'' [AInt (int maxDrainRows)]),
           c\<lparr>bad := True\<rparr>))"
| "rows_drain z r (Suc n) =
     bind_st (read_marked z) (\<lambda>packet.
       if isResultSetTerminator r packet then
         (if resultSetTerminatorHasMoreResults packet (rSessionTrack r) then drainRemainingResults z else return_st ())
       else if packet \<noteq> [] \<and> packet ! 0 = ErrPacket then fail_protocol (parseServerError packet)
       else rows_drain z r n)"

definition Rows_Close :: "zlib \<Rightarrow> unit rst" where
  "Rows_Close z rc =
     (case rc of (r, c) \<Rightarrow>
        if rClosed r then (Ok (), (r, c))
        else
          let r = r\<lparr>rClosed := True, rValues := []\<rparr>
          in if rStreaming r \<and> \<not> rDone r then
               (case rows_drain z r maxDrainRows c of
                  (Panic, c') \<Rightarrow> (Panic, (r, c'))
                | (res, c') \<Rightarrow> (res, rows_finish (r, c')))
             else (Ok (), rows_finish (r, c)))"

definition parse_row :: "(string \<Rightarrow> u64 option) \<Rightarrow> rows \<Rightarrow> bytes \<Rightarrow> gval list res" where
  "parse_row pf r packet =
     (if rBinary r then ParseBinaryRowInLocation packet (length (rColumns r)) (rTypes r) (rSessionLocation r)
      else parseTextRowInLocation pf packet (length (rColumns r)) (rTypes r) (rSessionLocation r))"

definition nextStreaming :: "zlib \<Rightarrow> (string \<Rightarrow> u64 option) \<Rightarrow> gval list rst" where
  "nextStreaming z pf rc =
     (case rc of (r, c) \<Rightarrow>
        if rDone r then (Err EOF, (r, c))
        else case read_marked z c of
          (Panic, c1) \<Rightarrow> (Panic, (r, c1))
        | (Err e, c1) \<Rightarrow> (Err e, rows_finish (r, c1))
        | (Ok packet, c1) \<Rightarrow>
            if isResultSetTerminator r packet then
              (if resultSetTerminatorHasMoreResults packet (rSessionTrack r) then
                 (case drainRemainingResults z c1 of
                    (Panic, c2) \<Rightarrow> (Panic, (r, c2))
                  | (Err e, c2) \<Rightarrow> (Err e, rows_finish (r, c2))
                  | (Ok _, c2) \<Rightarrow> (Err EOF, rows_finish (r, c2)))
               else (Err EOF, rows_finish (r, c1)))
            else if packet \<noteq> [] \<and> packet ! 0 = ErrPacket then
              (case rows_finish (r, c1) of (r2, c2) \<Rightarrow>
                 (case markProtocolError (parseServerError packet) c2 of (e, c3) \<Rightarrow> (Err e, (r2, c3))))
            else case parse_row pf r packet of
              Ok row \<Rightarrow> (Ok row, (r, c1))
            | Err e \<Rightarrow> (Err e, rows_finish (r, c1\<lparr>bad := True\<rparr>))
            | Panic \<Rightarrow> (Panic, (r, c1)))"

definition Rows_Next :: "zlib \<Rightarrow> (string \<Rightarrow> u64 option) \<Rightarrow> gval list rst" where
  "Rows_Next z pf rc =
     (case rc of (r, c) \<Rightarrow>
        if rStreaming r then nextStreaming z pf (r, c)
        else if length (rValues r) \<le> rPos r then (Err EOF, (r, c))
        else (Ok (rValues r ! rPos r), (r\<lparr>rPos := rPos r + 1\<rparr>, c)))"

subsection \<open>Column metadata\<close>

definition Rows_Columns :: "rows \<Rightarrow> string list" where
  "Rows_Columns r = rColumns r"

definition ColumnTypeDatabaseTypeName :: "rows \<Rightarrow> int \<Rightarrow> string" where
  "ColumnTypeDatabaseTypeName r i =
     (if i < 0 \<or> int (length (rTypes r)) \<le> i then [] else databaseTypeName (rTypes r ! nat i))"

definition ColumnTypeScanType :: "rows \<Rightarrow> int \<Rightarrow> scan_type" where
  "ColumnTypeScanType r i =
     (if i < 0 \<or> int (length (rTypes r)) \<le> i then TString else scanType (rTypes r ! nat i))"

definition ColumnTypeNullable :: "rows \<Rightarrow> int \<Rightarrow> bool \<times> bool" where
  "ColumnTypeNullable r i =
     (if i < 0 \<or> int (length (rColDefs r)) \<le> i then (True, True)
      else (cdFlags (rColDefs r ! nat i) AND notNullFlag = 0, True))"

definition ColumnTypeLength :: "rows \<Rightarrow> int \<Rightarrow> int \<times> bool" where
  "ColumnTypeLength r i =
     (if i < 0 \<or> int (length (rColDefs r)) \<le> i then (0, False)
      else (uint (cdColumnLength (rColDefs r ! nat i)), True))"

definition ColumnTypePrecisionScale :: "rows \<Rightarrow> int \<Rightarrow> int \<times> int \<times> bool" where
  "ColumnTypePrecisionScale r i =
     (if i < 0 \<or> int (length (rColDefs r)) \<le> i then (0, 0, False)
      else (uint (cdColumnLength (rColDefs r ! nat i)), uint (cdDecimals (rColDefs r ! nat i)), True))"

end
