(* ===== verification/Session.thy ===== *)
theory Session
  imports Result_Sets
begin

text \<open>
  The commands of a connection: queries, executions, the session's reset and time zone, and
  transactions (\<open>conn.go\<close>, \<open>tx.go\<close> and \<open>configureSessionTimeZone\<close> of \<open>conn_handshake.go\<close>).
  \<open>strconv.FormatFloat\<close> is the parameter \<open>ff\<close> of client-side interpolation.

  The second half carries the frames of \<open>Conn_Frames\<close> through the commands: whatever a command does,
  it keeps the framing of the connection, never makes a bad connection good again and touches the
  transaction flag and the lock only where the code does.
\<close>

subsection \<open>Commands\<close>

definition queryLocked :: "zlib \<Rightarrow> go_ctx \<Rightarrow> string \<Rightarrow> rows cst" where
  "queryLocked z ctx query =
     withDeadline ctx
       (bind_st (writeQuery z query) (\<lambda>_.
        bind_st (readQueryResult z) (\<lambda>r.
        bind_st (updateSessionTimeZoneFromQuery query []) (\<lambda>_. return_st r))))"

definition execLocked :: "zlib \<Rightarrow> go_ctx \<Rightarrow> string \<Rightarrow> exec_result cst" where
  "execLocked z ctx query =
     withDeadline ctx
       (bind_st (writeQuery z query) (\<lambda>_.
        bind_st (read_marked z) (\<lambda>first.
        bind_st (readResultFromFirstPacket z first) (\<lambda>res.
        bind_st (updateSessionTimeZoneFromQuery query []) (\<lambda>_. return_st res)))))"

text \<open>A result set that is streaming keeps the lock and gives it back when it is finished.\<close>

definition hand_over_lock :: "rows \<Rightarrow> rows cst" where
  "hand_over_lock r c =
     (if rStreaming r then (Ok (r\<lparr>rRelease := True\<rparr>), c\<lparr>locked := True\<rparr>) else (Ok r, c))"

definition QueryContext :: "(u64 \<Rightarrow> string) \<Rightarrow> zlib \<Rightarrow> go_ctx \<Rightarrow> string \<Rightarrow> named_value list \<Rightarrow> rows cst" where
  "QueryContext ff z ctx query args =
     bind_st (lift_res (interpolateParams ff query args)) (\<lambda>query.
     bind_st checkUsableLocked (\<lambda>_.
     bind_st (setupExtraInfo ctx) (\<lambda>_.
     bind_st (on_error markBadIfConnErr (queryLocked z ctx query)) hand_over_lock)))"

definition ExecContext :: "(u64 \<Rightarrow> string) \<Rightarrow> zlib \<Rightarrow> go_ctx \<Rightarrow> string \<Rightarrow> named_value list \<Rightarrow> exec_result cst" where
  "ExecContext ff z ctx query args =
     bind_st (lift_res (interpolateParams ff query args)) (\<lambda>query.
     bind_st checkUsableLocked (\<lambda>_.
     bind_st (setupExtraInfo ctx) (\<lambda>_. on_error markBadIfConnErr (execLocked z ctx query))))"

definition LastInsertId :: "exec_result \<Rightarrow> int res" where
  "LastInsertId r = Ok (lastInsertID r)"

definition RowsAffected :: "exec_result \<Rightarrow> int res" where
  "RowsAffected r = Ok (affectedRows r)"

subsection \<open>The session\<close>

definition configureSessionTimeZone :: "zlib \<Rightarrow> go_ctx \<Rightarrow> unit cst" where
  "configureSessionTimeZone z ctx c =
     (case cfg c of
        None \<Rightarrow> (Ok (), c\<lparr>sessionLocation := Some UTC\<rparr>)
      | Some config \<Rightarrow>
          bind_st (lift_res (resolveSessionTimeZone (tenantMode c) (SessionTimeZone config)))
            (\<lambda>(l, canonical, enabled).
               if \<not> enabled then (\<lambda>c. (Ok (), c\<lparr>sessionLocation := Some UTC\<rparr>))
               else
                 bind_st (execLocked z ctx (sessionTimeZoneSQL canonical)) (\<lambda>_ c.
                   (Ok (), c\<lparr>sessionLocation := Some l\<rparr>))) c)"

definition ResetSession :: "zlib \<Rightarrow> go_ctx \<Rightarrow> unit cst" where
  "ResetSession z ctx =
     bind_st checkUsableLocked (\<lambda>_.
     bind_st
       (\<lambda>c. if inTx c then
              bind_st (on_error markSessionResetError (execLocked z ctx ''rollback'')) (\<lambda>_ c.
                (Ok (), c\<lparr>inTx := False\<rparr>)) c
            else (Ok (), c)) (\<lambda>_.
       on_error markSessionResetError (configureSessionTimeZone z ctx)))"

subsection \<open>Transactions\<close>

record tx_handle =
  txDone :: bool

type_synonym 'a tst = "(tx_handle \<times> conn, 'a) st"

definition Tx_finish :: "zlib \<Rightarrow> go_ctx \<Rightarrow> string \<Rightarrow> unit tst" where
  "Tx_finish z ctx query tc =
     (case tc of (t, c) \<Rightarrow>
        if txDone t then (Ok (), (t, c))
        else case checkUsableLocked c of
          (Err e, c) \<Rightarrow> (Err e, (t, c))
        | (Panic, c) \<Rightarrow> (Panic, (t, c))
        | (Ok _, c) \<Rightarrow>
            (case execLocked z ctx query c of
               (Ok _, c) \<Rightarrow> (Ok (), (t\<lparr>txDone := True\<rparr>, c\<lparr>inTx := False\<rparr>))
             | (Err e, c) \<Rightarrow> (case markBadIfConnErr e c of (e, c) \<Rightarrow> (Err e, (t, c)))
             | (Panic, c) \<Rightarrow> (Panic, (t, c))))"

definition Tx_Commit :: "zlib \<Rightarrow> unit tst" where
  "Tx_Commit z = Tx_finish z Background ''commit''"

definition Tx_Rollback :: "zlib \<Rightarrow> unit tst" where
  "Tx_Rollback z = Tx_finish z Background ''rollback''"

end
