(* ===== verification/Statements.thy ===== *)
theory Statements
  imports Session
begin

text \<open>
  Prepared statements: \<open>conn_stmt.go\<close> and \<open>stmt.go\<close>.  A statement is the record \<open>stmt\<close>; its methods
  are functions of the connection's state.

  \<open>assignOutParam\<close> stores a value through a pointer the caller supplied.  The model passes the
  destinations back as values.  What Go's \<open>reflect\<close> does with the types the driver has no case for,
  and what a caller's \<open>sql.Scanner\<close> does, are the fields of the parameter \<open>out_env\<close>.
\<close>

subsection \<open>Statements\<close>

record stmt =
  stQuery :: string
  stID :: u32
  stParamCount :: nat
  stColumnCount :: nat
  stClosed :: bool

definition NumInput :: "stmt \<Rightarrow> int" where
  "NumInput s = int (stParamCount s)"

text \<open>The definitions of parameters or columns behind a prepare response, and their terminator.\<close>

definition skip_definitions :: "zlib \<Rightarrow> nat \<Rightarrow> unit cst" where
  "skip_definitions z n =
     (if 0 < n then
        bind_st (skip_packets z n) (\<lambda>_ c. if \<not> deprecateEOF c then readEOFOrOK z c else (Ok (), c))
      else return_st ())"

definition PrepareContext :: "zlib \<Rightarrow> go_ctx \<Rightarrow> string \<Rightarrow> stmt cst" where
  "PrepareContext z ctx query =
     (if query = [] then fail_st (Errorf ''oceanbase: empty statement'' [])
      else
        on_error markBadIfConnErr (withDeadline ctx
          (bind_st new_command (\<lambda>_.
           bind_st (conn_write z (ComStmtPrepare # bytes_of query)) (\<lambda>_.
           bind_st (read_marked z) (\<lambda>packet.
             if packet = [] then fail_protocol UnexpectedEOF
             else if packet ! 0 = ErrPacket then fail_protocol (parseServerError packet)
             else if packet ! 0 \<noteq> OKPacket then
               fail_protocol (Errorf ''oceanbase: unexpected prepare response 0x%02x'' [AInt (uint (packet ! 0))])
             else if length packet < 12 then fail_protocol UnexpectedEOF
             else
               let s = \<lparr>stQuery = query, stID = le_word (subslice 1 5 packet),
                        stParamCount = unat (le_word (subslice 7 9 packet) :: u16),
                        stColumnCount = unat (le_word (subslice 5 7 packet) :: u16), stClosed = False\<rparr>
               in bind_st (skip_definitions z (stParamCount s)) (\<lambda>_.
                  bind_st (skip_definitions z (stColumnCount s)) (\<lambda>_. return_st s))))))))"

definition Prepare :: "zlib \<Rightarrow> string \<Rightarrow> stmt cst" where
  "Prepare z query = PrepareContext z Background query"

subsection \<open>The execute request\<close>

text \<open>
  The loop over the arguments fills the NULL bitmap and the type array and appends the values.
\<close>

fun execute_params :: "nat \<Rightarrow> named_value list \<Rightarrow> bytes \<times> bytes \<times> bytes \<Rightarrow> (bytes \<times> bytes \<times> bytes) res" where
  "execute_params i [] bufs = Ok bufs"
| "execute_params i (arg # args) (nullBitmap, paramTypes, paramValues) =
     (let val = unwrapOutParam (nvValue arg);
          nullBitmap = (if val = VNil then nullBitmap[i div 8 := nullBitmap ! (i div 8) OR push_bit (i mod 8) 1]
                        else nullBitmap);
          t = GetBinaryParamType val;
          paramTypes = paramTypes[i * 2 := t, i * 2 + 1 := 0]
      in bind_res (AppendBinaryParam paramValues t val) (\<lambda>paramValues.
           execute_params (i + 1) args (nullBitmap, paramTypes, paramValues)))"

definition execute_payload :: "u32 \<Rightarrow> named_value list \<Rightarrow> bytes res" where
  "execute_payload stmtID args =
     (let payload = [ComStmtExecute] @ le_bytes 4 stmtID @ [0] @ le_bytes 4 (1 :: u32)
      in if args = [] then Ok payload
         else
           bind_res (execute_params 0 args
               (replicate ((length args + 7) div 8) 0, replicate (length args * 2) 0, []))
             (\<lambda>(nullBitmap, paramTypes, paramValues).
                Ok (payload @ nullBitmap @ [1] @ paramTypes @ paramValues)))"

definition writeExecute :: "zlib \<Rightarrow> u32 \<Rightarrow> named_value list \<Rightarrow> unit cst" where
  "writeExecute z stmtID args =
     bind_st new_command (\<lambda>_.
     bind_st (lift_res (execute_payload stmtID args)) (\<lambda>payload. conn_write z payload))"

definition stmtQueryLocked :: "zlib \<Rightarrow> go_ctx \<Rightarrow> u32 \<Rightarrow> named_value list \<Rightarrow> rows cst" where
  "stmtQueryLocked z ctx stmtID args =
     withDeadline ctx
       (bind_st (setupExtraInfo ctx) (\<lambda>_.
        bind_st (writeExecute z stmtID args) (\<lambda>_.
        bind_st (readQueryResult z) (\<lambda>r. return_st (r\<lparr>rBinary := True\<rparr>)))))"

subsection \<open>OUT parameters\<close>

text \<open>
  \<open>scanOf\<close>: the \<open>Scan\<close> method of a destination that implements \<open>sql.Scanner\<close>: its error and the
  destination afterwards.  \<open>convertTo\<close>: \<open>reflect\<close>'s conversion between a value and a destination for
  which the model has no case: types of the caller, and floats outside the range of an integer.
\<close>

record out_env =
  scanOf :: "gval \<Rightarrow> (gval \<Rightarrow> go_error option \<times> gval) option"
  convertTo :: "gval \<Rightarrow> gval \<Rightarrow> gval option"

text \<open>The zero value of the type of a value.\<close>

fun zero_value :: "gval \<Rightarrow> gval" where
  "zero_value (VInt _) = VInt 0"
| "zero_value (VFloat _) = VFloat 0"
| "zero_value (VBool _) = VBool False"
| "zero_value (VBytes _) = VBytes []"
| "zero_value (VString _) = VString []"
| "zero_value (VTime _) = VTime zero_time"
| "zero_value (VPtr _) = VPtr None"
| "zero_value (VOut _) = VOut VNil"
| "zero_value (VOutPtr _) = VPtr None"
| "zero_value (VOther t) = VOther t"
| "zero_value VNil = VNil"

text \<open>
  The UTF-8 encoding of a code point; an integer converted to a string yields that of the code
  point with its number, or of U+FFFD outside the Unicode range.
\<close>

definition utf8 :: "nat \<Rightarrow> bytes" where
  "utf8 n =
     (if n < 0x80 then [word_of_nat n]
      else if n < 0x800 then [word_of_nat (0xC0 + n div 64), word_of_nat (0x80 + n mod 64)]
      else if n < 0x10000 then
        [word_of_nat (0xE0 + n div 4096), word_of_nat (0x80 + n div 64 mod 64), word_of_nat (0x80 + n mod 64)]
      else
        [word_of_nat (0xF0 + n div 262144), word_of_nat (0x80 + n div 4096 mod 64), word_of_nat (0x80 + n div 64 mod 64),
         word_of_nat (0x80 + n mod 64)])"

definition string_of_rune :: "int \<Rightarrow> string" where
  "string_of_rune i =
     string_of (utf8 (if i < 0 \<or> 0x10FFFF < i \<or> 0xD800 \<le> i \<and> i \<le> 0xDFFF then 0xFFFD else nat i))"

text \<open>
  \<open>float64(i)\<close>, rounding to the nearest even significand of 53 bits, and the truncation of a finite
  \<open>float64\<close>; \<open>int64(f)\<close> is that integer when it is in range and depends on the platform otherwise.
\<close>

function bit_len :: "int \<Rightarrow> nat" where
  "bit_len n = (if n \<le> 0 then 0 else Suc (bit_len (n div 2)))"
  by pat_completeness auto
termination
  by (relation "measure nat") auto

declare bit_len.simps [simp del]

definition round_even :: "int \<Rightarrow> nat \<Rightarrow> int" where
  "round_even n k =
     (let q = n div 2 ^ k; r = n mod 2 ^ k
      in if 2 ^ k < 2 * r \<or> 2 * r = 2 ^ k \<and> odd q then q + 1 else q)"

definition f64_of_int :: "int \<Rightarrow> u64" where
  "f64_of_int i =
     (if i = 0 then 0
      else
        let b = bit_len \<bar>i\<bar>;
            m = (if b \<le> 53 then \<bar>i\<bar> * 2 ^ (53 - b) else round_even \<bar>i\<bar> (b - 53))
        in word_of_int ((if i < 0 then 2 ^ 63 else 0) + (int b + 1022) * 2 ^ 52 + (m - 2 ^ 52)))"

definition f64_trunc :: "u64 \<Rightarrow> int option" where
  "f64_trunc f =
     (let e = unat (drop_bit 52 f AND 0x7FF); m = 2 ^ 52 + uint (take_bit 52 f);
          n = (if e < 1023 then 0 else if e \<le> 1075 then m div 2 ^ (1075 - e) else m * 2 ^ (e - 1075))
      in if e = 0x7FF then None else Some (if bit f 63 then - n else n))"

text \<open>
  \<open>assign_through\<close>: \<open>AssignableTo\<close> and \<open>ConvertibleTo\<close> on the type of the value the destination points
  to.  A pointer to a nil interface accepts every value.
\<close>

definition assign_through :: "out_env \<Rightarrow> gval \<Rightarrow> gval \<Rightarrow> gval option" where
  "assign_through env old value =
     (case (old, value) of
        (VNil, _) \<Rightarrow> Some value
      | (VInt _, VInt _) \<Rightarrow> Some value
      | (VFloat _, VFloat _) \<Rightarrow> Some value
      | (VBool _, VBool _) \<Rightarrow> Some value
      | (VString _, VString _) \<Rightarrow> Some value
      | (VBytes _, VBytes _) \<Rightarrow> Some value
      | (VTime _, VTime _) \<Rightarrow> Some value
      | (VString _, VBytes b) \<Rightarrow> Some (VString (string_of b))
      | (VBytes _, VString s) \<Rightarrow> Some (VBytes (bytes_of s))
      | (VString _, VInt i) \<Rightarrow> Some (VString (string_of_rune i))
      | (VFloat _, VInt i) \<Rightarrow> Some (VFloat (f64_of_int i))
      | (VInt _, VFloat f) \<Rightarrow>
          (case f64_trunc f of Some i \<Rightarrow> if int64 i then Some (VInt i) else convertTo env old value
           | None \<Rightarrow> convertTo env old value)
      | (VOther _, _) \<Rightarrow> convertTo env old value
      | _ \<Rightarrow> None)"

definition cannot_assign :: "gval \<Rightarrow> gval \<Rightarrow> go_error" where
  "cannot_assign value dest =
     Errorf ''oceanbase: cannot assign OUT parameter of type %T to %T'' [AStr (type_name value), AStr (type_name dest)]"

definition assignOutParam :: "out_env \<Rightarrow> gval \<Rightarrow> gval \<Rightarrow> go_error option \<times> gval" where
  "assignOutParam env dest value =
     (if dest = VNil then (None, dest)
      else case scanOf env dest of
        Some scanner \<Rightarrow> scanner value
      | None \<Rightarrow>
          if value = VNil then
            (None, case dest of VPtr (Some old) \<Rightarrow> VPtr (Some (zero_value old)) | VOutPtr _ \<Rightarrow> VOutPtr VNil | _ \<Rightarrow> dest)
          else case dest of
            VPtr (Some old) \<Rightarrow>
              (case assign_through env old value of
                 Some new \<Rightarrow> (None, VPtr (Some new))
               | None \<Rightarrow> (Some (cannot_assign value dest), dest))
          | VOutPtr _ \<Rightarrow> (Some (cannot_assign value dest), dest)
          | _ \<Rightarrow> (Some (Errorf ''oceanbase: OUT parameter destination must be a non-nil pointer'' []), dest))"

text \<open>The arguments in order; each OUT parameter takes the next value of the row.\<close>

fun assign_out :: "out_env \<Rightarrow> gval list \<Rightarrow> named_value list \<Rightarrow> go_error option \<times> named_value list" where
  "assign_out env dest [] = (None, [])"
| "assign_out env dest (arg # args) =
     (let store = (\<lambda>wrap outDest.
        case dest of
          [] \<Rightarrow> (let (e, rest) = assign_out env dest args in (e, arg # rest))
        | v # dest' \<Rightarrow>
            (case assignOutParam env outDest v of
               (Some e, d) \<Rightarrow> (Some e, arg\<lparr>nvValue := wrap d\<rparr> # args)
             | (None, d) \<Rightarrow> (let (e, rest) = assign_out env dest' args in (e, arg\<lparr>nvValue := wrap d\<rparr> # rest))))
      in case nvValue arg of
           VOut outDest \<Rightarrow> store VOut outDest
         | VOutPtr outDest \<Rightarrow> store VOutPtr outDest
         | _ \<Rightarrow> (let (e, rest) = assign_out env dest args in (e, arg # rest)))"

text \<open>
  \<open>readOutParams\<close> closes the result set whatever happens and drops the error of closing it.  It
  returns the arguments with the values stored.
\<close>

definition closing_rows :: "zlib \<Rightarrow> 'a rst \<Rightarrow> rows \<Rightarrow> 'a cst" where
  "closing_rows z body r c =
     (case body (r, c) of
        (Panic, rc) \<Rightarrow> (case Rows_Close z rc of (_, (_, c')) \<Rightarrow> (Panic, c'))
      | (res, rc) \<Rightarrow>
          (case Rows_Close z rc of
             (Panic, (_, c')) \<Rightarrow> (Panic, c')
           | (_, (_, c')) \<Rightarrow> (res, c')))"

definition readOutParams ::
  "out_env \<Rightarrow> zlib \<Rightarrow> (string \<Rightarrow> u64 option) \<Rightarrow> named_value list \<Rightarrow> named_value list cst" where
  "readOutParams env z pf args =
     bind_st (readQueryResult z) (\<lambda>r.
       closing_rows z
         (bind_st (Rows_Next z pf) (\<lambda>dest rc.
            (case assign_out env dest args of
               (Some e, _) \<Rightarrow> Err e
             | (None, args') \<Rightarrow> Ok args', rc))) (r\<lparr>rBinary := True\<rparr>))"

definition stmtExecLocked ::
  "out_env \<Rightarrow> zlib \<Rightarrow> (string \<Rightarrow> u64 option) \<Rightarrow> go_ctx \<Rightarrow> u32 \<Rightarrow> named_value list \<Rightarrow> (exec_result \<times> named_value list) cst" where
  "stmtExecLocked env z pf ctx stmtID args =
     withDeadline ctx
       (bind_st (setupExtraInfo ctx) (\<lambda>_.
        bind_st (writeExecute z stmtID args) (\<lambda>_.
        bind_st (read_marked z) (\<lambda>first.
          if first = [] then fail_protocol UnexpectedEOF
          else if first ! 0 = OKPacket then
            bind_st (on_error markProtocolError (handleOK first)) (\<lambda>(res, status).
            bind_st (if status AND ServerPSOutParams \<noteq> 0 then readOutParams env z pf args else return_st args) (\<lambda>args'.
            bind_st (if status AND ServerMoreResultsExists \<noteq> 0 then drainRemainingResults z else return_st ()) (\<lambda>_.
              return_st (res, args'))))
          else if first ! 0 = ErrPacket then fail_protocol (parseServerError first)
          else bind_st (readResultFromFirstPacket z first) (\<lambda>res. return_st (res, args))))))"

subsection \<open>Bulk execution\<close>

fun bulk_types :: "named_value list \<Rightarrow> bytes" where
  "bulk_types [] = []"
| "bulk_types (arg # args) =
     le_bytes 2 (ucast (GetBinaryParamType (unwrapOutParam (nvValue arg))) :: u16) @ bulk_types args"

fun bulk_row :: "named_value list \<Rightarrow> bytes \<Rightarrow> bytes res" where
  "bulk_row [] payload = Ok payload"
| "bulk_row (arg # args) payload =
     (let val = unwrapOutParam (nvValue arg)
      in if val = VNil then bulk_row args (payload @ [1])
         else bind_res (AppendBinaryParam (payload @ [0]) (GetBinaryParamType val) val) (bulk_row args))"

fun bulk_rows :: "named_value list list \<Rightarrow> bytes \<Rightarrow> bytes res" where
  "bulk_rows [] payload = Ok payload"
| "bulk_rows (row # argRows) payload = bind_res (bulk_row row payload) (bulk_rows argRows)"

definition bulk_payload :: "u32 \<Rightarrow> named_value list list \<Rightarrow> bytes res" where
  "bulk_payload stmtID argRows =
     bulk_rows argRows
       ([ComStmtBulkExecute] @ le_bytes 4 stmtID @ le_bytes 2 (0x80 :: u16) @ bulk_types (hd argRows))"

definition stmtBulkExecLocked :: "zlib \<Rightarrow> go_ctx \<Rightarrow> u32 \<Rightarrow> named_value list list \<Rightarrow> exec_result cst" where
  "stmtBulkExecLocked z ctx stmtID argRows =
     (if argRows = [] then return_st \<lparr>affectedRows = 0, lastInsertID = 0\<rparr>
      else
        withDeadline ctx
          (bind_st (setupExtraInfo ctx) (\<lambda>_.
           bind_st new_command (\<lambda>_.
           bind_st (lift_res (bulk_payload stmtID argRows)) (\<lambda>payload.
           bind_st (conn_write z payload) (\<lambda>_.
           bind_st (read_marked z) (\<lambda>first.
             if first = [] then fail_protocol UnexpectedEOF
             else if first ! 0 = ErrPacket then fail_protocol (parseServerError first)
             else if first ! 0 \<noteq> OKPacket then
               fail_protocol (Errorf ''oceanbase: unexpected bulk execute response 0x%02x'' [AInt (uint (first ! 0))])
             else
               bind_st (on_error markProtocolError (handleOK first)) (\<lambda>(res, _). return_st res)))))))) "

definition resetStmt :: "zlib \<Rightarrow> u32 \<Rightarrow> unit cst" where
  "resetStmt z stmtID =
     bind_st checkUsableLocked (\<lambda>_.
     bind_st new_command (\<lambda>_.
     bind_st (conn_write z (ComStmtReset # le_bytes 4 stmtID)) (\<lambda>_.
     bind_st (read_marked z) (\<lambda>packet.
       if packet = [] then fail_protocol UnexpectedEOF
       else if packet ! 0 = ErrPacket then fail_protocol (parseServerError packet)
       else if packet ! 0 \<noteq> OKPacket then
         fail_protocol (Errorf ''oceanbase: unexpected statement reset response 0x%02x'' [AInt (uint (packet ! 0))])
       else return_st ()))))"

subsection \<open>Methods of a statement\<close>

definition statement_closed :: go_error where
  "statement_closed = Errorf ''oceanbase: statement is closed'' []"

definition Stmt_Close :: "zlib \<Rightarrow> (stmt \<times> conn, unit) st" where
  "Stmt_Close z sc =
     (case sc of (s, c) \<Rightarrow>
        if stClosed s then (Ok (), (s, c))
        else case closeStmt z (stID s) c of (r, c') \<Rightarrow> (r, (s\<lparr>stClosed := True\<rparr>, c')))"

definition Stmt_ExecContext ::
  "out_env \<Rightarrow> zlib \<Rightarrow> (string \<Rightarrow> u64 option) \<Rightarrow> stmt \<Rightarrow> go_ctx \<Rightarrow> named_value list \<Rightarrow> (exec_result \<times> named_value list) cst" where
  "Stmt_ExecContext env z pf s ctx args =
     (if stClosed s then fail_st statement_closed
      else
        bind_st checkUsableLocked (\<lambda>_.
        bind_st (on_error markBadIfConnErr (stmtExecLocked env z pf ctx (stID s) args)) (\<lambda>res.
        bind_st (on_error markBadIfConnErr (updateSessionTimeZoneFromQuery (stQuery s) args)) (\<lambda>_.
          return_st res))))"

definition Stmt_QueryContext :: "zlib \<Rightarrow> stmt \<Rightarrow> go_ctx \<Rightarrow> named_value list \<Rightarrow> rows cst" where
  "Stmt_QueryContext z s ctx args =
     (if stClosed s then fail_st statement_closed
      else
        bind_st checkUsableLocked (\<lambda>_.
        bind_st (on_error markBadIfConnErr (stmtQueryLocked z ctx (stID s) args)) (\<lambda>r.
        bind_st (on_error markBadIfConnErr (updateSessionTimeZoneFromQuery (stQuery s) args)) (\<lambda>_.
          hand_over_lock r))))"

definition Stmt_Exec :: "out_env \<Rightarrow> zlib \<Rightarrow> (string \<Rightarrow> u64 option) \<Rightarrow> stmt \<Rightarrow> gval list \<Rightarrow> (exec_result \<times> named_value list) cst" where
  "Stmt_Exec env z pf s args = Stmt_ExecContext env z pf s Background (valuesToNamed args)"

definition Stmt_Query :: "zlib \<Rightarrow> stmt \<Rightarrow> gval list \<Rightarrow> rows cst" where
  "Stmt_Query z s args = Stmt_QueryContext z s Background (valuesToNamed args)"

definition BulkExecContext :: "zlib \<Rightarrow> stmt \<Rightarrow> go_ctx \<Rightarrow> named_value list list \<Rightarrow> exec_result cst" where
  "BulkExecContext z s ctx argRows =
     (if stClosed s then fail_st statement_closed
      else
        bind_st checkUsableLocked (\<lambda>_.
        bind_st (on_error markBadIfConnErr (stmtBulkExecLocked z ctx (stID s) argRows)) (\<lambda>res.
        bind_st
          (on_error markBadIfConnErr
             (updateSessionTimeZoneFromQuery (stQuery s) (if length argRows = 1 then hd argRows else []))) (\<lambda>_.
          return_st res))))"

definition Stmt_Reset :: "zlib \<Rightarrow> stmt \<Rightarrow> unit cst" where
  "Stmt_Reset z s = (if stClosed s then fail_st statement_closed else resetStmt z (stID s))"

end
