(* ===== verification/Bulk.thy ===== *)
theory Bulk
  imports Statements
begin

text \<open>
  \<open>bulk.go\<close>: multi-row inserts, natively with a bulk execute request or rewritten into statements with
  many value lists.

  The pool of \<open>database/sql\<close> is the parameter \<open>sql_db\<close> over a state of its own: taking a connection,
  giving it back, and executing a statement on some connection.
\<close>

subsection \<open>Identifiers\<close>

definition isAlpha :: "char \<Rightarrow> bool" where
  "isAlpha c \<longleftrightarrow> is_upper c \<or> is_lower c"

definition isAlnum :: "char \<Rightarrow> bool" where
  "isAlnum c \<longleftrightarrow> isAlpha c \<or> is_digit c"

definition isSimpleIdent :: "string \<Rightarrow> bool" where
  "isSimpleIdent name =
     (case name of
        [] \<Rightarrow> False
      | c # cs \<Rightarrow> isAlpha c \<and> list_all (\<lambda>c. isAlnum c \<or> c = CHR ''_'') cs)"

definition quoteIdent :: "string \<Rightarrow> string" where
  "quoteIdent name =
     (if isSimpleIdent name then name
      else [DQ] @ concat (map (\<lambda>c. if c = DQ then [DQ, DQ] else [c]) name) @ [DQ])"

definition quoteIdentList :: "string list \<Rightarrow> string" where
  "quoteIdentList names = Join (map quoteIdent names) '', ''"

subsection \<open>Statements\<close>

text \<open>\<open>strings.Repeat\<close> panics on a negative count, so no columns panic.\<close>

definition placeholder_row :: "string list \<Rightarrow> string res" where
  "placeholder_row columns =
     (if columns = [] then Panic else Ok (''('' @ Repeat ''?, '' (length columns - 1) @ ''?)''))"

definition insert_query :: "string \<Rightarrow> string list \<Rightarrow> string \<Rightarrow> string" where
  "insert_query tableName columns placeholders =
     ''INSERT INTO '' @ quoteIdent tableName @ '' ('' @ quoteIdentList columns @ '') VALUES '' @ placeholders"

subsection \<open>Native bulk insert\<close>

record 's sql_db =
  dbConn :: "('s, conn) st"
  dbPut :: "conn \<Rightarrow> 's \<Rightarrow> 's"
  dbExec :: "string \<Rightarrow> gval list \<Rightarrow> ('s, exec_result) st"

definition named_row :: "gval list \<Rightarrow> named_value list" where
  "named_row row = map (\<lambda>j. \<lparr>nvName = [], nvOrdinal = int j + 1, nvValue = row ! j\<rparr>) [0..<length row]"

text \<open>On the driver's connection: prepare, execute, and close the statement whatever happened.\<close>

definition native_insert :: "zlib \<Rightarrow> go_ctx \<Rightarrow> string \<Rightarrow> gval list list \<Rightarrow> exec_result cst" where
  "native_insert z ctx query values =
     bind_st (PrepareContext z ctx query) (\<lambda>s c.
       case BulkExecContext z s ctx (map named_row values) c of
         (r, c') \<Rightarrow>
           (case Stmt_Close z (s, c') of
              (Panic, (_, c'')) \<Rightarrow> (Panic, c'')
            | (_, (_, c'')) \<Rightarrow> (r, c'')))"

definition tryNativeBulkInsert ::
  "zlib \<Rightarrow> 's sql_db \<Rightarrow> go_ctx \<Rightarrow> string \<Rightarrow> string list \<Rightarrow> gval list list \<Rightarrow> ('s, exec_result) st" where
  "tryNativeBulkInsert z pool ctx tableName columns values s =
     (case placeholder_row columns of
        Ok placeholders \<Rightarrow>
          bind_st (dbConn pool) (\<lambda>c s.
            case native_insert z ctx (insert_query tableName columns placeholders) values c of
              (r, c') \<Rightarrow> (r, dbPut pool c' s)) s
      | Err e \<Rightarrow> (Err e, s)
      | Panic \<Rightarrow> (Panic, s))"

subsection \<open>Rewriting\<close>

definition maxChunkSize :: nat where "maxChunkSize = 1000"

text \<open>The statement and the arguments for one chunk of rows.\<close>

definition chunk_statement :: "string \<Rightarrow> string list \<Rightarrow> string \<Rightarrow> gval list list \<Rightarrow> string \<times> gval list" where
  "chunk_statement tableName columns placeholderRow chunk =
     (insert_query tableName columns (Join (map (\<lambda>_. placeholderRow) chunk) '', ''), concat chunk)"

function rewrite_loop ::
  "'s sql_db \<Rightarrow> string \<Rightarrow> string list \<Rightarrow> string \<Rightarrow> gval list list \<Rightarrow> int \<Rightarrow> ('s, exec_result) st" where
  "rewrite_loop pool tableName columns placeholderRow values totalAffected =
     (if values = [] then return_st \<lparr>affectedRows = totalAffected, lastInsertID = 0\<rparr>
      else
        case chunk_statement tableName columns placeholderRow (take maxChunkSize values) of (query, args) \<Rightarrow>
          bind_st (dbExec pool query args) (\<lambda>res.
            rewrite_loop pool tableName columns placeholderRow (drop maxChunkSize values)
              (add_int64 totalAffected (affectedRows res))))"
  by pat_completeness auto
termination
  by (relation "measure (\<lambda>(pool, t, cs, p, values, n). length values)") (auto simp: maxChunkSize_def)

declare rewrite_loop.simps [simp del]

definition bulkInsertRewrite ::
  "'s sql_db \<Rightarrow> string \<Rightarrow> string list \<Rightarrow> gval list list \<Rightarrow> ('s, exec_result) st" where
  "bulkInsertRewrite pool tableName columns values s =
     (case placeholder_row columns of
        Ok placeholderRow \<Rightarrow> rewrite_loop pool tableName columns placeholderRow values 0 s
      | Err e \<Rightarrow> (Err e, s)
      | Panic \<Rightarrow> (Panic, s))"

definition BulkInsert ::
  "zlib \<Rightarrow> 's sql_db \<Rightarrow> go_ctx \<Rightarrow> string \<Rightarrow> string list \<Rightarrow> gval list list \<Rightarrow> ('s, exec_result) st" where
  "BulkInsert z pool ctx tableName columns values s =
     (if values = [] then (Ok \<lparr>affectedRows = 0, lastInsertID = 0\<rparr>, s)
      else case tryNativeBulkInsert z pool ctx tableName columns values s of
        (Err e, s1) \<Rightarrow>
          (case bulkInsertRewrite pool tableName columns values s1 of
             (Err e2, s2) \<Rightarrow>
               (Err (Errorf ''native bulk insert failed: %w; rewrite fallback also failed: %v'' [AWrap e, AErr e2]), s2)
           | r \<Rightarrow> r)
      | r \<Rightarrow> r)"

end
