(* ===== verification/Bulk_Rewrite.thy ===== *)
theory Bulk_Rewrite
  imports Bulk
begin

text \<open>
  The rewriting path of \<open>BulkInsert\<close>: for any table and column names, quotes and question marks in them
  included, the statements it sends have as many placeholders as arguments, and together they carry
  every value once and in order.
\<close>

subsection \<open>Placeholders of the generated statements\<close>

text \<open>Text the scanner of placeholders passes over, and text with a number of placeholders.\<close>

definition holds :: "nat \<Rightarrow> string \<Rightarrow> bool" where
  "holds n s \<longleftrightarrow> (\<forall>r. count_loop sqlNormal (s @ r) = n + count_loop sqlNormal r)"

lemma holds_append: "holds m s \<Longrightarrow> holds n t \<Longrightarrow> holds (m + n) (s @ t)"
  by (simp add: holds_def)

lemma holds_Nil: "holds 0 []"
  by (simp add: holds_def)

lemma holds_mark: "holds 1 ''?''"
  by (simp add: holds_def count_loop.simps quote_chars)

lemma holds_plain: "list_all plain s \<Longrightarrow> holds 0 s"
  by (induction s) (auto simp: holds_def plain_def count_loop.simps)

lemma double_quoted_body:
  "count_loop sqlDoubleQuote (concat (map (\<lambda>c. if c = DQ then [DQ, DQ] else [c]) name) @ DQ # r) = count_loop sqlNormal r"
  by (induction name) (auto simp: count_loop.simps quote_chars)

lemma holds_quoteIdent: "holds 0 (quoteIdent name)"
proof (cases "isSimpleIdent name")
  case True
  have "list_all plain name"
    using True
    by (auto simp: isSimpleIdent_def list_all_iff isAlnum_def isAlpha_def is_upper_def is_lower_def is_digit_def plain_def less_eq_char_def quote_chars
        split: list.splits)
  with True show ?thesis by (simp add: quoteIdent_def holds_plain)
next
  case False
  then show ?thesis using double_quoted_body by (simp add: quoteIdent_def holds_def count_loop.simps quote_chars)
qed

text \<open>\<open>strings.Join\<close> of pieces with the same number of placeholders each.\<close>

lemma holds_Join:
  assumes "list_all (holds n) ss"
  shows "holds (n * length ss) (Join ss '', '')"
proof -
  have sep: "holds 0 '', ''" by (rule holds_plain) (simp add: plain_def quote_chars)
  show ?thesis
    using assms
  proof (induction ss "'', ''" rule: Join.induct)
    case 1
    then show ?case by (simp add: holds_Nil)
  next
    case (2 s)
    then show ?case by simp
  next
    case (3 s t ss)
    then have "holds (n * length (t # ss)) (Join (t # ss) '', '')" and "holds n s" by auto
    from holds_append [OF this(2) holds_append [OF sep this(1)]] show ?case by (simp add: add.commute)
  qed
qed

lemma holds_placeholder_row:
  assumes "placeholder_row columns = Ok row"
  shows "holds (length columns) row"
proof -
  have c: "columns \<noteq> []" and row: "row = ''('' @ Repeat ''?, '' (length columns - 1) @ ''?)''"
    using assms by (auto simp: placeholder_row_def split: if_splits)
  have plain: "holds 0 ''(''" "holds 0 '', ''" "holds 0 '')''"
    by (rule holds_plain, simp add: plain_def quote_chars)+
  have "holds n (Repeat ''?, '' n)" for n
  proof (induction n)
    case 0
    then show ?case by (simp add: Repeat_def holds_Nil)
  next
    case (Suc n)
    from holds_append [OF holds_append [OF holds_mark plain(2)] Suc] show ?case by (simp add: Repeat_def)
  qed
  from holds_append [OF plain(1) holds_append [OF this [of "length columns - 1"] holds_append [OF holds_mark plain(3)]]] c
  show ?thesis by (simp add: row Suc_pred)
qed

lemma holds_insert_query:
  assumes "holds n placeholders"
  shows "holds n (insert_query tableName columns placeholders)"
proof -
  have plain: "holds 0 ''INSERT INTO ''" "holds 0 '' (''" "holds 0 '') VALUES ''"
    by (rule holds_plain, simp add: plain_def quote_chars)+
  have "holds 0 (quoteIdentList columns)"
    using holds_Join [of 0 "map quoteIdent columns"] holds_quoteIdent by (simp add: quoteIdentList_def list_all_iff)
  from holds_append [OF plain(1) holds_append [OF holds_quoteIdent
      holds_append [OF plain(2) holds_append [OF this holds_append [OF plain(3) assms]]]]]
  show ?thesis by (simp add: insert_query_def)
qed

lemma length_concat_rows: "list_all (\<lambda>vs. length vs = n) rows \<Longrightarrow> length (concat rows) = n * length rows"
  by (induction rows) auto

lemma chunk_placeholders:
  assumes "placeholder_row columns = Ok row" and "list_all (\<lambda>vs. length vs = length columns) chunk"
    and "chunk_statement tableName columns row chunk = (query, args)"
  shows "countPlaceholders query = length args" and "args = concat chunk"
proof -
  have "holds (length columns * length chunk) (Join (map (\<lambda>_. row) chunk) '', '')"
    using holds_Join [of "length columns" "map (\<lambda>_. row) chunk"] holds_placeholder_row [OF assms(1)] by (simp add: list_all_iff)
  from holds_insert_query [OF this] have "holds (length columns * length chunk) query"
    using assms(3) by (auto simp: chunk_statement_def)
  then have "countPlaceholders query = length columns * length chunk"
    unfolding holds_def countPlaceholders_def by (metis append_Nil2 add_0_right count_loop.simps(1))
  moreover have "length (concat chunk) = length columns * length chunk"
    using assms(2) by (rule length_concat_rows)
  ultimately show "countPlaceholders query = length args" and "args = concat chunk"
    using assms(3) by (auto simp: chunk_statement_def)
qed

subsection \<open>What reaches the database\<close>

text \<open>A database that refuses native connections and records what is executed.\<close>

type_synonym log = "(string \<times> gval list) list"

definition recorder :: "(string \<Rightarrow> gval list \<Rightarrow> int) \<Rightarrow> log sql_db" where
  "recorder affected =
     \<lparr>dbConn = fail_st BadConn, dbPut = (\<lambda>_ s. s),
      dbExec = (\<lambda>query args s. (Ok \<lparr>affectedRows = affected query args, lastInsertID = 0\<rparr>, s @ [(query, args)]))\<rparr>"

definition sum_affected :: "(string \<Rightarrow> gval list \<Rightarrow> int) \<Rightarrow> log \<Rightarrow> int \<Rightarrow> int" where
  "sum_affected affected log n = fold (\<lambda>(query, args) k. add_int64 k (affected query args)) log n"

lemma rewrite_loop_log:
  assumes "placeholder_row columns = Ok row" and "list_all (\<lambda>vs. length vs = length columns) values"
  shows "\<exists>out. rewrite_loop (recorder affected) tableName columns row values n s =
      (Ok \<lparr>affectedRows = sum_affected affected out n, lastInsertID = 0\<rparr>, s @ out) \<and>
    concat (map snd out) = concat values \<and>
    list_all (\<lambda>(query, args). countPlaceholders query = length args \<and> length args \<le> maxChunkSize * length columns) out"
  using assms(2)
proof (induction "values" arbitrary: n s rule: length_induct)
  case (1 vals)
  show ?case
  proof (cases "vals = []")
    case True
    then show ?thesis by (intro exI [of _ "[]"]) (simp add: rewrite_loop.simps sum_affected_def)
  next
    case False
    let ?chunk = "take maxChunkSize vals"
    obtain query args where st: "chunk_statement tableName columns row ?chunk = (query, args)" by fastforce
    have chunk: "list_all (\<lambda>vs. length vs = length columns) ?chunk" "list_all (\<lambda>vs. length vs = length columns) (drop maxChunkSize vals)"
      using 1(2) set_take_subset [of maxChunkSize vals] set_drop_subset [of maxChunkSize vals] by (auto simp: list_all_iff)
    note q = chunk_placeholders [OF assms(1) chunk(1) st]
    have "length (concat ?chunk) = length columns * length ?chunk" using chunk(1) by (rule length_concat_rows)
    then have len: "length args \<le> maxChunkSize * length columns" using q(2) by (simp add: min_def)
    have "length (drop maxChunkSize vals) < length vals" using False by (simp add: maxChunkSize_def)
    from 1(1) [rule_format, OF this chunk(2), of "add_int64 n (affected query args)" "s @ [(query, args)]"] obtain out where
      out: "rewrite_loop (recorder affected) tableName columns row (drop maxChunkSize vals) (add_int64 n (affected query args)) (s @ [(query, args)]) =
          (Ok \<lparr>affectedRows = sum_affected affected out (add_int64 n (affected query args)), lastInsertID = 0\<rparr>, (s @ [(query, args)]) @ out)"
      "concat (map snd out) = concat (drop maxChunkSize vals)"
      "list_all (\<lambda>(query, args). countPlaceholders query = length args \<and> length args \<le> maxChunkSize * length columns) out" by blast
    have "concat vals = args @ concat (drop maxChunkSize vals)"
      by (metis append_take_drop_id concat_append q(2))
    with out q len False st show ?thesis
      by (intro exI [of _ "(query, args) # out"])
        (simp add: rewrite_loop.simps [of _ _ _ _ vals] sum_affected_def, simp add: recorder_def)
  qed
qed

text \<open>
  C19: When rows cannot be inserted natively, \<open>BulkInsert\<close> rewrites them: whatever the table and column
  names contain, every statement it executes has as many placeholders as arguments, holds at most
  1000 rows, the arguments of all statements together are the values of all rows in order, each
  once, and the row count returned is the sum of the counts the database reported.
\<close>

theorem bulk_insert_rewrites:
  assumes "columns \<noteq> []" and "values \<noteq> []" and "list_all (\<lambda>vs. length vs = length columns) values"
  shows "\<exists>out. BulkInsert z (recorder affected) ctx tableName columns values [] =
      (Ok \<lparr>affectedRows = sum_affected affected out 0, lastInsertID = 0\<rparr>, out) \<and>
    concat (map snd out) = concat values \<and>
    list_all (\<lambda>(query, args). countPlaceholders query = length args \<and> length args \<le> maxChunkSize * length columns) out"
proof -
  obtain row where row: "placeholder_row columns = Ok row" using assms(1) by (simp add: placeholder_row_def)
  have "tryNativeBulkInsert z (recorder affected) ctx tableName columns values [] = (Err BadConn, [])"
    by (simp add: tryNativeBulkInsert_def row bind_st_def recorder_def)
  with rewrite_loop_log [OF row assms(3), of affected tableName 0 "[]"] assms(2) row show ?thesis
    by (auto simp: BulkInsert_def bulkInsertRewrite_def)
qed

theorem bulk_insert_rewrites_witness:
  "\<exists>out. BulkInsert \<lparr>zlibOpen = (\<lambda>_. Err EOF), zlibDeflate = (\<lambda>b. b)\<rparr> (recorder (\<lambda>q args. 1)) Background ''t?'' [''a'', ''b?'']
      [[VInt 1, VString ''x''], [VNil, VInt 2]] [] = (Ok \<lparr>affectedRows = sum_affected (\<lambda>q args. 1) out 0, lastInsertID = 0\<rparr>, out) \<and>
    concat (map snd out) = [VInt 1, VString ''x'', VNil, VInt 2]"
  using bulk_insert_rewrites [of "[''a'', ''b?'']" "[[VInt 1, VString ''x''], [VNil, VInt 2]]"
      "\<lparr>zlibOpen = (\<lambda>_. Err EOF), zlibDeflate = (\<lambda>b. b)\<rparr>" "\<lambda>q args. 1" Background "''t?''"]
  by auto

end
