(* ===== verification/Command_Frames.thy ===== *)
theory Command_Frames
  imports Statements
begin

text \<open>
  The frames of \<open>Conn_Frames\<close> for result sets, commands and statements.  Everything a command does
  between taking and giving back the lock keeps the configuration, the negotiated flags, the framing,
  the transaction flag and the lock, and never makes a bad connection good again.
\<close>

lemmas exchange_rules = xc.cf.within_bind xc.cf.within_if xc.protocol_within xc.bad_conn_within xc.withDeadline_within
lemmas exchange_calls = xc.cf.within_return xc.cf.within_fail xc.cf.within_const xc.lift_res_within xc.checkUsable_within
  xc.handleOK_within xc.updateSessionTimeZone_within xc.fail_protocol_within xc.read_marked_within
  conn_write_within new_command_within writeQuery_within setupExtraInfo_within

subsection \<open>Result sets\<close>

lemma const_within [simp]: "within (conn_frame exchange) (\<lambda>c. (f c, c))"
  by simp

lemma bad_result_within: "within (conn_frame exchange) (\<lambda>c. (f c, c\<lparr>bad := True\<rparr>))"
  by (simp add: within_def)

text \<open>A call that looks at the state before it goes on.\<close>

lemma within_state: "(\<And>c. within R (m c)) \<Longrightarrow> within R (\<lambda>c. m c c)"
  by (simp add: within_def)

lemma within_if_state:
  "within R m \<Longrightarrow> within R n \<Longrightarrow> within R (\<lambda>c. if b c then m c else n c)"
  by (simp add: within_def)

lemmas exchange_intros = exchange_rules exchange_calls within_if_state bad_result_within

lemma eof_within: "within (conn_frame exchange) (readEOFOrOK z)"
  unfolding readEOFOrOK_def readEOFOrOKPacket_def by (intro exchange_intros)

lemma metadata_mode_within: "within (conn_frame exchange) (metadata_mode z)"
proof -
  have "within (conn_frame exchange) (readResultSetTerminatorPacket z)"
    unfolding readResultSetTerminatorPacket_def by (intro exchange_intros)
  then show ?thesis unfolding metadata_mode_def by (intro exchange_intros)
qed

lemma skip_packets_within: "within (conn_frame exchange) (skip_packets z n)"
  by (induction n) (simp_all add: exchange_rules xc.read_marked_within)

lemma drain_rows_within: "within (conn_frame exchange) (drain_rows z b n)"
proof (induction n)
  case 0
  then show ?case by (simp add: bad_result_within)
next
  case (Suc n)
  show ?case unfolding drain_rows.simps by (intro exchange_intros Suc)
qed

lemma drainResultFromFirstPacket_within: "within (conn_frame exchange) (drainResultFromFirstPacket z first)"
  unfolding drainResultFromFirstPacket_def drainResultSetAfterColumnCount_def
  by (auto intro!: exchange_intros skip_packets_within metadata_mode_within drain_rows_within split: prod.splits)

lemma drainResultSets_within:
  "drainResultSetsFromFirstPacket z first c = (r, c') \<Longrightarrow> conn_frame exchange c c'"
proof (induction z first c arbitrary: r c' rule: drainResultSetsFromFirstPacket.induct)
  case (1 z first c)
  obtain r1 c1 where one: "on_error markProtocolError (drainResultFromFirstPacket z first) c = (r1, c1)" by fastforce
  then have f1: "conn_frame exchange c c1"
    using withinD [OF xc.protocol_within [OF drainResultFromFirstPacket_within]] by blast
  show ?case
  proof (cases "r1 = Ok True")
    case True
    obtain r2 c2 where two: "read_marked z c1 = (r2, c2)" by fastforce
    then have "conn_frame exchange c1 c2" using withinD [OF xc.read_marked_within] by blast
    with f1 have f2: "conn_frame exchange c c2" by (rule xc.cf.trans)
    show ?thesis
    proof (cases r2)
      case (Ok first')
      have "drainResultSetsFromFirstPacket z first' c2 = (r, c')"
        using "1.prems" one True two Ok by (subst (asm) drainResultSetsFromFirstPacket.simps) simp
      then have "conn_frame exchange c2 c'"
        using "1.IH" [of r1 c1 True r2 c2 first' r c'] one True two Ok by simp
      with f2 show ?thesis by (rule xc.cf.trans)
    qed (use "1.prems" one True two f2 in \<open>simp_all add: drainResultSetsFromFirstPacket.simps [of z first c]\<close>)
  next
    case False
    with "1.prems" one f1 show ?thesis
      by (auto simp: drainResultSetsFromFirstPacket.simps [of z first c] split: res.splits)
  qed
qed

lemma drainSets_within: "within (conn_frame exchange) (drainResultSetsFromFirstPacket z first)"
  by (rule withinI) (rule drainResultSets_within)

lemma drainRemaining_within: "within (conn_frame exchange) (drainRemainingResults z)"
  unfolding drainRemainingResults_def by (intro exchange_intros drainSets_within)

lemma read_columns_within: "within (conn_frame exchange) (read_columns z n)"
  by (induction n) (auto intro!: exchange_intros)

lemma readQueryResult_within: "within (conn_frame exchange) (readQueryResult z)"
  unfolding readQueryResult_def
  by (auto intro!: exchange_intros drainRemaining_within read_columns_within metadata_mode_within split: prod.splits)

lemma readResult_within: "within (conn_frame exchange) (readResultFromFirstPacket z packet)"
  unfolding readResultFromFirstPacket_def readQueryResultAfterColumnCount_def
  by (auto intro!: exchange_intros drainRemaining_within drainSets_within split: prod.splits)

lemma rows_drain_within: "within (conn_frame exchange) (rows_drain z r n)"
proof (induction n)
  case 0
  then show ?case by (simp add: bad_result_within)
next
  case (Suc n)
  show ?case unfolding rows_drain.simps by (intro exchange_intros drainRemaining_within Suc)
qed

subsection \<open>Commands\<close>

lemma queryLocked_within: "within (conn_frame exchange) (queryLocked z ctx query)"
  unfolding queryLocked_def by (intro exchange_intros readQueryResult_within)

lemma execLocked_within: "within (conn_frame exchange) (execLocked z ctx query)"
  unfolding execLocked_def by (intro exchange_intros readResult_within)

lemma ExecContext_within: "within (conn_frame exchange) (ExecContext ff z ctx query args)"
  unfolding ExecContext_def by (intro exchange_intros execLocked_within)

lemma Ping_within: "within (conn_frame exchange) (Ping z ctx)"
  unfolding Ping_def by (intro exchange_intros)

lemma configure_within: "within (conn_frame exchange) (configureSessionTimeZone z ctx)"
proof -
  have "within (conn_frame exchange) (\<lambda>c. (Ok (), c\<lparr>sessionLocation := l\<rparr>))" for l
    by (simp add: within_def)
  then have "within (conn_frame exchange)
      (bind_st (lift_res (resolveSessionTimeZone mode s)) (\<lambda>(l, canonical, enabled).
         if \<not> enabled then (\<lambda>c. (Ok (), c\<lparr>sessionLocation := Some UTC\<rparr>))
         else bind_st (execLocked z ctx (sessionTimeZoneSQL canonical)) (\<lambda>_ c. (Ok (), c\<lparr>sessionLocation := Some l\<rparr>))))" for mode s
    by (auto intro!: exchange_intros execLocked_within split: prod.splits)
  then show ?thesis
    by (auto simp: within_def configureSessionTimeZone_def split: option.splits)
qed

subsection \<open>Statements\<close>

lemma skip_definitions_within: "within (conn_frame exchange) (skip_definitions z n)"
  unfolding skip_definitions_def by (intro exchange_intros skip_packets_within eof_within)

lemma PrepareContext_within: "within (conn_frame exchange) (PrepareContext z ctx query)"
  unfolding PrepareContext_def Let_def by (intro exchange_intros skip_definitions_within)

lemma writeExecute_within: "within (conn_frame exchange) (writeExecute z stmtID args)"
  unfolding writeExecute_def by (intro exchange_intros)

lemma stmtQueryLocked_within: "within (conn_frame exchange) (stmtQueryLocked z ctx stmtID args)"
  unfolding stmtQueryLocked_def by (intro exchange_intros writeExecute_within readQueryResult_within)

lemma stmtBulkExecLocked_within: "within (conn_frame exchange) (stmtBulkExecLocked z ctx stmtID argRows)"
  unfolding stmtBulkExecLocked_def by (auto intro!: exchange_intros split: prod.splits)

lemma resetStmt_within: "within (conn_frame exchange) (resetStmt z stmtID)"
  unfolding resetStmt_def by (intro exchange_intros)

lemma closeStmt_within: "within (conn_frame exchange) (closeStmt z stmtID)"
  unfolding closeStmt_def by (intro exchange_intros)

lemma BulkExecContext_within: "within (conn_frame exchange) (BulkExecContext z s ctx argRows)"
  unfolding BulkExecContext_def by (intro exchange_intros stmtBulkExecLocked_within)

subsection \<open>Streaming rows\<close>

text \<open>
  What closing and reading a result set do to it and to the connection: nothing, a panic within the
  frame, or \<open>finish\<close> after some exchange.
\<close>

lemma Rows_Close_cases:
  assumes "Rows_Close z (r, c) = (res, (r', c'))"
  obtains (closed) "rClosed r" and "res = Ok ()" and "r' = r" and "c' = c"
  | (panic) "res = Panic" and "r' = r\<lparr>rClosed := True, rValues := []\<rparr>" and "conn_frame exchange c c'"
  | (finished) c1 where "\<not> rClosed r" and "res \<noteq> Panic" and "conn_frame exchange c c1"
      and "(r', c') = rows_finish (r\<lparr>rClosed := True, rValues := []\<rparr>, c1)"
proof -
  let ?r = "r\<lparr>rClosed := True, rValues := []\<rparr>"
  obtain res1 c1 where drain: "rows_drain z ?r maxDrainRows c = (res1, c1)" by fastforce
  then have frame: "conn_frame exchange c c1" using withinD [OF rows_drain_within] by blast
  consider "rClosed r" | "\<not> rClosed r" "\<not> (rStreaming r \<and> \<not> rDone r)" | "\<not> rClosed r" "rStreaming r \<and> \<not> rDone r" by blast
  then show thesis
  proof cases
    case 1
    with assms show ?thesis by (intro closed) (auto simp: Rows_Close_def)
  next
    case 2
    with assms show ?thesis by (intro finished [of c]) (auto simp: Rows_Close_def)
  next
    case 3
    with assms drain have run: "(case res1 of Panic \<Rightarrow> (Panic, (?r, c1)) | _ \<Rightarrow> (res1, rows_finish (?r, c1))) = (res, (r', c'))"
      by (cases res1) (auto simp: Rows_Close_def)
    show ?thesis
    proof (cases "res1 = Panic")
      case True
      with run frame show ?thesis by (intro panic) auto
    next
      case False
      with run frame 3 show ?thesis by (intro finished [of c1]) (auto split: res.splits)
    qed
  qed
qed

lemma markProtocolError_bad: "\<exists>b. snd (markProtocolError e c) = c\<lparr>bad := b\<rparr>"
proof (cases "errors_As_ServerError e")
  case True
  then show ?thesis by (intro exI [of _ "bad c"]) (simp add: markProtocolError_def)
next
  case False
  then show ?thesis by (intro exI [of _ True]) (simp add: markProtocolError_def Let_def)
qed

lemma finish_bad: "rows_finish (r, c\<lparr>bad := b\<rparr>) = (fst (rows_finish (r, c)), (snd (rows_finish (r, c)))\<lparr>bad := b\<rparr>)"
  by simp

lemma nextStreaming_cases:
  assumes "nextStreaming z pf (r, c) = (res, (r', c'))"
  obtains (stay) "r' = r" and "conn_frame exchange c c'" and "\<And>e. res = Err e \<Longrightarrow> rDone r"
  | (finished) c1 e where "res = Err e" and "conn_frame exchange c c1" and "(r', c') = rows_finish (r, c1)"
proof (cases "rDone r")
  case True
  with assms show ?thesis by (intro stay) (auto simp: nextStreaming_def)
next
  case False
  obtain r1 c1 where read: "read_marked z c = (r1, c1)" by fastforce
  then have f1: "conn_frame exchange c c1" using withinD [OF xc.read_marked_within] by blast
  show ?thesis
  proof (cases r1)
    case Panic
    with assms False read f1 show ?thesis by (intro stay) (auto simp: nextStreaming_def)
  next
    case (Err e)
    with assms False read f1 show ?thesis by (intro finished [of e c1]) (auto simp: nextStreaming_def)
  next
    case (Ok packet)
    obtain r2 c2 where drain: "drainRemainingResults z c1 = (r2, c2)" by fastforce
    then have f2: "conn_frame exchange c c2"
      using withinD [OF drainRemaining_within drain] f1 xc.cf.trans by blast
    consider (more) "isResultSetTerminator r packet" "resultSetTerminatorHasMoreResults packet (rSessionTrack r)"
      | (last) "isResultSetTerminator r packet" "\<not> resultSetTerminatorHasMoreResults packet (rSessionTrack r)"
      | (server_error) "\<not> isResultSetTerminator r packet" "packet \<noteq> [] \<and> packet ! 0 = ErrPacket"
      | (row) "\<not> isResultSetTerminator r packet" "\<not> (packet \<noteq> [] \<and> packet ! 0 = ErrPacket)" by blast
    then show ?thesis
    proof cases
      case more
      show ?thesis
      proof (cases "r2 = Panic")
        case True
        with assms False read Ok more drain f2 show ?thesis by (intro stay) (auto simp: nextStreaming_def)
      next
        case no: False
        with assms False read Ok more drain f2 show ?thesis
          by (cases r2) (intro finished [of _ c2]; auto simp: nextStreaming_def)+
      qed
    next
      case last
      with assms False read Ok f1 show ?thesis by (intro finished [of EOF c1]) (auto simp: nextStreaming_def)
    next
      case server_error
      define e where "e d = fst (markProtocolError (parseServerError packet) d)" for d
      have mark: "markProtocolError (parseServerError packet) d = (e d, snd (markProtocolError (parseServerError packet) d))" for d
        by (simp add: e_def)
      obtain b1 where b1: "snd (markProtocolError (parseServerError packet) (snd (rows_finish (r, c1)))) =
          (snd (rows_finish (r, c1)))\<lparr>bad := b1\<rparr>" using markProtocolError_bad by blast
      have "bad c1 \<longrightarrow> b1"
      proof -
        have "conn_frame exchange (snd (rows_finish (r, c1))) ((snd (rows_finish (r, c1)))\<lparr>bad := b1\<rparr>)"
          using xc.marks_within(1) [of "snd (rows_finish (r, c1))" "parseServerError packet"] b1 by simp
        then show ?thesis by (simp add: conn_frame_def split: if_splits)
      qed
      then have "conn_frame exchange c1 (c1\<lparr>bad := b1\<rparr>)"
        using xc.cf.refl [of c1] by (simp add: conn_frame_def)
      with f1 have f3: "conn_frame exchange c (c1\<lparr>bad := b1\<rparr>)" by (rule xc.cf.trans)
      have run: "(res, (r', c')) = (Err (e (snd (rows_finish (r, c1)))), rows_finish (r, c1\<lparr>bad := b1\<rparr>))"
        using assms False read Ok server_error b1 mark [of "snd (rows_finish (r, c1))"]
        by (auto simp: nextStreaming_def split: prod.splits)
      show ?thesis by (rule finished [OF _ f3]) (use run in auto)
    next
      case row
      have f4: "conn_frame exchange c (c1\<lparr>bad := True\<rparr>)" using f1 xc.bad_within xc.cf.trans by blast
      show ?thesis
      proof (cases "parse_row pf r packet")
        case (Err e)
        with assms False read Ok row f4 show ?thesis by (intro finished [of e "c1\<lparr>bad := True\<rparr>"]) (auto simp: nextStreaming_def)
      qed (use assms False read Ok row f1 in \<open>intro stay; auto simp: nextStreaming_def\<close>)+
    qed
  qed
qed

end
