(* ===== verification/Lifecycle.thy ===== *)
theory Lifecycle
  imports Command_Frames
begin

text \<open>
  The life of a connection.  A \<open>session\<close> is a connection with the last result set and transaction it
  handed out; a \<open>request\<close> is a call of the driver's interface, and \<open>step\<close> the transition it makes.  A call
  that takes the mutex is enabled while no result set holds it; \<open>PrepareContext\<close> takes no lock, so it is
  always enabled, and the methods of a result set are enabled once there is one.  A call that panics
  makes no step.

  \<open>session_ok\<close> is the invariant, and the record \<open>spec\<close> with \<open>allowed\<close> is the abstract contract of a
  connection towards the pool of \<open>database/sql\<close>, which the steps refine.
\<close>

subsection \<open>Calls\<close>

record calls_env =
  eFloat :: "u64 \<Rightarrow> string"
  eZlib :: zlib
  eOut :: out_env
  eParse :: "string \<Rightarrow> u64 option"

record session =
  sConn :: conn
  sRows :: "rows option"
  sTx :: "tx_handle option"

datatype request =
    PingR go_ctx
  | ExecR go_ctx string "named_value list"
  | QueryR go_ctx string "named_value list"
  | PrepareR go_ctx string
  | StmtExecR stmt go_ctx "named_value list"
  | StmtQueryR stmt go_ctx "named_value list"
  | BulkR stmt go_ctx "named_value list list"
  | StmtResetR stmt
  | StmtCloseR stmt
  | ResetR go_ctx
  | BeginR int bool
  | FinishR go_ctx string
  | NextR
  | RowsCloseR
  | CloseR

fun void :: "'a res \<Rightarrow> unit res" where
  "void (Ok _) = Ok ()"
| "void (Err e) = Err e"
| "void Panic = Panic"

definition on_conn :: "'a cst \<Rightarrow> (session, unit) st" where
  "on_conn m s = (case m (sConn s) of (r, c) \<Rightarrow> (void r, s\<lparr>sConn := c\<rparr>))"

definition opening_rows :: "rows cst \<Rightarrow> (session, unit) st" where
  "opening_rows m s =
     (case m (sConn s) of
        (Ok r, c) \<Rightarrow> (Ok (), s\<lparr>sConn := c, sRows := Some r\<rparr>)
      | (r, c) \<Rightarrow> (void r, s\<lparr>sConn := c\<rparr>))"

definition on_rows :: "'a rst \<Rightarrow> (session, unit) st" where
  "on_rows m s =
     (case sRows s of
        None \<Rightarrow> (Panic, s)
      | Some r \<Rightarrow> (case m (r, sConn s) of (res, (r', c')) \<Rightarrow> (void res, s\<lparr>sConn := c', sRows := Some r'\<rparr>)))"

fun run :: "calls_env \<Rightarrow> request \<Rightarrow> (session, unit) st" where
  "run E (PingR ctx) s = on_conn (Ping (eZlib E) ctx) s"
| "run E (ExecR ctx query args) s = on_conn (ExecContext (eFloat E) (eZlib E) ctx query args) s"
| "run E (QueryR ctx query args) s = opening_rows (QueryContext (eFloat E) (eZlib E) ctx query args) s"
| "run E (PrepareR ctx query) s = on_conn (PrepareContext (eZlib E) ctx query) s"
| "run E (StmtExecR st ctx args) s = on_conn (Stmt_ExecContext (eOut E) (eZlib E) (eParse E) st ctx args) s"
| "run E (StmtQueryR st ctx args) s = opening_rows (Stmt_QueryContext (eZlib E) st ctx args) s"
| "run E (BulkR st ctx argRows) s = on_conn (BulkExecContext (eZlib E) st ctx argRows) s"
| "run E (StmtResetR st) s = on_conn (Stmt_Reset (eZlib E) st) s"
| "run E (StmtCloseR st) s =
     (case Stmt_Close (eZlib E) (st, sConn s) of (r, (_, c)) \<Rightarrow> (r, s\<lparr>sConn := c\<rparr>))"
| "run E (ResetR ctx) s = on_conn (ResetSession (eZlib E) ctx) s"
| "run E (BeginR isolation readOnly) s =
     (case BeginTx isolation readOnly (sConn s) of
        (Ok _, c) \<Rightarrow> (Ok (), s\<lparr>sConn := c, sTx := Some \<lparr>txDone = False\<rparr>\<rparr>)
      | (r, c) \<Rightarrow> (r, s\<lparr>sConn := c\<rparr>))"
| "run E (FinishR ctx query) s =
     (case sTx s of
        None \<Rightarrow> (Panic, s)
      | Some t \<Rightarrow>
          (case Tx_finish (eZlib E) ctx query (t, sConn s) of
             (r, (t', c)) \<Rightarrow> (r, s\<lparr>sConn := c, sTx := Some t'\<rparr>)))"
| "run E NextR s = on_rows (Rows_Next (eZlib E) (eParse E)) s"
| "run E RowsCloseR s = on_rows (Rows_Close (eZlib E)) s"
| "run E CloseR s = on_conn (Conn_Close (eZlib E)) s"

fun enabled :: "request \<Rightarrow> session \<Rightarrow> bool" where
  "enabled (PrepareR ctx query) s = True"
| "enabled NextR s = (sRows s \<noteq> None)"
| "enabled RowsCloseR s = (sRows s \<noteq> None)"
| "enabled (FinishR ctx query) s = (sTx s \<noteq> None \<and> \<not> locked (sConn s))"
| "enabled _ s = (\<not> locked (sConn s))"

inductive step :: "calls_env \<Rightarrow> session \<Rightarrow> request \<Rightarrow> session \<Rightarrow> bool" for E where
  step: "enabled q s \<Longrightarrow> run E q s = (r, s') \<Longrightarrow> r \<noteq> Panic \<Longrightarrow> step E s q s'"

inductive_cases stepE: "step E s q s'"

inductive reachable :: "calls_env \<Rightarrow> session \<Rightarrow> session \<Rightarrow> bool" for E s0 where
  start: "reachable E s0 s0"
| later: "reachable E s0 s \<Longrightarrow> step E s q s' \<Longrightarrow> reachable E s0 s'"

subsection \<open>The invariant\<close>

definition holds_lock :: "session \<Rightarrow> bool" where
  "holds_lock s = (case sRows s of None \<Rightarrow> False | Some r \<Rightarrow> rRelease r)"

definition rows_ok :: "rows \<Rightarrow> bool" where
  "rows_ok r \<longleftrightarrow> (rRelease r \<longrightarrow> rStreaming r \<and> \<not> rDone r \<and> \<not> rClosed r)"

definition session_ok :: "session \<Rightarrow> bool" where
  "session_ok s \<longleftrightarrow>
     (closed (sConn s) \<longleftrightarrow> packets (sConn s) = None) \<and> (closed (sConn s) \<longleftrightarrow> netConn (sConn s) = None) \<and>
     cfg (sConn s) \<noteq> None \<and> (locked (sConn s) \<longleftrightarrow> holds_lock s) \<and> (closed (sConn s) \<longrightarrow> \<not> locked (sConn s)) \<and>
     (\<forall>r. sRows s = Some r \<longrightarrow> rows_ok r)"

subsection \<open>Frames with the transaction flag\<close>

text \<open>The frame of a command that may change the transaction flag.\<close>

definition tx_frame :: "conn \<Rightarrow> conn \<Rightarrow> bool" where
  "tx_frame c d \<longleftrightarrow> conn_frame exchange c (d\<lparr>inTx := inTx c\<rparr>)"

lemma conn_frame_inTx: "conn_frame P c d \<Longrightarrow> conn_frame P (c\<lparr>inTx := b\<rparr>) (d\<lparr>inTx := b\<rparr>)"
  by (simp add: conn_frame_def)

interpretation tf: state_frame tx_frame
proof
  show "tx_frame s s" for s by (simp add: tx_frame_def)
  show "tx_frame s u" if "tx_frame s t" and "tx_frame t u" for s t u
  proof -
    have "conn_frame exchange (t\<lparr>inTx := inTx s\<rparr>) (u\<lparr>inTx := inTx s\<rparr>)"
      using conn_frame_inTx [of exchange t "u\<lparr>inTx := inTx t\<rparr>" "inTx s"] that(2) by (simp add: tx_frame_def)
    with that(1) show ?thesis unfolding tx_frame_def by (rule xc.cf.trans)
  qed
qed

lemma frame_tx: "conn_frame exchange c d \<Longrightarrow> tx_frame c d"
  by (simp add: tx_frame_def conn_frame_def)

lemma within_tx: "within (conn_frame exchange) m \<Longrightarrow> within tx_frame m"
  by (auto simp: within_def frame_tx)

lemma tx_frame_set [simp]: "tx_frame c (d\<lparr>inTx := b\<rparr>) \<longleftrightarrow> tx_frame c d"
  by (simp add: tx_frame_def)

lemma set_tx_within: "within tx_frame (\<lambda>c. (f c, c\<lparr>inTx := b\<rparr>))"
  by (simp add: within_def)

lemma reset_error_within: "within (conn_frame exchange) m \<Longrightarrow> within (conn_frame exchange) (on_error markSessionResetError m)"
  by (rule xc.on_error_within [OF _ xc.marks_within(3)])

lemma ResetSession_within: "within tx_frame (ResetSession z ctx)"
  unfolding ResetSession_def
  by (intro tf.within_bind within_if_state tf.within_const within_tx [OF xc.checkUsable_within] set_tx_within
      within_tx [OF reset_error_within [OF execLocked_within]] within_tx [OF reset_error_within [OF configure_within]])

lemma BeginTx_within: "within tx_frame (BeginTx isolation readOnly)"
  by (simp add: within_def BeginTx_def)

text \<open>The outcomes of \<open>finish\<close>.\<close>

lemma Tx_finish_cases:
  assumes "Tx_finish z ctx query (t, c) = (r, (t', d))"
  obtains (idle) "d = c" and "t' = t"
  | (failed) "r \<noteq> Ok ()" and "conn_frame exchange c d" and "t' = t" and "\<not> closed c" and "\<not> bad c"
  | (finished) c1 where "r = Ok ()" and "conn_frame exchange c c1" and "d = c1\<lparr>inTx := False\<rparr>" and "txDone t'"
      and "\<not> closed c" and "\<not> bad c"
proof (cases "txDone t \<or> closed c \<or> bad c")
  case True
  with assms show ?thesis by (intro idle) (auto simp: Tx_finish_def checkUsableLocked_def split: if_splits)
next
  case False
  obtain r1 c1 where run: "execLocked z ctx query c = (r1, c1)" by fastforce
  then have f: "conn_frame exchange c c1" using withinD [OF execLocked_within] by blast
  have f2: "conn_frame exchange c (snd (markBadIfConnErr e c1))" for e
    using f xc.marks_within(2) xc.cf.trans by blast
  show ?thesis
  proof (cases r1)
    case (Ok x)
    with assms run f False show ?thesis by (intro finished [of c1]) (auto simp: Tx_finish_def checkUsableLocked_def)
  next
    case (Err e)
    with assms run f2 [of e] False show ?thesis
      by (intro failed) (auto simp: Tx_finish_def checkUsableLocked_def split: prod.splits)
  next
    case Panic
    with assms run f False show ?thesis by (intro failed) (auto simp: Tx_finish_def checkUsableLocked_def)
  qed
qed

lemma Tx_finish_frame: "Tx_finish z ctx query (t, c) = (r, (t', d)) \<Longrightarrow> tx_frame c d"
  by (erule Tx_finish_cases) (simp_all add: frame_tx)

subsection \<open>Opening a result set\<close>

definition fresh_rows :: "rows \<Rightarrow> bool" where
  "fresh_rows r \<longleftrightarrow> \<not> rRelease r \<and> \<not> rClosed r \<and> (rStreaming r \<longrightarrow> \<not> rDone r)"

lemma readQueryResult_fresh: "readQueryResult z c = (Ok r, d) \<Longrightarrow> fresh_rows r"
  unfolding readQueryResult_def
  by (auto elim!: bind_st_Ok_E simp: on_error_Ok fresh_rows_def zero_rows_def split: if_splits prod.splits)

lemma withDeadline_Ok: "withDeadline ctx m c = (Ok x, d) \<Longrightarrow> \<exists>c1. m c1 = (Ok x, d)"
  unfolding withDeadline_def
  by (auto elim!: bind_st_Ok_E split: prod.splits res.splits option.splits)

lemma queryLocked_fresh: "queryLocked z ctx query c = (Ok r, d) \<Longrightarrow> fresh_rows r"
  by (auto simp: queryLocked_def dest!: withDeadline_Ok elim!: bind_st_Ok_E intro: readQueryResult_fresh)

lemma fresh_rows_binary [simp]: "fresh_rows (r\<lparr>rBinary := b\<rparr>) \<longleftrightarrow> fresh_rows r"
  by (simp add: fresh_rows_def)

lemma stmtQueryLocked_fresh:
  assumes "stmtQueryLocked z ctx stmtID args c = (Ok r, d)"
  shows "fresh_rows r"
proof -
  from assms obtain c1 r1 where "readQueryResult z c1 = (Ok r1, d)" and "r = r1\<lparr>rBinary := True\<rparr>"
    by (auto simp: stmtQueryLocked_def dest!: withDeadline_Ok elim!: bind_st_Ok_E)
  then show ?thesis using readQueryResult_fresh by simp
qed

text \<open>What a query does: an error within the frame, or rows that hold the lock when they stream.\<close>

definition query_outcome :: "conn \<Rightarrow> rows res \<Rightarrow> conn \<Rightarrow> bool" where
  "query_outcome c res d \<longleftrightarrow>
     (case res of
        Ok r \<Rightarrow> \<not> rClosed r \<and> (\<exists>d0. conn_frame exchange c d0 \<and>
          (if rStreaming r then rRelease r \<and> \<not> rDone r \<and> d = d0\<lparr>locked := True\<rparr> else \<not> rRelease r \<and> d = d0))
      | _ \<Rightarrow> conn_frame exchange c d)"

lemma hand_over_outcome:
  assumes "within (conn_frame exchange) m" and "\<And>c r d. m c = (Ok r, d) \<Longrightarrow> fresh_rows r"
    and "bind_st m hand_over_lock c = (res, d)"
  shows "query_outcome c res d"
proof -
  obtain r1 c1 where m: "m c = (r1, c1)" by fastforce
  have f: "conn_frame exchange c c1" using withinD [OF assms(1) m] .
  show ?thesis
  proof (cases r1)
    case (Ok r)
    with assms(2) m have "fresh_rows r" by blast
    with Ok m f assms(3) show ?thesis
      by (auto simp: query_outcome_def hand_over_lock_def fresh_rows_def split: if_splits)
  qed (use m f assms(3) in \<open>auto simp: query_outcome_def\<close>)
qed

lemma QueryContext_outcome:
  assumes "QueryContext ff z ctx query args c = (res, d)"
  shows "query_outcome c res d"
proof (rule hand_over_outcome)
  let ?m = "bind_st (lift_res (interpolateParams ff query args)) (\<lambda>query. bind_st checkUsableLocked (\<lambda>_.
    bind_st (setupExtraInfo ctx) (\<lambda>_. on_error markBadIfConnErr (queryLocked z ctx query))))"
  show "within (conn_frame exchange) ?m" by (intro exchange_intros queryLocked_within)
  show "fresh_rows r" if "?m c = (Ok r, d)" for c r d
    using that by (auto elim!: bind_st_Ok_E simp: on_error_Ok dest: queryLocked_fresh)
  show "bind_st ?m hand_over_lock c = (res, d)" using assms by (simp add: QueryContext_def bind_assoc)
qed

lemma Stmt_QueryContext_outcome:
  assumes "Stmt_QueryContext z s ctx args c = (res, d)"
  shows "query_outcome c res d"
proof (cases "stClosed s")
  case True
  with assms show ?thesis by (auto simp: Stmt_QueryContext_def query_outcome_def)
next
  case False
  let ?m = "bind_st checkUsableLocked (\<lambda>_.
        bind_st (on_error markBadIfConnErr (stmtQueryLocked z ctx (stID s) args)) (\<lambda>r.
        bind_st (on_error markBadIfConnErr (updateSessionTimeZoneFromQuery (stQuery s) args)) (\<lambda>_. return_st r)))"
  have eq: "bind_st (return_st r) hand_over_lock = hand_over_lock r" for r by (rule ext) simp
  show ?thesis
  proof (rule hand_over_outcome)
    show "within (conn_frame exchange) ?m" by (intro exchange_intros stmtQueryLocked_within)
    show "fresh_rows r" if "?m c = (Ok r, d)" for c r d
      using that by (auto elim!: bind_st_Ok_E simp: on_error_Ok dest: stmtQueryLocked_fresh)
    show "bind_st ?m hand_over_lock c = (res, d)"
      using assms False by (simp add: Stmt_QueryContext_def bind_assoc eq)
  qed
qed

subsection \<open>OUT parameters\<close>

text \<open>A result set that does not hold the lock leaves it alone.\<close>

lemma Rows_Next_frame:
  assumes "Rows_Next z pf (r, c) = (res, (r', c'))" and "\<not> rRelease r"
  shows "conn_frame exchange c c'" and "\<not> rRelease r'"
  using assms by (auto simp: Rows_Next_def split: if_splits elim!: nextStreaming_cases)

lemma Rows_Close_frame:
  assumes "Rows_Close z (r, c) = (res, (r', c'))" and "\<not> rRelease r"
  shows "conn_frame exchange c c'"
  using assms by (auto elim!: Rows_Close_cases)

lemma closing_rows_within:
  assumes "\<And>r c res r' c'. body (r, c) = (res, (r', c')) \<Longrightarrow> \<not> rRelease r \<Longrightarrow> conn_frame exchange c c' \<and> \<not> rRelease r'"
    and "\<not> rRelease r"
  shows "within (conn_frame exchange) (closing_rows z body r)"
proof (rule withinI)
  fix c res c2 assume run: "closing_rows z body r c = (res, c2)"
  obtain res1 r1 c1 where body: "body (r, c) = (res1, (r1, c1))" by (metis surj_pair)
  obtain res2 r2 d2 where close: "Rows_Close z (r1, c1) = (res2, (r2, d2))" by (metis surj_pair)
  from assms(1) [OF body assms(2)] have f: "conn_frame exchange c c1" and "\<not> rRelease r1" by auto
  then have "conn_frame exchange c d2" using Rows_Close_frame [OF close] xc.cf.trans by blast
  moreover have "c2 = d2" using run body close by (auto simp: closing_rows_def split: res.splits)
  ultimately show "conn_frame exchange c c2" by simp
qed

lemma readOutParams_within: "within (conn_frame exchange) (readOutParams env z pf args)"
proof -
  let ?body = "bind_st (Rows_Next z pf) (\<lambda>dest rc. (case assign_out env dest args of (Some e, _) \<Rightarrow> Err e | (None, args') \<Rightarrow> Ok args', rc))"
  have "conn_frame exchange c c' \<and> \<not> rRelease r'" if "?body (r, c) = (res, (r', c'))" and "\<not> rRelease r" for r c res r' c'
  proof -
    obtain res1 r1 c1 where n: "Rows_Next z pf (r, c) = (res1, (r1, c1))" by (metis surj_pair)
    with that(1) have "r' = r1" and "c' = c1" by (cases res1; simp)+
    with Rows_Next_frame [OF n that(2)] show ?thesis by simp
  qed
  then have "within (conn_frame exchange) (closing_rows z ?body (r\<lparr>rBinary := True\<rparr>))" if "\<not> rRelease r" for r
    using that by (intro closing_rows_within) auto
  moreover have "\<not> rRelease r" if "readQueryResult z c = (Ok r, d)" for c r d
    using readQueryResult_fresh [OF that] by (simp add: fresh_rows_def)
  ultimately have "conn_frame exchange c d" if "readOutParams env z pf args c = (res, d)" for c res d
    using that withinD [OF readQueryResult_within] xc.cf.trans
    unfolding readOutParams_def bind_st_def
    by (auto split: prod.splits res.splits) (meson withinD)+
  then show ?thesis by (rule withinI)
qed

lemma stmtExecLocked_within: "within (conn_frame exchange) (stmtExecLocked env z pf ctx stmtID args)"
  unfolding stmtExecLocked_def
  by (auto intro!: exchange_intros writeExecute_within readOutParams_within drainRemaining_within readResult_within
      split: prod.splits)

lemma Stmt_ExecContext_within: "within (conn_frame exchange) (Stmt_ExecContext env z pf s ctx args)"
  unfolding Stmt_ExecContext_def by (intro exchange_intros stmtExecLocked_within)

lemma Stmt_Reset_within: "within (conn_frame exchange) (Stmt_Reset z s)"
  unfolding Stmt_Reset_def by (intro exchange_intros resetStmt_within)

subsection \<open>Calls on a connection that is not usable\<close>

definition guarded :: "'a cst \<Rightarrow> bool" where
  "guarded m \<longleftrightarrow> (\<forall>c. \<not> IsValid c \<longrightarrow> snd (m c) = c)"

lemma guardedD: "guarded m \<Longrightarrow> \<not> IsValid c \<Longrightarrow> m c = (r, d) \<Longrightarrow> d = c"
  by (metis guarded_def snd_conv)

lemma guarded_check: "guarded (bind_st checkUsableLocked f)"
  by (auto simp: guarded_def IsValid_def checkUsableLocked_def bind_st_def)

lemma guarded_fail: "guarded (fail_st e)"
  by (simp add: guarded_def)

lemma guarded_if: "guarded m \<Longrightarrow> guarded n \<Longrightarrow> guarded (if b then m else n)"
  by simp

lemma guarded_lift: "(\<And>x. guarded (f x)) \<Longrightarrow> guarded (bind_st (lift_res r) f)"
  by (cases r) (auto simp: guarded_def bind_st_def lift_res_def)

lemmas guarded_rules = guarded_lift guarded_check guarded_fail guarded_if

lemma guarded_calls:
  "guarded (Ping z ctx)" "guarded (ExecContext ff z ctx query args)" "guarded (QueryContext ff z ctx query args)"
  "guarded (Stmt_ExecContext env z pf s ctx args)" "guarded (Stmt_QueryContext z s ctx args)"
  "guarded (BulkExecContext z s ctx argRows)" "guarded (Stmt_Reset z s)" "guarded (ResetSession z ctx)"
  "guarded (closeStmt z stmtID)"
  unfolding Ping_def ExecContext_def QueryContext_def Stmt_ExecContext_def Stmt_QueryContext_def
    BulkExecContext_def Stmt_Reset_def resetStmt_def ResetSession_def
  by (intro guarded_rules)+ (simp add: guarded_def IsValid_def closeStmt_def)

subsection \<open>The contract of a connection\<close>

datatype phase = Idle | Streaming | Ended

record spec =
  spPhase :: phase
  spRetired :: bool
  spInTx :: bool

definition abs_session :: "session \<Rightarrow> spec" where
  "abs_session s =
     \<lparr>spPhase = (if closed (sConn s) then Ended else if locked (sConn s) then Streaming else Idle),
      spRetired = bad (sConn s), spInTx = inTx (sConn s)\<rparr>"

definition sp_usable :: "spec \<Rightarrow> bool" where
  "sp_usable a \<longleftrightarrow> spPhase a \<noteq> Ended \<and> \<not> spRetired a"

text \<open>
  \<open>allowed q a a'\<close>: the call \<open>q\<close> may take a connection from \<open>a\<close> to \<open>a'\<close>.  A retired connection stays
  retired; beginning a transaction records it exactly when the options are the default ones; calls that
  take the lock wait for the end of a result set and, the beginning of a
  transaction apart, leave an unusable connection alone; only a query starts streaming; only closing
  ends the connection.
\<close>

definition sp_retiring :: "spec \<Rightarrow> spec \<Rightarrow> bool" where
  "sp_retiring a a' \<longleftrightarrow> a' = a\<lparr>spRetired := spRetired a'\<rparr> \<and> (spRetired a \<longrightarrow> spRetired a')"

definition sp_command :: "spec \<Rightarrow> spec \<Rightarrow> bool" where
  "sp_command a a' \<longleftrightarrow> spPhase a \<noteq> Streaming \<and> (if sp_usable a then sp_retiring a a' else a' = a)"

definition sp_query :: "spec \<Rightarrow> spec \<Rightarrow> bool" where
  "sp_query a a' \<longleftrightarrow>
     spPhase a \<noteq> Streaming \<and>
     (if sp_usable a then spPhase a' \<noteq> Ended \<and> spInTx a' = spInTx a else a' = a)"

definition sp_end_tx :: "spec \<Rightarrow> spec \<Rightarrow> bool" where
  "sp_end_tx a a' \<longleftrightarrow>
     spPhase a \<noteq> Streaming \<and> spPhase a' = spPhase a \<and> (spInTx a' \<longrightarrow> spInTx a) \<and> (\<not> sp_usable a \<longrightarrow> a' = a)"

fun allowed :: "request \<Rightarrow> spec \<Rightarrow> spec \<Rightarrow> bool" where
  "allowed (QueryR ctx query args) a a' = sp_query a a'"
| "allowed (StmtQueryR st ctx args) a a' = sp_query a a'"
| "allowed (PrepareR ctx query) a a' = sp_retiring a a'"
| "allowed (ResetR ctx) a a' = (sp_end_tx a a' \<and> (sp_usable a \<longrightarrow> spRetired a' \<or> \<not> spInTx a'))"
| "allowed (BeginR isolation readOnly) a a' =
     (spPhase a \<noteq> Streaming \<and> a' = a\<lparr>spInTx := (spInTx a \<or> isolation = 0 \<and> \<not> readOnly)\<rparr>)"
| "allowed (FinishR ctx query) a a' = sp_end_tx a a'"
| "allowed NextR a a' =
     (spInTx a' = spInTx a \<and> (spRetired a \<longrightarrow> spRetired a') \<and>
      (if spPhase a = Streaming then spPhase a' \<noteq> Ended else spPhase a' = spPhase a))"
| "allowed RowsCloseR a a' =
     (spInTx a' = spInTx a \<and> (spRetired a \<longrightarrow> spRetired a') \<and>
      spPhase a' = (if spPhase a = Streaming then Idle else spPhase a))"
| "allowed CloseR a a' = (spPhase a \<noteq> Streaming \<and> a' = a\<lparr>spPhase := Ended\<rparr>)"
| "allowed q a a' = sp_command a a'"

subsection \<open>Steps refine the contract\<close>

lemma usable_abs: "sp_usable (abs_session s) \<longleftrightarrow> IsValid (sConn s)"
  by (auto simp: sp_usable_def abs_session_def IsValid_def)

lemma phase_abs [simp]:
  "spPhase (abs_session s) = Streaming \<longleftrightarrow> \<not> closed (sConn s) \<and> locked (sConn s)"
  "spPhase (abs_session s) = Ended \<longleftrightarrow> closed (sConn s)"
  "spRetired (abs_session s) = bad (sConn s)" "spInTx (abs_session s) = inTx (sConn s)"
  by (simp_all add: abs_session_def)

lemma frame_packets: "conn_frame P c d \<Longrightarrow> packets d = None \<longleftrightarrow> packets c = None"
  by (auto simp: conn_frame_def elim: option.rel_cases)

lemma frame_fields:
  assumes "tx_frame c d"
  shows "packets d = None \<longleftrightarrow> packets c = None" "closed d = closed c" "netConn d = None \<longleftrightarrow> netConn c = None"
    "cfg d = cfg c" "locked d = locked c" "bad c \<longrightarrow> bad d"
  using assms frame_packets [of exchange c "d\<lparr>inTx := inTx c\<rparr>"]
  by (auto simp: tx_frame_def conn_frame_def)

text \<open>A step that stays within the frame keeps the invariant and the phase.\<close>

lemma session_ok_frame:
  assumes "session_ok s" and "tx_frame (sConn s) c" and "sRows s' = sRows s" and "sConn s' = c"
  shows "session_ok s'" and "spPhase (abs_session s') = spPhase (abs_session s)"
    and "bad (sConn s) \<longrightarrow> bad c"
  using assms frame_fields [OF assms(2)]
  by (auto simp: session_ok_def holds_lock_def abs_session_def)

lemma frame_command:
  assumes "session_ok s" and "conn_frame exchange (sConn s) c"
  shows "session_ok (s\<lparr>sConn := c\<rparr>)" and "sp_retiring (abs_session s) (abs_session (s\<lparr>sConn := c\<rparr>))"
proof -
  have t: "tx_frame (sConn s) c" using assms(2) by (rule frame_tx)
  show "session_ok (s\<lparr>sConn := c\<rparr>)" by (rule session_ok_frame [OF assms(1) t]) simp_all
  have "inTx c = inTx (sConn s)" using assms(2) by (simp add: conn_frame_def)
  then show "sp_retiring (abs_session s) (abs_session (s\<lparr>sConn := c\<rparr>))"
    using frame_fields [OF t] by (simp add: sp_retiring_def abs_session_def)
qed

text \<open>A command that takes the lock.\<close>

lemma command_step:
  assumes "session_ok s" and "\<not> locked (sConn s)" and "within (conn_frame exchange) m" and "guarded m"
    and "on_conn m s = (r, s')"
  shows "session_ok s' \<and> sp_command (abs_session s) (abs_session s')"
proof -
  obtain r1 c where m: "m (sConn s) = (r1, c)" by fastforce
  then have s': "s' = s\<lparr>sConn := c\<rparr>" using assms(5) by (simp add: on_conn_def)
  have f: "conn_frame exchange (sConn s) c" using withinD [OF assms(3) m] .
  have "s' = s" if "\<not> IsValid (sConn s)" using guardedD [OF assms(4) that m] s' by simp
  with frame_command [OF assms(1) f] s' assms(2) show ?thesis
    by (auto simp: sp_command_def usable_abs)
qed

lemma query_step:
  assumes ok: "session_ok s" and "\<not> locked (sConn s)"
    and outcome: "\<And>res d. m (sConn s) = (res, d) \<Longrightarrow> query_outcome (sConn s) res d" and "guarded m"
    and run: "opening_rows m s = (r, s')"
  shows "session_ok s' \<and> sp_query (abs_session s) (abs_session s')"
proof -
  obtain res d where m: "m (sConn s) = (res, d)" by fastforce
  have o: "query_outcome (sConn s) res d" using outcome [OF m] .
  have same: "d = sConn s" if "\<not> IsValid (sConn s)" using guardedD [OF assms(4) that m] .
  show ?thesis
  proof (cases res)
    case (Ok rs)
    with o obtain d0 where f: "conn_frame exchange (sConn s) d0" and "\<not> rClosed rs"
      and d: "if rStreaming rs then rRelease rs \<and> \<not> rDone rs \<and> d = d0\<lparr>locked := True\<rparr> else \<not> rRelease rs \<and> d = d0"
      by (auto simp: query_outcome_def)
    have s': "s' = s\<lparr>sConn := d, sRows := Some rs\<rparr>" using run m Ok by (simp add: opening_rows_def)
    have "IsValid (sConn s)" if "rStreaming rs"
      using same d that assms(2) by (metis (no_types, lifting) conn.select_convs(14) conn.surjective conn.update_convs(14))
    then have "\<not> closed d0" if "rStreaming rs"
      using that frame_fields(2) [OF frame_tx [OF f]] by (simp add: IsValid_def)
    then have "session_ok s'"
      using ok d \<open>\<not> rClosed rs\<close> s' frame_fields [OF frame_tx [OF f]] assms(2)
      by (auto simp: session_ok_def holds_lock_def rows_ok_def split: if_splits)
    moreover have "sp_query (abs_session s) (abs_session s')"
    proof (cases "IsValid (sConn s)")
      case True
      then show ?thesis
        using d s' assms(2) f frame_fields(2) [OF frame_tx [OF f]]
        by (auto simp: sp_query_def usable_abs IsValid_def conn_frame_def split: if_splits)
    next
      case False
      with same s' have "abs_session s' = abs_session s" by (simp add: abs_session_def)
      with False assms(2) show ?thesis by (simp add: sp_query_def usable_abs)
    qed
    ultimately show ?thesis by simp
  qed (use run m o same assms(2) frame_command [OF ok, of d] frame_fields(2) [OF frame_tx, of "sConn s" d] in
    \<open>auto simp: opening_rows_def query_outcome_def sp_query_def usable_abs sp_retiring_def IsValid_def conn_frame_def\<close>)
qed

text \<open>The end of a result set gives the lock back.\<close>

lemma finish_step:
  assumes ok: "session_ok s" and rows: "sRows s = Some r" and f: "conn_frame exchange (sConn s) c1"
    and fin: "(r', c') = rows_finish (r0, c1)" and same: "rRelease r0 = rRelease r"
  defines "s' \<equiv> s\<lparr>sConn := c', sRows := Some r'\<rparr>"
  shows "session_ok s'" and "\<not> locked c'" and "closed c' = closed (sConn s)" and "inTx c' = inTx (sConn s)"
    and "bad (sConn s) \<longrightarrow> bad c'"
proof -
  note ff = frame_fields [OF frame_tx [OF f]]
  have lock: "locked (sConn s) = rRelease r" using ok rows by (simp add: session_ok_def holds_lock_def)
  have c': "c' = (if rRelease r0 then c1\<lparr>locked := False\<rparr> else c1)" and r': "r' = r0\<lparr>rDone := True, rRelease := False\<rparr>"
    using fin by simp_all
  show "\<not> locked c'" using c' lock ff same by auto
  then show "session_ok s'"
    using ok ff c' r' by (auto simp: session_ok_def holds_lock_def rows_ok_def s'_def)
  show "closed c' = closed (sConn s)" "inTx c' = inTx (sConn s)" "bad (sConn s) \<longrightarrow> bad c'"
    using ff c' f by (auto simp: conn_frame_def)
qed

lemma next_step:
  assumes ok: "session_ok s" and rows: "sRows s = Some r"
    and run: "Rows_Next z pf (r, sConn s) = (res, (r', c'))"
  defines "s' \<equiv> s\<lparr>sConn := c', sRows := Some r'\<rparr>"
  shows "session_ok s' \<and> allowed NextR (abs_session s) (abs_session s')"
proof (cases "rStreaming r")
  case False
  then have "c' = sConn s" and "r' = r \<or> r' = r\<lparr>rPos := rPos r + 1\<rparr>"
    using run by (auto simp: Rows_Next_def split: if_splits)
  then have "session_ok s'" and "abs_session s' = abs_session s"
    using ok rows by (auto simp: session_ok_def holds_lock_def rows_ok_def s'_def abs_session_def)
  then show ?thesis by simp
next
  case True
  then have "nextStreaming z pf (r, sConn s) = (res, (r', c'))" using run by (simp add: Rows_Next_def)
  then show ?thesis
  proof (cases rule: nextStreaming_cases)
    case stay
    have t: "tx_frame (sConn s) c'" using stay by (simp add: frame_tx)
    have "inTx c' = inTx (sConn s)" using stay by (simp add: conn_frame_def)
    with session_ok_frame [OF ok t, of s'] rows stay frame_fields [OF t] show ?thesis by (auto simp: s'_def)
  next
    case (finished c1 e)
    note fs = finish_step [OF ok rows finished(2) finished(3) HOL.refl]
    with ok show ?thesis by (auto simp: s'_def abs_session_def session_ok_def)
  qed
qed

lemma rows_close_step:
  assumes ok: "session_ok s" and rows: "sRows s = Some r"
    and run: "Rows_Close z (r, sConn s) = (res, (r', c'))" and "res \<noteq> Panic"
  defines "s' \<equiv> s\<lparr>sConn := c', sRows := Some r'\<rparr>"
  shows "session_ok s' \<and> allowed RowsCloseR (abs_session s) (abs_session s')"
  using run
proof (cases rule: Rows_Close_cases)
  case closed
  then have "s' = s" using rows by (simp add: s'_def)
  moreover have "\<not> locked (sConn s)" using ok rows closed by (auto simp: session_ok_def holds_lock_def rows_ok_def)
  ultimately show ?thesis using ok by simp
next
  case panic
  with assms(4) show ?thesis by simp
next
  case (finished c1)
  have "rRelease (r\<lparr>rClosed := True, rValues := []\<rparr>) = rRelease r" by simp
  note fs = finish_step [OF ok rows finished(3) finished(4) this]
  with ok show ?thesis by (auto simp: s'_def abs_session_def session_ok_def)
qed

subsubsection \<open>Transactions and the end\<close>

lemma reset_outcome:
  assumes "ResetSession z ctx c = (r, d)" and "IsValid c" and "r \<noteq> Panic"
  shows "bad d \<or> \<not> inTx d"
proof -
  have keep: "inTx d' = inTx c'" if "on_error markSessionResetError (configureSessionTimeZone z ctx) c' = (r', d')" for c' d' r'
    using withinD [OF reset_error_within [OF configure_within] that] by (simp add: conn_frame_def)
  have check: "checkUsableLocked c = (Ok (), c)" using assms(2) by (simp add: checkUsableLocked_def IsValid_def)
  show ?thesis
  proof (cases "inTx c")
    case False
    with assms(1) check keep [of c r d] show ?thesis by (simp add: ResetSession_def)
  next
    case True
    obtain r1 c1 where e: "execLocked z ctx ''rollback'' c = (r1, c1)" by fastforce
    show ?thesis
    proof (cases r1)
      case (Ok x)
      with e have "on_error markSessionResetError (execLocked z ctx ''rollback'') c = (Ok x, c1)" by (simp add: on_error_Ok)
      with assms(1) check True have "on_error markSessionResetError (configureSessionTimeZone z ctx) (c1\<lparr>inTx := False\<rparr>) = (r, d)"
        by (simp add: ResetSession_def)
      from keep [OF this] show ?thesis by simp
    next
      case (Err er)
      then have "\<exists>e'. on_error markSessionResetError (execLocked z ctx ''rollback'') c = (Err e', c1\<lparr>bad := True\<rparr>)"
        using e by (auto simp: on_error_def markSessionResetError_def Let_def)
      then obtain e' where "on_error markSessionResetError (execLocked z ctx ''rollback'') c = (Err e', c1\<lparr>bad := True\<rparr>)" ..
      with assms(1) check True have "d = c1\<lparr>bad := True\<rparr>" by (simp add: ResetSession_def)
      then show ?thesis by simp
    next
      case Panic
      then have "on_error markSessionResetError (execLocked z ctx ''rollback'') c = (Panic, c1)" using e by (simp add: on_error_def)
      with assms(1,3) check True show ?thesis by (simp add: ResetSession_def)
    qed
  qed
qed

text \<open>A reset never starts a transaction.\<close>

definition ends_tx :: "conn \<Rightarrow> conn \<Rightarrow> bool" where
  "ends_tx c d \<longleftrightarrow> (inTx d \<longrightarrow> inTx c)"

interpretation et: state_frame ends_tx
  by unfold_locales (auto simp: ends_tx_def)

lemma within_ends: "within (conn_frame exchange) m \<Longrightarrow> within ends_tx m"
  by (auto simp: within_def ends_tx_def conn_frame_def)

lemma ResetSession_ends: "within ends_tx (ResetSession z ctx)"
  unfolding ResetSession_def
  by (intro et.within_bind within_if_state et.within_const within_ends [OF xc.checkUsable_within]
      within_ends [OF reset_error_within [OF execLocked_within]] within_ends [OF reset_error_within [OF configure_within]])
    (simp add: within_def ends_tx_def)

lemma reset_inTx: "ResetSession z ctx c = (r, d) \<Longrightarrow> inTx d \<Longrightarrow> inTx c"
  using withinD [OF ResetSession_ends] by (simp add: ends_tx_def)

lemma on_packets_only: "on_packets m c = (r, d) \<Longrightarrow> \<exists>p. d = c\<lparr>packets := p\<rparr>"
proof -
  assume run: "on_packets m c = (r, d)"
  show "\<exists>p. d = c\<lparr>packets := p\<rparr>"
  proof (cases "packets c")
    case None
    with run show ?thesis by (intro exI [of _ "packets c"]) (simp add: on_packets_def)
  next
    case (Some p)
    with run show ?thesis by (auto simp: on_packets_def split: prod.splits)
  qed
qed

lemma Conn_Close_outcome:
  assumes "Conn_Close z c = (r, d)" and "r \<noteq> Panic" and "closed c \<longleftrightarrow> netConn c = None" and "closed c \<longleftrightarrow> packets c = None"
  shows "d = c\<lparr>closed := True, netConn := None, packets := None\<rparr>"
proof (cases "closed c")
  case True
  with assms have "d = c" and "netConn c = None" and "packets c = None" by (simp_all add: Conn_Close_def)
  with True show ?thesis by simp
next
  case False
  then obtain n where n: "netConn c = Some n" using assms(3) by auto
  obtain r1 c1 where run: "bind_st new_command (\<lambda>_. conn_write z [ComQuit]) (c\<lparr>closed := True\<rparr>) = (r1, c1)" by fastforce
  obtain r2 c2 where new: "new_command (c\<lparr>closed := True\<rparr>) = (r2, c2)" by fastforce
  then obtain p where c2: "c2 = c\<lparr>closed := True, packets := p\<rparr>"
    using on_packets_only unfolding new_command_def by fastforce
  have "\<exists>p. c1 = c\<lparr>closed := True, packets := p\<rparr>"
  proof (cases r2)
    case (Ok u)
    with run new have "conn_write z [ComQuit] c2 = (r1, c1)" by simp
    then obtain p' where "c1 = c2\<lparr>packets := p'\<rparr>" using on_packets_only unfolding conn_write_def by blast
    with c2 show ?thesis by auto
  qed (use run new c2 in auto)
  then obtain p' where "c1 = c\<lparr>closed := True, packets := p'\<rparr>" ..
  moreover have "d = c1\<lparr>netConn := None, packets := None\<rparr>"
    using assms(1,2) False n run by (auto simp: Conn_Close_def Let_def split: res.splits)
  ultimately show ?thesis by simp
qed

subsubsection \<open>Every step\<close>

lemma end_tx_step:
  assumes "session_ok s" and "\<not> locked (sConn s)" and "tx_frame (sConn s) d" and "inTx d \<longrightarrow> inTx (sConn s)"
    and "\<not> IsValid (sConn s) \<longrightarrow> d = sConn s" and "sConn s' = d" and "sRows s' = sRows s"
  shows "session_ok s' \<and> sp_end_tx (abs_session s) (abs_session s')"
proof -
  have ok: "session_ok s'" and ph: "spPhase (abs_session s') = spPhase (abs_session s)"
    by (rule session_ok_frame [OF assms(1,3,7,6)])+
  have "abs_session s' = abs_session s" if "\<not> IsValid (sConn s)" using that assms(5,6) by (simp add: abs_session_def)
  with ok ph assms show ?thesis by (auto simp: sp_end_tx_def usable_abs)
qed

lemma close_step:
  assumes ok: "session_ok s" and "\<not> locked (sConn s)" and run: "on_conn (Conn_Close z) s = (r, s')" and "r \<noteq> Panic"
  shows "session_ok s' \<and> allowed CloseR (abs_session s) (abs_session s')"
proof -
  obtain r1 d where m: "Conn_Close z (sConn s) = (r1, d)" by fastforce
  with run assms(4) have s': "s' = s\<lparr>sConn := d\<rparr>" and "r1 \<noteq> Panic" by (auto simp: on_conn_def)
  with Conn_Close_outcome [OF m] ok have "d = (sConn s)\<lparr>closed := True, netConn := None, packets := None\<rparr>"
    unfolding session_ok_def by blast
  with s' ok assms(2) show ?thesis by (auto simp: session_ok_def holds_lock_def abs_session_def)
qed

lemma step_allowed:
  assumes "step E s q s'" and ok: "session_ok s"
  shows "session_ok s' \<and> allowed q (abs_session s) (abs_session s')"
proof -
  from assms(1) obtain r where en: "enabled q s" and run: "run E q s = (r, s')" and np: "r \<noteq> Panic"
    by (auto elim: stepE)
  show ?thesis
  proof (cases q)
    case (PrepareR ctx query)
    obtain r1 d where m: "PrepareContext (eZlib E) ctx query (sConn s) = (r1, d)" by fastforce
    with run PrepareR have "s' = s\<lparr>sConn := d\<rparr>" by (simp add: on_conn_def)
    with frame_command [OF ok withinD [OF PrepareContext_within m]] PrepareR show ?thesis by simp
  next
    case (QueryR ctx query args)
    with query_step [OF ok _ QueryContext_outcome guarded_calls(3)] run en show ?thesis by simp
  next
    case (StmtQueryR st ctx args)
    with query_step [OF ok _ Stmt_QueryContext_outcome guarded_calls(5)] run en show ?thesis by simp
  next
    case (StmtCloseR st)
    show ?thesis
    proof (cases "stClosed st")
      case True
      with StmtCloseR run en ok show ?thesis
        by (auto simp: Stmt_Close_def sp_command_def sp_retiring_def)
    next
      case False
      obtain r1 d where m: "closeStmt (eZlib E) (stID st) (sConn s) = (r1, d)" by fastforce
      with False run StmtCloseR have "on_conn (closeStmt (eZlib E) (stID st)) s = (void r1, s')"
        by (simp add: Stmt_Close_def on_conn_def)
      with command_step [OF ok _ closeStmt_within guarded_calls(9)] StmtCloseR en show ?thesis by simp
    qed
  next
    case (ResetR ctx)
    obtain r1 d where m: "ResetSession (eZlib E) ctx (sConn s) = (r1, d)" by fastforce
    with run np ResetR have s': "s' = s\<lparr>sConn := d\<rparr>" and "r1 \<noteq> Panic" by (auto simp: on_conn_def)
    have "\<not> IsValid (sConn s) \<longrightarrow> d = sConn s" using guardedD [OF guarded_calls(8) _ m] by blast
    with end_tx_step [OF ok _ withinD [OF ResetSession_within m], of s'] reset_inTx [OF m] s' en ResetR
      reset_outcome [OF m _ \<open>r1 \<noteq> Panic\<close>]
    show ?thesis by (simp add: usable_abs)
  next
    case (BeginR isolation readOnly)
    with run en ok show ?thesis
      by (auto simp: BeginTx_def session_ok_def holds_lock_def abs_session_def split: if_splits)
  next
    case (FinishR ctx query)
    with en obtain t where t: "sTx s = Some t" by auto
    obtain r1 t' d where m: "Tx_finish (eZlib E) ctx query (t, sConn s) = (r1, (t', d))" by (metis surj_pair)
    with run FinishR t have s': "s' = s\<lparr>sConn := d, sTx := Some t'\<rparr>" by simp
    have "\<not> IsValid (sConn s) \<longrightarrow> d = sConn s" and "inTx d \<longrightarrow> inTx (sConn s)"
      using m by (cases rule: Tx_finish_cases; simp add: IsValid_def conn_frame_def)+
    with end_tx_step [OF ok _ Tx_finish_frame [OF m], of s'] s' en FinishR show ?thesis by simp
  next
    case NextR
    with en obtain rs where rs: "sRows s = Some rs" by auto
    obtain res r' c' where m: "Rows_Next (eZlib E) (eParse E) (rs, sConn s) = (res, (r', c'))" by (metis surj_pair)
    with run NextR rs have "s' = s\<lparr>sConn := c', sRows := Some r'\<rparr>" by (simp add: on_rows_def)
    with next_step [OF ok rs m] NextR show ?thesis by (simp only:)
  next
    case RowsCloseR
    with en obtain rs where rs: "sRows s = Some rs" by auto
    obtain res r' c' where m: "Rows_Close (eZlib E) (rs, sConn s) = (res, (r', c'))" by (metis surj_pair)
    with run np RowsCloseR rs have "s' = s\<lparr>sConn := c', sRows := Some r'\<rparr>" and "res \<noteq> Panic" by (auto simp: on_rows_def)
    with rows_close_step [OF ok rs m \<open>res \<noteq> Panic\<close>] RowsCloseR show ?thesis by (simp only:)
  next
    case CloseR
    with close_step [OF ok _ _ np] run en show ?thesis by simp
  qed (use run en command_step [OF ok _ Ping_within guarded_calls(1)] command_step [OF ok _ ExecContext_within guarded_calls(2)]
      command_step [OF ok _ Stmt_ExecContext_within guarded_calls(4)] command_step [OF ok _ BulkExecContext_within guarded_calls(6)]
      command_step [OF ok _ Stmt_Reset_within guarded_calls(7)] in simp_all)
qed

subsection \<open>What a connection keeps for life\<close>

definition kept :: "conn \<Rightarrow> conn \<Rightarrow> bool" where
  "kept c d \<longleftrightarrow>
     cfg d = cfg c \<and> tenantMode d = tenantMode c \<and> deprecateEOF d = deprecateEOF c \<and> sessionTrack d = sessionTrack c \<and>
     (bad c \<longrightarrow> bad d) \<and> (closed c \<longrightarrow> closed d) \<and> (packets d = None \<or> rel_option same_mode (packets c) (packets d))"

lemma same_mode_trans: "same_mode p q \<Longrightarrow> same_mode q r \<Longrightarrow> same_mode p r"
  by (simp add: same_mode_def)

interpretation kp: state_frame kept
proof
  show "kept s s" for s by (cases "packets s") (simp_all add: kept_def same_mode_def)
  have "c = None \<or> rel_option same_mode a c"
    if "b = None \<or> rel_option same_mode a b" and "c = None \<or> rel_option same_mode b c" for a b c
    using that by (cases a; cases b; cases c) (auto intro: same_mode_trans)
  then show "kept s u" if "kept s t" and "kept t u" for s t u
    using that unfolding kept_def by metis
qed

lemma tx_frame_kept: "tx_frame c d \<Longrightarrow> kept c d"
proof -
  assume f: "tx_frame c d"
  then have "rel_option exchange (packets c) (packets d)" by (simp add: tx_frame_def conn_frame_def)
  then have "rel_option same_mode (packets c) (packets d)"
    by (rule option.rel_mono_strong) (simp add: exchange_def)
  with f show ?thesis by (simp add: tx_frame_def conn_frame_def kept_def)
qed

lemma kept_lock [simp]: "kept c (d\<lparr>locked := b\<rparr>) \<longleftrightarrow> kept c d"
  by (simp add: kept_def)

lemma frame_kept: "conn_frame exchange c d \<Longrightarrow> kept c d"
  by (rule tx_frame_kept, rule frame_tx)

lemma on_conn_kept: "within (conn_frame exchange) m \<Longrightarrow> on_conn m s = (r, s') \<Longrightarrow> kept (sConn s) (sConn s')"
  by (auto simp: on_conn_def split: prod.splits intro!: frame_kept elim: withinD)

lemma query_kept:
  assumes "\<And>res d. m (sConn s) = (res, d) \<Longrightarrow> query_outcome (sConn s) res d" and "opening_rows m s = (r, s')"
  shows "kept (sConn s) (sConn s')"
proof -
  obtain res d where m: "m (sConn s) = (res, d)" by fastforce
  with assms(2) have "sConn s' = d" by (cases res) (auto simp: opening_rows_def)
  moreover have "kept (sConn s) d"
    using assms(1) [OF m] by (cases res) (auto simp: query_outcome_def intro: frame_kept split: if_splits)
  ultimately show ?thesis by simp
qed

lemma finish_kept: "conn_frame exchange c c1 \<Longrightarrow> (r', c') = rows_finish (r, c1) \<Longrightarrow> kept c c'"
  by (auto dest: frame_kept split: if_splits)

lemma step_kept:
  assumes "step E s q s'" and ok: "session_ok s"
  shows "kept (sConn s) (sConn s')"
proof -
  from assms(1) obtain r where en: "enabled q s" and run: "run E q s = (r, s')" and np: "r \<noteq> Panic"
    by (auto elim: stepE)
  show ?thesis
  proof (cases q)
    case (PrepareR ctx query)
    with run on_conn_kept [OF PrepareContext_within] show ?thesis by simp
  next
    case (QueryR ctx query args)
    with run query_kept [OF QueryContext_outcome] show ?thesis by simp
  next
    case (StmtQueryR st ctx args)
    with run query_kept [OF Stmt_QueryContext_outcome] show ?thesis by simp
  next
    case (StmtCloseR st)
    with run withinD [OF closeStmt_within] show ?thesis
      by (auto simp: Stmt_Close_def split: if_splits prod.splits intro: frame_kept)
  next
    case (ResetR ctx)
    with run show ?thesis
      by (auto simp: on_conn_def split: prod.splits intro!: tx_frame_kept elim: withinD [OF ResetSession_within])
  next
    case (BeginR isolation readOnly)
    with run show ?thesis
      by (auto split: prod.splits res.splits intro!: tx_frame_kept elim: withinD [OF BeginTx_within])
  next
    case (FinishR ctx query)
    with en obtain t where t: "sTx s = Some t" by auto
    obtain r1 t' d where m: "Tx_finish (eZlib E) ctx query (t, sConn s) = (r1, (t', d))" by (metis surj_pair)
    with run FinishR t have "sConn s' = d" by auto
    with tx_frame_kept [OF Tx_finish_frame [OF m]] show ?thesis by simp
  next
    case NextR
    with en obtain rs where rs: "sRows s = Some rs" by auto
    obtain res r' c' where m: "Rows_Next (eZlib E) (eParse E) (rs, sConn s) = (res, (r', c'))" by (metis surj_pair)
    with run NextR rs have "sConn s' = c'" by (auto simp: on_rows_def)
    moreover have "kept (sConn s) c'"
    proof (cases "rStreaming rs")
      case True
      then have "nextStreaming (eZlib E) (eParse E) (rs, sConn s) = (res, (r', c'))" using m by (simp add: Rows_Next_def)
      then show ?thesis by (cases rule: nextStreaming_cases) (auto intro: frame_kept finish_kept)
    qed (use m in \<open>auto simp: Rows_Next_def split: if_splits\<close>)
    ultimately show ?thesis by simp
  next
    case RowsCloseR
    with en obtain rs where rs: "sRows s = Some rs" by auto
    obtain res r' c' where m: "Rows_Close (eZlib E) (rs, sConn s) = (res, (r', c'))" by (metis surj_pair)
    with run RowsCloseR rs have "sConn s' = c'" by (auto simp: on_rows_def)
    moreover have "kept (sConn s) c'" using m by (cases rule: Rows_Close_cases) (auto intro: frame_kept finish_kept)
    ultimately show ?thesis by simp
  next
    case CloseR
    obtain r1 d where m: "Conn_Close (eZlib E) (sConn s) = (r1, d)" by fastforce
    with run np CloseR have "sConn s' = d" and "r1 \<noteq> Panic" by (auto simp: on_conn_def)
    with Conn_Close_outcome [OF m] ok have "sConn s' = (sConn s)\<lparr>closed := True, netConn := None, packets := None\<rparr>"
      unfolding session_ok_def by blast
    then show ?thesis by (simp add: kept_def)
  qed (use run on_conn_kept [OF Ping_within] on_conn_kept [OF ExecContext_within] on_conn_kept [OF Stmt_ExecContext_within]
      on_conn_kept [OF BulkExecContext_within] on_conn_kept [OF Stmt_Reset_within] in simp_all)
qed

lemma reachable_invariant:
  assumes "reachable E s0 s" and "session_ok s0"
  shows "session_ok s \<and> kept (sConn s0) (sConn s)"
  using assms
proof (induction rule: reachable.induct)
  case start
  then show ?case by simp
next
  case (later s q s')
  then show ?case using step_allowed step_kept kp.trans by blast
qed

end
