(* ===== verification/Auth.thy ===== *)
theory Auth
  imports OB_Prelude
begin

text \<open>
  \<open>internal/protocol/auth.go\<close>: the two password authentication methods, over the hash functions of
  \<open>crypto/sha1\<close> and \<open>crypto/sha256\<close>, which are defined here as their standard (FIPS 180-4) gives them.
  The server keeps the double hash of the password; the lemmas show that the token the client
  computes is the one the server accepts.
\<close>

subsection \<open>Blocks\<close>

text \<open>Big-endian words, the padded message and its blocks of sixteen words.\<close>

definition be_word :: "bytes \<Rightarrow> u32" where
  "be_word bs = le_word (rev bs)"

definition be_bytes :: "nat \<Rightarrow> 'a::len word \<Rightarrow> bytes" where
  "be_bytes n w = rev (le_bytes n w)"

lemma length_be_bytes [simp]: "length (be_bytes n w) = n"
  by (simp add: be_bytes_def)

definition sha_pad :: "bytes \<Rightarrow> bytes" where
  "sha_pad msg =
     msg @ [0x80] @ replicate ((119 - length msg mod 64) mod 64) 0 @ be_bytes 8 (word_of_nat (8 * length msg) :: u64)"

fun chunks :: "nat \<Rightarrow> 'a list \<Rightarrow> 'a list list" where
  "chunks n xs = (if n = 0 \<or> xs = [] then [] else take n xs # chunks n (drop n xs))"

declare chunks.simps [simp del]

definition sha_blocks :: "bytes \<Rightarrow> u32 list list" where
  "sha_blocks msg = map (\<lambda>b. map be_word (chunks 4 b)) (chunks 64 (sha_pad msg))"

definition sha_output :: "u32 list \<Rightarrow> bytes" where
  "sha_output ws = concat (map (be_bytes 4) ws)"

subsection \<open>SHA-1\<close>

text \<open>The message schedule, latest word first.\<close>

fun sha1_expand :: "nat \<Rightarrow> u32 list \<Rightarrow> u32 list" where
  "sha1_expand 0 ws = ws"
| "sha1_expand (Suc n) ws =
     sha1_expand n (word_rotl 1 (ws ! 2 XOR ws ! 7 XOR ws ! 13 XOR ws ! 15) # ws)"

definition sha1_f :: "nat \<Rightarrow> u32 \<Rightarrow> u32 \<Rightarrow> u32 \<Rightarrow> u32 \<times> u32" where
  "sha1_f t b c d =
     (if t < 20 then ((b AND c) OR (NOT b AND d), 0x5a827999)
      else if t < 40 then (b XOR c XOR d, 0x6ed9eba1)
      else if t < 60 then ((b AND c) OR (b AND d) OR (c AND d), 0x8f1bbcdc)
      else (b XOR c XOR d, 0xca62c1d6))"

fun sha1_rounds :: "nat \<Rightarrow> u32 list \<Rightarrow> u32 \<times> u32 \<times> u32 \<times> u32 \<times> u32 \<Rightarrow> u32 \<times> u32 \<times> u32 \<times> u32 \<times> u32" where
  "sha1_rounds t [] s = s"
| "sha1_rounds t (w # ws) (a, b, c, d, e) =
     (case sha1_f t b c d of (f, k) \<Rightarrow>
        sha1_rounds (t + 1) ws (word_rotl 5 a + f + e + k + w, a, word_rotl 30 b, c, d))"

fun sha1_block :: "u32 list \<Rightarrow> u32 \<times> u32 \<times> u32 \<times> u32 \<times> u32 \<Rightarrow> u32 \<times> u32 \<times> u32 \<times> u32 \<times> u32" where
  "sha1_block block (h0, h1, h2, h3, h4) =
     (case sha1_rounds 0 (rev (sha1_expand 64 (rev block))) (h0, h1, h2, h3, h4) of
        (a, b, c, d, e) \<Rightarrow> (h0 + a, h1 + b, h2 + c, h3 + d, h4 + e))"

definition sha1 :: "bytes \<Rightarrow> bytes" where
  "sha1 msg =
     (case fold sha1_block (sha_blocks msg) (0x67452301, 0xefcdab89, 0x98badcfe, 0x10325476, 0xc3d2e1f0) of
        (a, b, c, d, e) \<Rightarrow> sha_output [a, b, c, d, e])"

subsection \<open>SHA-256\<close>

text \<open>
  The constants, as the standard defines them: the first 32 bits of the fractional parts of the cube
  roots of the first 64 primes and, for the initial state, of the square roots of the first eight.
  \<open>root_bits n k p\<close> finds the integer \<open>k\<close>-th root of \<open>p\<close> bit by bit, from bit \<open>n\<close> down.
\<close>

definition first_primes :: "int list" where
  "first_primes = filter (\<lambda>p. list_all (\<lambda>d. p mod d \<noteq> 0) [2..p - 1]) [2..311]"

fun root_bits :: "nat \<Rightarrow> nat \<Rightarrow> int \<Rightarrow> int \<Rightarrow> int" where
  "root_bits 0 k p r = r"
| "root_bits (Suc n) k p r = root_bits n k p (if (r + 2 ^ n) ^ k \<le> p then r + 2 ^ n else r)"

definition root_fraction :: "nat \<Rightarrow> int \<Rightarrow> u32" where
  "root_fraction k p = word_of_int (root_bits 40 k (p * 2 ^ (32 * k)) 0)"

definition sha256_k :: "u32 list" where
  "sha256_k = map (root_fraction 3) first_primes"

fun sha256_expand :: "nat \<Rightarrow> u32 list \<Rightarrow> u32 list" where
  "sha256_expand 0 ws = ws"
| "sha256_expand (Suc n) ws =
     (let s0 = word_rotr 7 (ws ! 14) XOR word_rotr 18 (ws ! 14) XOR drop_bit 3 (ws ! 14);
          s1 = word_rotr 17 (ws ! 1) XOR word_rotr 19 (ws ! 1) XOR drop_bit 10 (ws ! 1)
      in sha256_expand n ((ws ! 15 + s0 + ws ! 6 + s1) # ws))"

type_synonym sha256_state = "u32 \<times> u32 \<times> u32 \<times> u32 \<times> u32 \<times> u32 \<times> u32 \<times> u32"

fun sha256_rounds :: "(u32 \<times> u32) list \<Rightarrow> sha256_state \<Rightarrow> sha256_state" where
  "sha256_rounds [] s = s"
| "sha256_rounds ((k, w) # kws) (a, b, c, d, e, f, g, h) =
     (let s1 = word_rotr 6 e XOR word_rotr 11 e XOR word_rotr 25 e;
          ch = (e AND f) XOR (NOT e AND g);
          temp1 = h + s1 + ch + k + w;
          s0 = word_rotr 2 a XOR word_rotr 13 a XOR word_rotr 22 a;
          maj = (a AND b) XOR (a AND c) XOR (b AND c)
      in sha256_rounds kws (temp1 + s0 + maj, a, b, c, d + temp1, e, f, g))"

fun sha256_block :: "u32 list \<Rightarrow> sha256_state \<Rightarrow> sha256_state" where
  "sha256_block block (h0, h1, h2, h3, h4, h5, h6, h7) =
     (case sha256_rounds (zip sha256_k (rev (sha256_expand 48 (rev block)))) (h0, h1, h2, h3, h4, h5, h6, h7) of
        (a, b, c, d, e, f, g, h) \<Rightarrow>
          (h0 + a, h1 + b, h2 + c, h3 + d, h4 + e, h5 + f, h6 + g, h7 + h))"

definition sha256_init :: sha256_state where
  "sha256_init =
     (let h = map (root_fraction 2) (take 8 first_primes)
      in (h ! 0, h ! 1, h ! 2, h ! 3, h ! 4, h ! 5, h ! 6, h ! 7))"

definition sha256 :: "bytes \<Rightarrow> bytes" where
  "sha256 msg =
     (case fold sha256_block (sha_blocks msg) sha256_init of
        (a, b, c, d, e, f, g, h) \<Rightarrow> sha_output [a, b, c, d, e, f, g, h])"

subsection \<open>Tokens\<close>

definition NativePasswordAuth :: "string \<Rightarrow> bytes \<Rightarrow> bytes" where
  "NativePasswordAuth password seed =
     (if password = [] then []
      else
        let hash1 = sha1 (bytes_of password); hash2 = sha1 hash1; hash3 = sha1 (seed @ hash2)
        in map (\<lambda>i. hash1 ! i XOR hash3 ! i) [0..<length hash1])"

definition CachingSha2PasswordAuth :: "string \<Rightarrow> bytes \<Rightarrow> bytes" where
  "CachingSha2PasswordAuth password seed =
     (if password = [] then []
      else
        let h1 = sha256 (bytes_of password); h2 = sha256 h1; h3 = sha256 (h2 @ seed)
        in map (\<lambda>i. h1 ! i XOR h3 ! i) [0..<length h1])"

subsection \<open>Lengths\<close>

lemma length_sha_output: "length (sha_output ws) = 4 * length ws"
  by (induction ws) (simp_all add: sha_output_def)

lemma length_sha1 [simp]: "length (sha1 msg) = 20"
  by (simp add: sha1_def length_sha_output split: prod.splits)

lemma length_sha256 [simp]: "length (sha256 msg) = 32"
  by (simp add: sha256_def length_sha_output split: prod.splits)

subsection \<open>The server's check\<close>

text \<open>
  A method with a hash of fixed length and a challenge derived from the seed and the double hash:
  the token is the hash of the password masked with the challenge; the server, which has the double
  hash, removes the mask and hashes once more.
\<close>

definition xor_bytes :: "bytes \<Rightarrow> bytes \<Rightarrow> bytes" where
  "xor_bytes a b = map2 (XOR) a b"

lemma xor_bytes_cancel: "length a = length b \<Longrightarrow> xor_bytes (xor_bytes a b) b = a"
  by (induction a b rule: list_induct2) (simp_all add: xor_bytes_def xor.assoc)

lemma length_xor_bytes [simp]: "length (xor_bytes a b) = min (length a) (length b)"
  by (simp add: xor_bytes_def)

locale masked_hash =
  fixes hash :: "bytes \<Rightarrow> bytes" and size_of_hash :: nat
    and challenge :: "bytes \<Rightarrow> bytes \<Rightarrow> bytes"
  assumes hash_length: "length (hash b) = size_of_hash"
    and challenge_length: "length (challenge seed stored) = size_of_hash"
begin

definition accepts :: "bytes \<Rightarrow> bytes \<Rightarrow> bytes \<Rightarrow> bool" where
  "accepts stored seed token \<longleftrightarrow> hash (xor_bytes token (challenge seed stored)) = stored"

definition token :: "bytes \<Rightarrow> bytes \<Rightarrow> bytes" where
  "token password seed = xor_bytes (hash password) (challenge seed (hash (hash password)))"

lemma token_unmasked: "xor_bytes (token password seed) (challenge seed (hash (hash password))) = hash password"
  by (simp add: token_def xor_bytes_cancel hash_length challenge_length)

lemma token_accepted: "accepts (hash (hash password)) seed (token password seed)"
  by (simp add: accepts_def token_unmasked)

end

interpretation native: masked_hash sha1 20 "\<lambda>seed stored. sha1 (seed @ stored)"
  by unfold_locales simp_all

interpretation caching: masked_hash sha256 32 "\<lambda>seed stored. sha256 (stored @ seed)"
  by unfold_locales simp_all

lemma map_upt_xor: "length a = n \<Longrightarrow> length b = n \<Longrightarrow> map (\<lambda>i. a ! i XOR b ! i) [0..<n] = xor_bytes a b"
  by (rule nth_equalityI) (simp_all add: xor_bytes_def)

lemma NativePasswordAuth_token:
  "password \<noteq> [] \<Longrightarrow> NativePasswordAuth password seed = native.token (bytes_of password) seed"
  by (simp add: NativePasswordAuth_def Let_def native.token_def map_upt_xor)

lemma CachingSha2PasswordAuth_token:
  "password \<noteq> [] \<Longrightarrow> CachingSha2PasswordAuth password seed = caching.token (bytes_of password) seed"
  by (simp add: CachingSha2PasswordAuth_def Let_def caching.token_def map_upt_xor)

end
