(* ===== verification/Handshake.thy ===== *)
theory Handshake
  imports Auth Conn "HOL-Library.Char_ord" "HOL-Library.List_Lexorder"
begin

text \<open>
  The packets of the handshake: \<open>parseHandshake\<close>, \<open>buildHandshakeResponse\<close> and the rest of the pure
  part of \<open>conn_handshake.go\<close>, with \<open>preset.go\<close> and \<open>capabilities.go\<close>.

  A slice expression in Go is checked against the capacity of the slice, not its length, and
  \<open>parseHandshake\<close> takes some slices without checking the length first.  The bytes between length
  and capacity, which depend on the allocator, are the parameter \<open>spare\<close>.
\<close>

subsection \<open>The server's greeting\<close>

record handshake =
  serverVersion :: string
  hsConnectionID :: u32
  capabilities :: u32
  authPlugin :: string
  authSeed :: bytes
  status :: u16

fun readNullTerminated :: "bytes \<Rightarrow> (string \<times> nat) res" where
  "readNullTerminated [] = Err UnexpectedEOF"
| "readNullTerminated (b # src) =
     (if b = 0 then Ok ([], 1)
      else bind_res (readNullTerminated src) (\<lambda>(s, used). Ok (string_of [b] @ s, used + 1)))"

text \<open>The slice expression \<open>packet[lo:hi]\<close> on a slice with spare capacity.\<close>

definition cap_slice :: "bytes \<Rightarrow> nat \<Rightarrow> nat \<Rightarrow> bytes \<Rightarrow> bytes res" where
  "cap_slice spare lo hi packet =
     (if hi \<le> length packet + length spare then Ok (subslice lo hi (packet @ spare)) else Panic)"

definition TrimRightNul :: "bytes \<Rightarrow> bytes" where
  "TrimRightNul bs = rev (dropWhile (\<lambda>b. b = 0) (rev bs))"

text \<open>The seed's second part, from position \<open>pos\<close>, and the position behind it.\<close>

definition seed2_len :: "nat \<Rightarrow> nat \<Rightarrow> nat \<Rightarrow> int" where
  "seed2_len authPluginDataLen pos len =
     (let seed2Len = (if 0 < authPluginDataLen then max (int authPluginDataLen - 8) 12 else 12)
      in if int len < int pos + seed2Len then int len - int pos else seed2Len)"

definition parseHandshake :: "bytes \<Rightarrow> bytes \<Rightarrow> handshake res" where
  "parseHandshake spare packet =
     (if length packet < 34 then Err UnexpectedEOF
      else if packet ! 0 \<noteq> 10 then Err (Errorf ''unsupported protocol version %d'' [AInt (uint (packet ! 0))])
      else
        bind_res (readNullTerminated (drop 1 packet)) (\<lambda>(version, used).
          let pos = 1 + used
          in if length packet < pos + 13 then Err UnexpectedEOF
             else
               let connID = le_word (subslice pos (pos + 4) packet);
                   seed1 = subslice (pos + 4) (pos + 12) packet;
                   pos = pos + 13
               in bind_res (cap_slice spare pos (pos + 2) packet) (\<lambda>low.
                  let hs = \<lparr>serverVersion = version, hsConnectionID = connID, capabilities = le_word low,
                            authPlugin = [], authSeed = seed1, status = 0\<rparr>;
                      pos = pos + 2
                  in if length packet \<le> pos then Ok hs
                     else
                       bind_res (cap_slice spare (pos + 1) (pos + 3) packet) (\<lambda>st.
                       bind_res (cap_slice spare (pos + 3) (pos + 5) packet) (\<lambda>high.
                         let caps = capabilities hs OR push_bit 16 (le_word high :: u32);
                             pos = pos + 5
                         in if caps AND ClientPluginAuth \<noteq> 0 \<and> length packet \<le> pos then Panic
                            else
                              let authPluginDataLen = (if caps AND ClientPluginAuth \<noteq> 0 then unat (packet ! pos) else 0);
                                  pos = pos + 11;
                                  seed2Len = seed2_len authPluginDataLen pos (length packet);
                                  seed = (if 0 < seed2Len
                                          then seed1 @ TrimRightNul (subslice pos (pos + nat seed2Len) packet) else seed1);
                                  pos = (if 0 < seed2Len then pos + nat seed2Len else pos);
                                  plugin = (if caps AND ClientPluginAuth \<noteq> 0 \<and> pos < length packet
                                            then (case readNullTerminated (drop pos packet) of Ok (p, _) \<Rightarrow> p | _ \<Rightarrow> [])
                                            else [])
                              in Ok (hs\<lparr>capabilities := caps, status := le_word st, authSeed := seed, authPlugin := plugin\<rparr>))))))"

definition tenantModeFromHandshake :: "u16 \<Rightarrow> config option \<Rightarrow> string" where
  "tenantModeFromHandshake st conf =
     (let from_status = (if st AND ServerOracleMode \<noteq> 0 then ''oracle'' else ''mysql'')
      in case conf of
           None \<Rightarrow> from_status
         | Some c \<Rightarrow>
             let mode = ToLower (TrimSpace (OracleMode c))
             in if mode = ''true'' \<or> mode = ''oracle'' then ''oracle''
                else if mode = ''false'' \<or> mode = ''mysql'' then ''mysql''
                else if EqualFold (Preset c) ''oboracle'' then ''oracle''
                else from_status)"

subsection \<open>Presets\<close>

definition obClientCapOBProtocolV2 :: u64 where "obClientCapOBProtocolV2 = push_bit 8 1"
definition obClientCapFullLinkTrace :: u64 where "obClientCapFullLinkTrace = push_bit 14 1"
definition obClientCapProxyNewExtraInfo :: u64 where "obClientCapProxyNewExtraInfo = push_bit 15 1"
definition obClientCapProxyFullLinkTraceShowTrace :: u64 where
  "obClientCapProxyFullLinkTraceShowTrace = push_bit 18 1"
definition obClientCapOBLOBLocatorV2 :: u64 where "obClientCapOBLOBLocatorV2 = push_bit 0 1"
definition obClientCapSupportJDBCBinaryDouble :: u64 where "obClientCapSupportJDBCBinaryDouble = push_bit 2 1"

lemmas ob_client_caps = obClientCapOBProtocolV2_def obClientCapFullLinkTrace_def obClientCapProxyNewExtraInfo_def
  obClientCapProxyFullLinkTraceShowTrace_def obClientCapOBLOBLocatorV2_def obClientCapSupportJDBCBinaryDouble_def

definition Version :: string where "Version = ''0.4.2''"

definition presetCapabilities :: "string \<Rightarrow> u32" where
  "presetCapabilities preset =
     (if preset \<in> {''oboracle'', ''obclient'', ''libobclient'', ''connector-c''} then
        ClientMultiStatements OR ClientPSMultiResults OR ClientLocalFiles OR ClientInteractive OR
        ClientSessionTrack OR ClientSupportOracleMode
      else ClientSupportOracleMode)"

definition formatUint64 :: "u64 \<Rightarrow> string" where
  "formatUint64 v = FormatUint v"

definition obConnectorCAttributes :: "(string \<times> string) list" where
  "obConnectorCAttributes =
     (let proxyCaps = obClientCapOBProtocolV2 OR obClientCapFullLinkTrace OR obClientCapProxyNewExtraInfo OR
            obClientCapProxyFullLinkTraceShowTrace;
          attrCaps = obClientCapOBLOBLocatorV2 OR obClientCapSupportJDBCBinaryDouble
      in [(''_client_name'', ''OceanBase Connector/Go''),
          (''_client_version'', Version),
          (''__mysql_client_type'', ''__ob_go_client''),
          (''__ob_client_name'', ''OceanBase Connector/Go''),
          (''__ob_client_version'', Version),
          (''ob_capability_flag'', formatUint64 proxyCaps),
          (''__proxy_capability_flag'', formatUint64 proxyCaps),
          (''__ob_client_attribute_capability_flag'', formatUint64 attrCaps)])"

definition presetAttributes :: "string \<Rightarrow> (string \<times> string) list" where
  "presetAttributes preset =
     (if preset \<in> {''oboracle'', ''libobclient'', ''connector-c''} then obConnectorCAttributes
      else if preset = ''obclient'' then AList.update ''program_name'' ''obclient'' obConnectorCAttributes
      else if preset = ''connector-j'' then
        [(''_client_name'', ''OceanBase Connector/J''),
         (''_client_version'', ''2.4.14''),
         (''__ob_client_name'', ''OceanBase Connector/J''),
         (''__ob_client_version'', ''2.4.14''),
         (''__mysql_client_type'', ''__ob_jdbc_client''),
         (''_runtime_vendor'', ''Go''),
         (''program_name'', ''obconnector-go'')]
      else obConnectorCAttributes)"

subsection \<open>Names of capabilities\<close>

definition known_capabilities :: "(u32 \<times> string) list" where
  "known_capabilities =
     [(ClientLongPassword, ''CLIENT_LONG_PASSWORD''),
      (ClientFoundRows, ''CLIENT_FOUND_ROWS''),
      (ClientLongFlag, ''CLIENT_LONG_FLAG''),
      (ClientConnectWithDB, ''CLIENT_CONNECT_WITH_DB''),
      (ClientNoSchema, ''CLIENT_NO_SCHEMA''),
      (ClientCompress, ''CLIENT_COMPRESS''),
      (ClientODBC, ''CLIENT_ODBC''),
      (ClientLocalFiles, ''CLIENT_LOCAL_FILES''),
      (ClientIgnoreSpace, ''CLIENT_IGNORE_SPACE''),
      (ClientProtocol41, ''CLIENT_PROTOCOL_41''),
      (ClientInteractive, ''CLIENT_INTERACTIVE''),
      (ClientSSL, ''CLIENT_SSL''),
      (ClientIgnoreSigpipe, ''CLIENT_IGNORE_SIGPIPE''),
      (ClientTransactions, ''CLIENT_TRANSACTIONS''),
      (ClientReserved, ''CLIENT_RESERVED''),
      (ClientSecureConnection, ''CLIENT_SECURE_CONNECTION''),
      (ClientMultiStatements, ''CLIENT_MULTI_STATEMENTS''),
      (ClientMultiResults, ''CLIENT_MULTI_RESULTS''),
      (ClientPSMultiResults, ''CLIENT_PS_MULTI_RESULTS''),
      (ClientPluginAuth, ''CLIENT_PLUGIN_AUTH''),
      (ClientConnectAttrs, ''CLIENT_CONNECT_ATTRS''),
      (ClientPluginAuthLenencClientData, ''CLIENT_PLUGIN_AUTH_LENENC_CLIENT_DATA''),
      (ClientCanHandleExpiredPasswords, ''CLIENT_CAN_HANDLE_EXPIRED_PASSWORDS''),
      (ClientSessionTrack, ''CLIENT_SESSION_TRACK''),
      (ClientDeprecateEOF, ''CLIENT_DEPRECATE_EOF''),
      (ClientSupportOracleMode, ''CLIENT_SUPPORT_ORACLE_MODE''),
      (ClientReturnHiddenRowID, ''CLIENT_RETURN_HIDDEN_ROWID''),
      (ClientUseLOBLocator, ''CLIENT_USE_LOB_LOCATOR'')]"

text \<open>Eight lower-case hexadecimal digits, as \<open>%08x\<close> prints a 32-bit value.\<close>

definition hex8 :: "u32 \<Rightarrow> string" where
  "hex8 w = map (\<lambda>i. ''0123456789abcdef'' ! unat (drop_bit (28 - 4 * i) w AND 0xF)) [0..<8]"

fun name_loop :: "(u32 \<times> string) list \<Rightarrow> u32 \<Rightarrow> string list \<times> u32 \<Rightarrow> string list \<times> u32" where
  "name_loop [] flags acc = acc"
| "name_loop ((b, name) # known) flags (out, remaining) =
     (if flags AND b = 0 then name_loop known flags (out, remaining)
      else name_loop known flags (out @ [name], remaining AND NOT b))"

definition capabilityNames :: "u32 \<Rightarrow> string" where
  "capabilityNames flags =
     (let (out, remaining) = name_loop known_capabilities flags ([], flags);
          out = (if remaining \<noteq> 0 then out @ [''UNKNOWN(0x'' @ hex8 remaining @ '')''] else out)
      in if length out = 0 then ''none'' else Join out ''|'')"

subsection \<open>The client's response\<close>

text \<open>What the build and the process provide.\<close>

record client_env =
  hostEnv :: host_env
  GOOS :: string
  GOARCH :: string
  spareCap :: "bytes \<Rightarrow> bytes"

definition buildAuthResponse :: "string \<Rightarrow> string \<Rightarrow> bytes \<Rightarrow> bytes res" where
  "buildAuthResponse plugin password seed =
     (if plugin = ''mysql_native_password'' then Ok (NativePasswordAuth password seed)
      else if plugin = ''caching_sha2_password'' then Ok (CachingSha2PasswordAuth password seed)
      else Err (Errorf ''oceanbase: auth plugin %q is not implemented'' [AStr plugin]))"

definition drop_ob20_flag :: "string \<Rightarrow> (string \<times> string) list \<Rightarrow> (string \<times> string) list" where
  "drop_ob20_flag key attrs =
     (case map_of attrs key of
        Some v \<Rightarrow> AList.update key (FormatUint (fst (ParseUint v) AND NOT obClientCapOBProtocolV2)) attrs
      | None \<Rightarrow> attrs)"

definition connectionAttributes :: "client_env \<Rightarrow> config \<Rightarrow> handshake \<Rightarrow> (string \<times> string) list" where
  "connectionAttributes env conf hs =
     (let attrMap =
        [(''_client_name'', ''OceanBase Connector/Go''),
         (''_client_version'', ''2.2.10''),
         (''_os'', GOOS env),
         (''_platform'', GOARCH env),
         (''program_name'', ''obclient''),
         (''ob_server_version'', serverVersion hs)];
          attrMap = fold (\<lambda>(k, v). AList.update k v) (presetAttributes (Preset conf)) attrMap;
          attrMap = fold (\<lambda>(k, v). AList.update k v)
            (case Attributes conf of None \<Rightarrow> [] | Some attrs \<Rightarrow> attrs) attrMap;
          attrMap = (if \<not> ProtocolV2 conf then
            drop_ob20_flag ''__proxy_capability_flag'' (drop_ob20_flag ''ob_capability_flag'' attrMap) else attrMap)
      in map (\<lambda>k. (k, the (map_of attrMap k))) (sort (map fst attrMap)))"

definition attr_payload :: "(string \<times> string) list \<Rightarrow> bytes" where
  "attr_payload attrs =
     fold (\<lambda>(k, v) out. PutLengthEncodedString (out @ [word_of_nat (length k)] @ bytes_of k) (bytes_of v)) attrs []"

definition base_caps :: u32 where
  "base_caps =
     ClientLongPassword OR ClientLongFlag OR ClientProtocol41 OR ClientTransactions OR ClientSecureConnection OR
     ClientMultiResults OR ClientPluginAuth OR ClientPluginAuthLenencClientData OR ClientConnectAttrs OR
     ClientSessionTrack OR ClientDeprecateEOF OR ClientSupportOracleMode OR ClientCanHandleExpiredPasswords"

definition client_caps_for :: "client_env \<Rightarrow> config \<Rightarrow> u32 \<Rightarrow> u32" where
  "client_caps_for env conf server =
     (let baseCaps = (if TLSConfig conf \<noteq> None then base_caps OR ClientSSL else base_caps);
          baseCaps = baseCaps OR presetCapabilities (Preset conf);
          caps = (if server AND ClientProtocol41 = 0 then baseCaps AND NOT ClientProtocol41 else baseCaps);
          caps = (if Database conf \<noteq> [] then caps OR ClientConnectWithDB else caps);
          caps = (caps OR CapabilityAdd conf) AND NOT (CapabilityDrop conf);
          caps = (if server AND ClientDeprecateEOF = 0 then caps AND NOT ClientDeprecateEOF else caps);
          negotiated = NegotiateCompression (UseCompression conf) server (Getenv (hostEnv env) ''OB_USE_COMPRESSION'')
      in if negotiated then caps OR ClientCompress else caps)"

definition buildHandshakeResponse :: "client_env \<Rightarrow> config \<Rightarrow> string \<Rightarrow> handshake \<Rightarrow> bytes \<Rightarrow> bytes" where
  "buildHandshakeResponse env conf mode hs authResp =
     (let caps = client_caps_for env conf (capabilities hs);
          proxyCaps = obClientCapFullLinkTrace OR obClientCapProxyNewExtraInfo OR obClientCapProxyFullLinkTraceShowTrace;
          proxyCaps = (if ProtocolV2 conf then proxyCaps OR obClientCapOBProtocolV2 else proxyCaps);
          out = le_bytes 4 caps @ le_bytes 4 DefaultMaxPacketSize @ [Collation conf] @ replicate 19 0 @
            le_bytes 4 (ucast proxyCaps :: u32) @ bytes_of (User conf) @ [0];
          out = PutLengthEncodedString out authResp;
          out = (if caps AND ClientConnectWithDB \<noteq> 0 then
                   out @ bytes_of (if mode = ''oracle'' then ToUpper (Database conf) else Database conf) @ [0] else out);
          out = (if caps AND ClientPluginAuth \<noteq> 0 then out @ bytes_of (authPlugin hs) @ [0] else out)
      in if caps AND ClientConnectAttrs \<noteq> 0 then
           let attrPayload = attr_payload (connectionAttributes env conf hs)
           in PutLengthEncodedInt out (word_of_nat (length attrPayload)) @ attrPayload
         else out)"

definition ssl_request :: "config \<Rightarrow> u32 \<Rightarrow> bytes" where
  "ssl_request conf serverCapabilities =
     (let caps = base_caps OR ClientSSL;
          caps = (if serverCapabilities AND ClientDeprecateEOF = 0 \<or> CapabilityDrop conf AND ClientDeprecateEOF \<noteq> 0
                  then caps AND NOT ClientDeprecateEOF else caps)
      in le_bytes 4 caps @ le_bytes 4 DefaultMaxPacketSize @ [Collation conf] @ replicate 23 0)"

end
