(* ===== verification/Connect.thy ===== *)
theory Connect
  imports Session Handshake
begin

text \<open>
  Opening a connection: the stateful part of \<open>conn_handshake.go\<close> and \<open>driver.go\<close>.

  The network is a parameter, the record \<open>network\<close>: what dialling an address yields at each attempt,
  what the TLS handshake yields, and whether a host is an IP address.  A \<open>transport\<close> is a socket with
  the bytes its peer will deliver.
\<close>

subsection \<open>The network\<close>

record transport =
  tNet :: net_conn
  tRx :: bytes
  tRxEnd :: go_error
  tTxFail :: "go_error option list"

record network =
  DialContext :: "nat \<Rightarrow> string \<Rightarrow> transport res"
  tlsHandshake :: "tls_config \<Rightarrow> string \<Rightarrow> transport res"
  isIP :: "string \<Rightarrow> bool"

definition transport_packets :: "transport \<Rightarrow> packet_conn" where
  "transport_packets t = (NewPacketConn (tRx t) (tRxEnd t))\<lparr>txFail := tTxFail t\<rparr>"

text \<open>\<open>&Conn{netConn: ..., packets: ..., cfg: cfg}\<close>\<close>

definition new_conn :: "transport \<Rightarrow> config \<Rightarrow> conn" where
  "new_conn t conf =
     \<lparr>netConn = Some (tNet t), packets = Some (transport_packets t), cfg = Some conf, db = [], ob20Confirmed = False,
      ob20Declined = False, deprecateEOF = False, sessionTrack = False, tenantMode = [], sessionLocation = None,
      closed = False, bad = False, inTx = False, locked = False\<rparr>"

subsection \<open>Authentication\<close>

definition sendSSLRequest :: "zlib \<Rightarrow> config \<Rightarrow> u32 \<Rightarrow> unit cst" where
  "sendSSLRequest z conf serverCapabilities =
     bind_st (on_packets (\<lambda>p. (Ok (), ResetSequence p))) (\<lambda>_. conn_write z (ssl_request conf serverCapabilities))"

definition readAuthSwitchData :: "zlib \<Rightarrow> (string \<times> bytes) cst" where
  "readAuthSwitchData z =
     bind_st (conn_read z) (\<lambda>packet.
     bind_st (lift_res (readNullTerminated packet)) (\<lambda>(plugin, used). return_st (plugin, drop used packet)))"

text \<open>The OK packet ends authentication and switches the framing on.\<close>

definition auth_ok :: "client_env \<Rightarrow> config \<Rightarrow> handshake \<Rightarrow> bytes \<Rightarrow> unit cst" where
  "auth_ok env conf hs authResult =
     bind_st (handleOK authResult) (\<lambda>_.
     bind_st
       (\<lambda>c. if ProtocolV2 conf \<and> ob20Confirmed c then
              on_packets (\<lambda>p. (Ok (), EnableOB20 (hsConnectionID hs) (if OB20Magic conf \<noteq> 0 then OB20Magic conf else OB20MagicNum)
                True (DisableOB20Checksum conf) p)) c
            else (Ok (), c)) (\<lambda>_.
       if NegotiateCompression (UseCompression conf) (capabilities hs) (Getenv (hostEnv env) ''OB_USE_COMPRESSION'')
       then on_packets (\<lambda>p. (Ok (), EnableCompression p))
       else return_st ()))"

text \<open>An authentication switch: the plugin and seed of the next packet, answered with a new token.\<close>

definition auth_switch :: "zlib \<Rightarrow> config \<Rightarrow> handshake \<Rightarrow> handshake cst" where
  "auth_switch z conf hs =
     bind_st (readAuthSwitchData z) (\<lambda>(plugin, seed).
       let hs = hs\<lparr>authPlugin := plugin, authSeed := seed\<rparr>
       in bind_st (lift_res (buildAuthResponse plugin (Password conf) seed)) (\<lambda>authResp.
          bind_st (conn_write z authResp) (\<lambda>_. return_st hs)))"

definition maxAuthRounds :: nat where "maxAuthRounds = 10"

fun auth_rounds :: "client_env \<Rightarrow> zlib \<Rightarrow> config \<Rightarrow> nat \<Rightarrow> handshake \<Rightarrow> unit cst" where
  "auth_rounds env z conf 0 hs =
     fail_st (Errorf ''oceanbase: exceeded maximum authentication rounds (%d)'' [AInt (int maxAuthRounds)])"
| "auth_rounds env z conf (Suc n) hs =
     bind_st (conn_read z) (\<lambda>authResult.
       if authResult = [] then fail_st UnexpectedEOF
       else if authResult ! 0 = OKPacket then auth_ok env conf hs authResult
       else if authResult ! 0 = ErrPacket then fail_st (parseServerError authResult)
       else if authResult ! 0 = 0x01 then
         (if length authResult < 2 then
            fail_st (Errorf ''oceanbase: unexpected auth response 0x01 (too short)'' [])
          else if authResult ! 1 = 0x03 then bind_st (auth_switch z conf hs) (auth_rounds env z conf n)
          else if authResult ! 1 = 0x04 then
            (if TLSConfig conf \<noteq> None then
               bind_st (conn_write z (bytes_of (Password conf))) (\<lambda>_. auth_rounds env z conf n hs)
             else fail_st (Errorf ''oceanbase: caching_sha2_password full-auth requires TLS'' []))
          else fail_st (Errorf ''oceanbase: unexpected auth sub-response 0x01 0x%02x'' [AInt (uint (authResult ! 1))]))
       else if authResult ! 0 = 0xFE then bind_st (auth_switch z conf hs) (auth_rounds env z conf n)
       else fail_st (Errorf ''oceanbase: unexpected auth response 0x%02x'' [AInt (uint (authResult ! 0))]))"

definition handleAuthResult :: "client_env \<Rightarrow> zlib \<Rightarrow> config \<Rightarrow> handshake \<Rightarrow> unit cst" where
  "handleAuthResult env z conf hs = auth_rounds env z conf maxAuthRounds hs"

subsection \<open>The handshake\<close>

text \<open>The name the server's certificate is checked against.\<close>

definition tls_server_name :: "network \<Rightarrow> config \<Rightarrow> tls_config \<Rightarrow> string" where
  "tls_server_name net conf t =
     (if tlsServerName t = [] then
        (case SplitHostPort (Addr conf) of Ok (host, _) \<Rightarrow> if isIP net host then [] else host | _ \<Rightarrow> [])
      else tlsServerName t)"

definition start_tls :: "network \<Rightarrow> zlib \<Rightarrow> config \<Rightarrow> handshake \<Rightarrow> unit cst" where
  "start_tls net z conf hs =
     (case TLSConfig conf of
        None \<Rightarrow> return_st ()
      | Some t \<Rightarrow>
          if capabilities hs AND ClientSSL = 0 then fail_st (Errorf ''oceanbase: server does not support SSL'' [])
          else
            bind_st (sendSSLRequest z conf (capabilities hs)) (\<lambda>_.
            bind_st (lift_res (tlsHandshake net t (tls_server_name net conf t))) (\<lambda>tr c.
              (Ok (), c\<lparr>netConn := Some (tNet tr), packets := Some (transport_packets tr)\<rparr>))))"

definition conn_handshake :: "client_env \<Rightarrow> network \<Rightarrow> zlib \<Rightarrow> config \<Rightarrow> unit cst" where
  "conn_handshake env net z conf =
     bind_st (on_packets (\<lambda>p. (Ok (), ResetSequence p))) (\<lambda>_.
     bind_st (conn_read z) (\<lambda>packet.
       if packet \<noteq> [] \<and> packet ! 0 = ErrPacket then fail_st (parseServerError packet)
       else
         bind_st (lift_res (parseHandshake (spareCap env packet) packet)) (\<lambda>hs.
         bind_st (\<lambda>c. (Ok (), c\<lparr>tenantMode := tenantModeFromHandshake (status hs) (Some conf)\<rparr>)) (\<lambda>_.
         bind_st (start_tls net z conf hs) (\<lambda>_.
           let hs = (if authPlugin hs = [] then hs\<lparr>authPlugin := ''mysql_native_password''\<rparr> else hs)
           in bind_st (lift_res (buildAuthResponse (authPlugin hs) (Password conf) (authSeed hs))) (\<lambda>authResp c.
                let response = buildHandshakeResponse env conf (tenantMode c) hs authResp;
                    clientCaps = (le_word (take 4 response) :: u32)
                in bind_st (conn_write z response) (\<lambda>_. handleAuthResult env z conf hs)
                     (c\<lparr>deprecateEOF := clientCaps AND ClientDeprecateEOF \<noteq> 0,
                        sessionTrack := clientCaps AND ClientSessionTrack \<noteq> 0 \<and> capabilities hs AND ClientSessionTrack \<noteq> 0\<rparr>)))))))"

fun init_queries :: "zlib \<Rightarrow> go_ctx \<Rightarrow> string list \<Rightarrow> unit cst" where
  "init_queries z ctx [] = return_st ()"
| "init_queries z ctx (query # queries) =
     bind_st
       (\<lambda>c. case execLocked z ctx query c of
              (Ok _, c') \<Rightarrow> (Ok (), c')
            | (Err e, c') \<Rightarrow> (Err (Errorf ''init query %q failed: %w'' [AStr query, AWrap e]), c')
            | (Panic, c') \<Rightarrow> (Panic, c'))
       (\<lambda>_. init_queries z ctx queries)"

text \<open>Behind the handshake: the configured statements, then the session's time zone.\<close>

definition init_session :: "zlib \<Rightarrow> go_ctx \<Rightarrow> config \<Rightarrow> unit cst" where
  "init_session z ctx conf =
     bind_st (init_queries z ctx (InitSQL conf)) (\<lambda>_ c.
       case configureSessionTimeZone z ctx c of
         (Err e, c') \<Rightarrow> (Err (Errorf ''configure session time zone failed: %w'' [AWrap e]), c')
       | r \<Rightarrow> r)"

text \<open>
  The addresses in turn: one that cannot be dialled or whose handshake fails is passed over; the
  first that completes it decides.  No address at all yields neither connection nor error.
\<close>

fun dial_loop ::
  "client_env \<Rightarrow> network \<Rightarrow> zlib \<Rightarrow> go_ctx \<Rightarrow> config \<Rightarrow> nat \<Rightarrow> string list \<Rightarrow> go_error option \<Rightarrow> conn option res" where
  "dial_loop env net z ctx conf i [] lastErr = (case lastErr of None \<Rightarrow> Ok None | Some e \<Rightarrow> Err e)"
| "dial_loop env net z ctx conf i (addr # addrs) lastErr =
     (case DialContext net i addr of
        Err e \<Rightarrow> dial_loop env net z ctx conf (i + 1) addrs (Some e)
      | Panic \<Rightarrow> Panic
      | Ok t \<Rightarrow>
          (case withDeadline ctx (conn_handshake env net z conf) (new_conn t conf) of
             (Err e, _) \<Rightarrow> dial_loop env net z ctx conf (i + 1) addrs (Some e)
           | (Panic, _) \<Rightarrow> Panic
           | (Ok _, c) \<Rightarrow>
               (case init_session z ctx conf c of
                  (Ok _, c') \<Rightarrow> Ok (Some c')
                | (Err e, _) \<Rightarrow> Err e
                | (Panic, _) \<Rightarrow> Panic)))"

definition dialAndHandshake :: "client_env \<Rightarrow> network \<Rightarrow> zlib \<Rightarrow> go_ctx \<Rightarrow> config \<Rightarrow> conn option res" where
  "dialAndHandshake env net z ctx conf = dial_loop env net z ctx conf 0 (Addrs conf) None"

subsection \<open>The driver\<close>

text \<open>\<open>Connect\<close> normalises the connector's configuration in place.\<close>

definition Connect :: "client_env \<Rightarrow> network \<Rightarrow> zlib \<Rightarrow> go_ctx \<Rightarrow> (config, conn option) st" where
  "Connect env net z ctx =
     bind_st (normalize (hostEnv env)) (\<lambda>_ conf. (dialAndHandshake env net z ctx conf, conf))"

definition parseConfig :: "client_env \<Rightarrow> string \<Rightarrow> string \<Rightarrow> config res" where
  "parseConfig env preset name =
     bind_res (ParseDSN (hostEnv env) name) (\<lambda>conf.
       Ok (if preset \<noteq> [] then conf\<lparr>Preset := preset\<rparr> else conf))"

definition Driver_Open :: "client_env \<Rightarrow> network \<Rightarrow> zlib \<Rightarrow> string \<Rightarrow> string \<Rightarrow> conn option res" where
  "Driver_Open env net z preset name =
     bind_res (parseConfig env preset name) (\<lambda>conf. fst (Connect env net z Background conf))"

definition OpenConnector :: "client_env \<Rightarrow> string \<Rightarrow> string \<Rightarrow> config res" where
  "OpenConnector env preset name = parseConfig env preset name"

definition NewConnector :: "client_env \<Rightarrow> config \<Rightarrow> config res" where
  "NewConnector env conf =
     (case normalize (hostEnv env) conf of (Ok _, conf') \<Rightarrow> Ok conf' | (Err e, _) \<Rightarrow> Err e | (Panic, _) \<Rightarrow> Panic)"

end
