(* ===== verification/Server_Messages.thy ===== *)
theory Server_Messages
  imports Result_Sets
begin

text \<open>
  The packets a server sends, written out from the protocol's documentation, and what the driver's
  parsers make of them: OK and EOF packets, column definitions and whole result sets.
\<close>

subsection \<open>OK and EOF packets\<close>

definition ok_packet :: "byte \<Rightarrow> u64 \<Rightarrow> u64 \<Rightarrow> u16 \<Rightarrow> u16 \<Rightarrow> bytes \<Rightarrow> bytes" where
  "ok_packet header affected lastID status warnings info =
     header # PutLengthEncodedInt [] affected @ PutLengthEncodedInt [] lastID @ le_bytes 2 status @ le_bytes 2 warnings @ info"

definition eof_packet :: "u16 \<Rightarrow> u16 \<Rightarrow> bytes" where
  "eof_packet warnings status = EOFPacket # le_bytes 2 warnings @ le_bytes 2 status"

lemma ok_packet_nonempty [simp]: "ok_packet h a i st w info \<noteq> []" "ok_packet h a i st w info ! 0 = h"
  by (simp_all add: ok_packet_def)

lemma ok_packet_length: "7 \<le> length (ok_packet h a i st w info)"
  by (simp add: ok_packet_def length_PutLengthEncodedInt)

text \<open>The parts of an OK packet at the positions the parsers look at.\<close>

lemma ok_packet_parts:
  fixes a i :: u64
  defines "m \<equiv> Suc (length (PutLengthEncodedInt [] a))" and "n \<equiv> Suc (length (PutLengthEncodedInt [] a) + length (PutLengthEncodedInt [] i))"
  shows "ReadLengthEncodedInt (drop (Suc 0) (ok_packet h a i st w info)) = Ok (a, length (PutLengthEncodedInt [] a), False)"
    and "ReadLengthEncodedInt (drop m (ok_packet h a i st w info)) = Ok (i, length (PutLengthEncodedInt [] i), False)"
    and "le_word (subslice n (Suc (Suc n)) (ok_packet h a i st w info)) = st"
    and "length (ok_packet h a i st w info) = n + 4 + length info"
  by (simp_all add: assms ok_packet_def ReadLengthEncodedInt_Put subslice_def le_word_le_bytes_id)

lemma ok_packet_flags:
  assumes "info = [] \<or> \<not> tracked"
  shows "packetStatusFlags (ok_packet h a i st w info) h tracked = (st, True)"
  using assms by (auto simp: packetStatusFlags_def ok_packet_parts Let_def)

lemma handleOK_plain:
  assumes "st AND ServerSessionStateChanged = 0"
  shows "handleOK (ok_packet OKPacket a i st w info) c = (Ok (\<lparr>affectedRows = sint a, lastInsertID = sint i\<rparr>, st), c)"
  using assms by (simp add: handleOK_def lift_res_def ok_packet_parts Let_def)

lemma eof_packet_is: "isEOFPacket (eof_packet w st)"
  by (simp add: isEOFPacket_def eof_packet_def)

lemma short_not_ok: "length b < 7 \<Longrightarrow> \<not> isResultSetOKPacket b tracked"
  by (auto simp: isResultSetOKPacket_def isOKPacketWithHeader_def packetStatusFlags_def Let_def split: res.splits prod.splits
      dest!: ReadLengthEncodedInt_used)

lemma eof_packet_mode [simp]:
  "\<not> isResultSetOKPacket (eof_packet w st) tracked"
  "isResultSetTerminatorPacket (eof_packet w st) tracked"
  "eof_packet w st \<noteq> []" "eof_packet w st ! 0 = EOFPacket"
  using eof_packet_is by (auto simp: isResultSetTerminatorPacket_def eof_packet_def intro!: short_not_ok)

lemma le_word_pair: "le_word [ucast w, ucast (drop_bit 8 w)] = (w :: u16)"
  using le_word_le_bytes_id [of 2 w] by (simp add: le_bytes_numerals)

subsection \<open>Column definitions\<close>

text \<open>The catalog, schema, table, original table and original column names, and what the driver keeps.\<close>

type_synonym server_column = "bytes list \<times> columnDef"

definition column_packet :: "server_column \<Rightarrow> bytes" where
  "column_packet sc =
     (case sc of (names, cd) \<Rightarrow>
        concat (map (PutLengthEncodedString []) (take 4 names @ [bytes_of (cdName cd)] @ drop 4 names)) @
        [0x0c] @ le_bytes 2 (cdCharset cd) @ le_bytes 4 (cdColumnLength cd) @ [cdTyp cd] @ le_bytes 2 (cdFlags cd) @
        [cdDecimals cd, 0, 0])"

definition valid_column :: "server_column \<Rightarrow> bool" where
  "valid_column sc \<longleftrightarrow>
     length (fst sc) = 5 \<and> list_all go_len (fst sc) \<and> go_len (bytes_of (cdName (snd sc)))"

lemma skip_strings_put:
  assumes "list_all go_len names"
  shows "skip_strings (length names) (pre @ concat (map (PutLengthEncodedString []) names) @ rest) (length pre) =
    Ok (length pre + length (concat (map (PutLengthEncodedString []) names)))"
  using assms
proof (induction names arbitrary: pre)
  case Nil
  then show ?case by simp
next
  case (Cons s names)
  let ?s = "PutLengthEncodedString [] s"
  have "skip_strings (length names) ((pre @ ?s) @ concat (map (PutLengthEncodedString []) names) @ rest) (length (pre @ ?s)) =
    Ok (length (pre @ ?s) + length (concat (map (PutLengthEncodedString []) names)))"
    using Cons by (intro Cons.IH) simp
  with Cons.prems show ?case by (simp add: ReadLengthEncodedString_Put add.assoc)
qed

lemma column_roundtrip:
  assumes "valid_column sc"
  shows "parseColumnDefinition (column_packet sc) = Ok (snd sc)"
proof -
  obtain names cd where sc: "sc = (names, cd)" by fastforce
  let ?enc = "\<lambda>ns. concat (map (PutLengthEncodedString []) ns)" and ?name = "PutLengthEncodedString [] (bytes_of (cdName cd))"
  let ?tail = "[0x0c] @ le_bytes 2 (cdCharset cd) @ le_bytes 4 (cdColumnLength cd) @ [cdTyp cd] @ le_bytes 2 (cdFlags cd) @
        [cdDecimals cd, 0, 0 :: byte]"
  define pre where "pre = ?enc (take 4 names)"
  have len: "length (take 4 names) = 4" "length (drop 4 names) = 1"
    and ok: "list_all go_len (take 4 names)" "list_all go_len (drop 4 names)" "go_len (bytes_of (cdName cd))"
    using assms set_take_subset [of 4 names] set_drop_subset [of 4 names]
    by (auto simp: sc valid_column_def list_all_iff)
  have pkt: "column_packet sc = pre @ ?name @ ?enc (drop 4 names) @ ?tail"
    by (simp add: column_packet_def sc pre_def)
  have s1: "skip_strings 4 (column_packet sc) 0 = Ok (length pre)"
    using skip_strings_put [OF ok(1), of "[]" "?name @ ?enc (drop 4 names) @ ?tail"] len by (simp add: pkt pre_def)
  have s2: "ReadLengthEncodedString (drop (length pre) (column_packet sc)) = Ok (bytes_of (cdName cd), length ?name, False)"
    using ReadLengthEncodedString_Put [OF ok(3)] by (simp add: pkt)
  have s3: "skip_strings 1 (column_packet sc) (length pre + length ?name) =
      Ok (length pre + length ?name + length (?enc (drop 4 names)))"
    using skip_strings_put [OF ok(2), of "pre @ ?name" ?tail] len by (simp add: pkt)
  define pos where "pos = length pre + length ?name + length (?enc (drop 4 names))"
  define front where "front = pre @ ?name @ ?enc (drop 4 names)"
  have at: "column_packet sc = front @ ?tail" "pos = length front" by (simp_all add: pkt front_def pos_def)
  have "parseColumnDefinition (column_packet sc) =
      (if length (column_packet sc) < pos + 13 then Err UnexpectedEOF
       else Ok \<lparr>cdName = cdName cd, cdTyp = column_packet sc ! (pos + 7),
                cdFlags = le_word (subslice (pos + 8) (pos + 10) (column_packet sc)),
                cdDecimals = column_packet sc ! (pos + 10),
                cdColumnLength = le_word (subslice (pos + 3) (pos + 7) (column_packet sc)),
                cdCharset = le_word (subslice (pos + 1) (pos + 3) (column_packet sc))\<rparr>)"
    using s1 s2 s3 by (simp add: parseColumnDefinition_def pos_def del: One_nat_def)
  moreover have "le_word [ucast w, ucast (drop_bit 8 w), ucast (drop_bit 16 w), ucast (drop_bit 24 w)] = w" for w :: u32
    using le_word_le_bytes_id [of 4 w] by (simp add: le_bytes_numerals)
  ultimately show ?thesis
    unfolding at by (simp add: nth_append subslice_def sc le_bytes_numerals le_word_pair)
qed

subsection \<open>Result sets\<close>

text \<open>
  A result set of the text protocol.  A server that has agreed to \<open>CLIENT_DEPRECATE_EOF\<close> sends no
  packet behind the column definitions and an OK packet with the EOF header behind the rows.
\<close>

definition end_packet :: "bool \<Rightarrow> u16 \<Rightarrow> bytes" where
  "end_packet deprecated status = (if deprecated then ok_packet EOFPacket 0 0 status 0 [] else eof_packet 0 status)"

definition header_packets :: "bool \<Rightarrow> server_column list \<Rightarrow> u16 \<Rightarrow> bytes list" where
  "header_packets deprecated cols status =
     PutLengthEncodedInt [] (word_of_nat (length cols)) # map column_packet cols @
     (if deprecated then [] else [eof_packet 0 status])"

definition row_packets :: "bool \<Rightarrow> gval list list \<Rightarrow> u16 \<Rightarrow> bytes list" where
  "row_packets deprecated rows status = map text_row rows @ [end_packet deprecated status]"

definition valid_columns :: "server_column list \<Rightarrow> bool" where
  "valid_columns cols \<longleftrightarrow> cols \<noteq> [] \<and> length cols \<le> maxResultColumns \<and> list_all valid_column cols"

definition valid_row :: "byte list \<Rightarrow> gval list \<Rightarrow> bool" where
  "valid_row types vs \<longleftrightarrow>
     list_all2 fits_column vs types \<and> list_all (\<lambda>v. length (cell_text v) < 2 ^ 24) vs"

lemma end_packet_terminator:
  "isResultSetTerminatorForMode (end_packet deprecated st) deprecated tracked"
  "st AND ServerMoreResultsExists = 0 \<Longrightarrow> \<not> resultSetTerminatorHasMoreResults (end_packet deprecated st) tracked"
proof -
  have ok: "packetStatusFlags (ok_packet EOFPacket 0 0 st 0 []) EOFPacket tracked = (st, True)"
    by (rule ok_packet_flags) simp
  then show "isResultSetTerminatorForMode (end_packet deprecated st) deprecated tracked"
    by (auto simp: isResultSetTerminatorForMode_def end_packet_def eof_packet_is isResultSetOKPacket_def isOKPacketWithHeader_def)
  have "\<not> isEOFPacket (ok_packet EOFPacket 0 0 st 0 [])"
    using ok_packet_length [of EOFPacket 0 0 st 0 "[]"] by (auto simp: isEOFPacket_def)
  moreover have "le_word (subslice 3 5 (eof_packet 0 st)) = st"
    by (simp add: eof_packet_def subslice_def le_bytes_numerals le_word_pair)
  ultimately show "st AND ServerMoreResultsExists = 0 \<Longrightarrow> \<not> resultSetTerminatorHasMoreResults (end_packet deprecated st) tracked"
    using ok by (auto simp: resultSetTerminatorHasMoreResults_def end_packet_def eof_packet_is)
qed

lemma valid_row_parses:
  assumes "valid_row types vs"
  shows "parseTextRowInLocation pf (text_row vs) (length types) types l = Ok vs"
proof -
  have "\<forall>v \<in> set vs. go_len (cell_text v)" and "length types = length vs"
    using assms list_all2_lengthD by (fastforce simp: valid_row_def list_all_iff go_len_def)+
  with text_columns_row [of vs types pf l "[]"] assms show ?thesis
    by (simp add: parseTextRowInLocation_def valid_row_def)
qed

lemma valid_row_data:
  assumes "valid_row types vs" and "types \<noteq> []"
  shows "\<not> isResultSetTerminatorForMode (text_row vs) deprecated tracked" and "text_row vs ! 0 \<noteq> ErrPacket"
proof -
  from assms obtain v vs' where "vs = v # vs'" by (cases vs) (auto simp: valid_row_def)
  with assms row_not_control [of v deprecated vs' tracked]
  show "\<not> isResultSetTerminatorForMode (text_row vs) deprecated tracked" and "text_row vs ! 0 \<noteq> ErrPacket"
    by (auto simp: valid_row_def go_len_def)
qed

lemma binary_row_data:
  "encode_binary_row vs ! 0 \<noteq> ErrPacket" "\<not> isResultSetTerminatorForMode (encode_binary_row vs) deprecated tracked"
  by (auto simp: encode_binary_row_def packet_bytes isResultSetTerminatorForMode_def isEOFPacket_def isResultSetOKPacket_def
      isOKPacketWithHeader_def packetStatusFlags_def)

text \<open>The packet with the number of columns is not taken for an OK or error packet.\<close>

lemma count_packet:
  assumes "0 < n" and "n \<le> maxResultColumns"
  defines "b \<equiv> PutLengthEncodedInt [] (word_of_nat n)"
  shows "b \<noteq> [] \<and> b ! 0 \<noteq> ErrPacket \<and> b ! 0 \<noteq> OKPacket" and "ReadLengthEncodedInt b = Ok (word_of_nat n, length b, False)"
    and "unat (word_of_nat n :: u64) = n"
proof -
  have small: "n < 65536" using assms(2) by (simp add: maxResultColumns_def)
  then show un: "unat (word_of_nat n :: u64) = n" by (intro unat_of_nat_small) simp
  show "ReadLengthEncodedInt b = Ok (word_of_nat n, length b, False)"
    using ReadLengthEncodedInt_Put [of "word_of_nat n" "[]"] by (simp add: b_def)
  have "(ucast (word_of_nat n :: u64) :: byte) \<noteq> 0 \<and> (ucast (word_of_nat n :: u64) :: byte) \<noteq> 0xff" if "(word_of_nat n :: u64) < 251"
  proof
    show "(ucast (word_of_nat n :: u64) :: byte) \<noteq> 0" using small_byte(1) [OF that] un assms(1) by auto
    show "(ucast (word_of_nat n :: u64) :: byte) \<noteq> 0xff" using small_byte(2) [OF that] by auto
  qed
  then show "b \<noteq> [] \<and> b ! 0 \<noteq> ErrPacket \<and> b ! 0 \<noteq> OKPacket"
    using small by (auto simp: b_def PutLengthEncodedInt_cases packet_bytes)
qed

end
