(* ===== verification/Packet_OB20.thy ===== *)
theory Packet_OB20
  imports Packet_Framing
begin

text \<open>
  Correctness of the OceanBase 2.0 framing: one frame is decoded to the MySQL bytes it carries,
  \<open>ReadPacket\<close> reassembles packets however they are cut into frames, and the writer's packets
  satisfy the framing contract as long as they fit one frame.  The last part states what happens
  to payloads that do not fit.
\<close>

subsection \<open>Frames\<close>

text \<open>The payload of a frame that carries the MySQL bytes \<open>d\<close>, and the frame as written.\<close>

definition ob20_body :: "OB20ExtraInfo list \<Rightarrow> bytes \<Rightarrow> bytes" where
  "ob20_body infos d =
     (if 0 < extra_len infos then
        le_bytes 4 (word_of_nat (extra_len infos) :: u32) @ concat (map OB20ExtraInfo_Encode infos) @ d
      else d)"

definition ob20_wire :: "packet_conn \<Rightarrow> byte \<Rightarrow> OB20ExtraInfo list \<Rightarrow> bytes \<Rightarrow> bytes" where
  "ob20_wire s n infos d =
     (let body = ob20_body infos d
      in ob20_header_buf s (ob20_header_for s n body (ob20_flag s (extra_len infos))) @ body @
         ob20_trailer s body)"

text \<open>The frame's length fits the three-byte \<open>compressLength\<close>.\<close>

definition ob20_fits :: "OB20ExtraInfo list \<Rightarrow> bytes \<Rightarrow> bool" where
  "ob20_fits infos d \<longleftrightarrow> length (ob20_body infos d) + 28 < 2 ^ 24"

lemma length_encoded_infos [simp]:
  "length (concat (map OB20ExtraInfo_Encode infos)) = extra_len infos"
  by (induction infos) (simp_all add: extra_len_def)

lemma ob20_wire_cong:
  assumes "ob20Magic s = ob20Magic t" "connectionID s = connectionID t" "requestID s = requestID t"
    "ob20NewExtraInfo s = ob20NewExtraInfo t" "ob20Checksum s = ob20Checksum t"
  shows "ob20_wire s = ob20_wire t"
  by (intro ext)
    (simp add: ob20_wire_def ob20_header_buf_def ob20_header_for_def ob20_flag_def ob20_trailer_def
      assms Let_def)

lemma payload_buf_ob20:
  "ob20 c \<Longrightarrow> payload_buf c chunk = ob20_body (extraInfos c) (mysql_frame (seq c) chunk)"
  by (simp add: payload_buf_def ob20_body_def Let_def)

lemma write_ob20_frame_Ok:
  "txFail c = [] \<Longrightarrow>
   write_ob20_frame h body c =
     (Ok (), c\<lparr>tx := tx c @ ob20_header_buf c h @ body @ ob20_trailer c body\<rparr>)"
  by (simp add: write_ob20_frame_def)

lemma writeChunk_ob20:
  assumes "ob20 c" and "txFail c = []"
  shows "writeChunk deflate chunk c =
    (Ok (), c\<lparr>tx := tx c @ ob20_wire c (seq c) (extraInfos c) (mysql_frame (seq c) chunk),
              seq := seq c + 1\<rparr>)"
  using assms ob20_wire_cong [of c "c\<lparr>seq := seq c + 1\<rparr>"]
  by (simp add: writeChunk_def payload_buf_ob20 write_ob20_frame_Ok Let_def)
    (simp add: ob20_wire_def Let_def)

lemma writeEmpty_ob20:
  assumes "ob20 c" and "txFail c = []"
  shows "writeEmptyContinuation c =
    (Ok (), c\<lparr>tx := tx c @ ob20_wire c (seq c) [] (mysql_frame (seq c) []), seq := seq c + 1\<rparr>)"
  using assms ob20_wire_cong [of c "c\<lparr>seq := seq c + 1\<rparr>"]
  by (simp add: writeEmptyContinuation_def write_ob20_frame_Ok Let_def)
    (simp add: ob20_wire_def ob20_body_def extra_len_def Let_def)

subsection \<open>Decoding one frame\<close>

text \<open>With checksums disabled the two CRC bytes are zero.\<close>

lemma ob20_header_buf_eq:
  "\<exists>t. length t = 2 \<and> ob20_header_buf s h = header_fields h @ t \<and>
     (le_word t = (0 :: u16) \<or> le_word t = CRC16 (header_fields h))"
proof (cases "ob20Checksum s")
  case True
  then show ?thesis
    by (intro exI [of _ "le_bytes 2 (CRC16 (header_fields h))"])
      (simp add: ob20_header_buf_def Encode_eq le_word_le_bytes_id)
next
  case False
  then have "ob20_header_buf s h = header_fields h @ [0, 0]"
    by (simp add: ob20_header_buf_def Encode_eq le_bytes_numerals TotalHeaderLen_def
        list_update_append)
  then show ?thesis
    by (intro exI [of _ "[0, 0]"]) (simp add: le_word.simps)
qed

lemma unat_and_24: "unat (w AND 0x00FFFFFF :: u32) < 16777216"
proof -
  have "(0x00FFFFFF :: u32) = mask 24" by (simp add: mask_eq_exp_minus_1)
  then have "w AND 0x00FFFFFF = take_bit 24 w" by (simp only: take_bit_eq_mask)
  then have "unat (w AND 0x00FFFFFF) = take_bit 24 (unat w)" by (simp only: unsigned_take_bit_eq)
  also have "\<dots> < 2 ^ 24" by (rule take_bit_nat_less_exp)
  finally show ?thesis by simp
qed

lemma ob20_header_for_fits:
  assumes "ob20Magic s = OB20MagicNum" and "length body + 28 < 2 ^ 24"
  shows "header_fits (ob20_header_for s n body flag)"
proof -
  have "unat (word_of_nat (28 + length body) :: u32) = 28 + length body"
    using assms(2) by (intro unat_of_nat_small) simp
  then show ?thesis
    using assms by (simp add: header_fits_def ob20_header_for_def ob20_consts unat_and_24 add.commute)
qed

lemma ob20_flag_extra: "ob20_flag s n AND OB20FlagExtraInfo \<noteq> 0 \<longleftrightarrow> 0 < n"
  by (simp add: ob20_flag_def ob20_flags Let_def)

lemma readOB20Frame_ok:
  assumes magic: "ob20Magic s = OB20MagicNum" and fits: "ob20_fits infos d"
    and rx: "rx c = ob20_wire s n infos d @ rest"
  shows "readOB20Frame c = (Ok (), c\<lparr>rx := rest, mysqlBuf := mysqlBuf c @ d\<rparr>)"
proof -
  define body where "body = ob20_body infos d"
  define h where "h = ob20_header_for s n body (ob20_flag s (extra_len infos))"
  have len: "length body + 28 < 16777216" using fits by (simp add: ob20_fits_def body_def)
  obtain t where t: "length t = 2" "ob20_header_buf s h = header_fields h @ t"
    and crc: "le_word t = (0 :: u16) \<or> le_word t = CRC16 (header_fields h)"
    using ob20_header_buf_eq by blast
  have dec: "OB20Header_Decode (header_fields h @ t) = Some (h\<lparr>HeaderCRC := le_word t\<rparr>)"
    using Decode_fields [OF _ t(1), of h] crc ob20_header_for_fits [OF magic, of body] len
    by (auto simp: h_def Let_def)
  have wire: "rx c = (header_fields h @ t) @ body @ ob20_trailer s body @ rest"
    using rx t(2) by (simp add: ob20_wire_def h_def body_def Let_def)
  have hd: "readFull TotalHeaderLen c =
      (Ok (header_fields h @ t), c\<lparr>rx := body @ ob20_trailer s body @ rest\<rparr>)"
    using wire t(1) by (intro readFull_append) (simp_all add: TotalHeaderLen_def)
  have plen: "unat (PayloadLen h) = length body"
    using len by (simp add: h_def ob20_header_for_def unat_of_nat_small)
  have clen: "CompressLength h = word_of_nat (OB20HeaderLen + unat (PayloadLen h) + OB20TailLen)"
    unfolding plen by (simp add: h_def ob20_header_for_def ob20_consts)
  have unc: "UncompressLength h = 0" by (simp add: h_def ob20_header_for_def)
  have tail: "length (ob20_trailer s body) = 4"
    "le_word (ob20_trailer s body) = (0 :: u32) \<or>
     OB20PayloadChecksum body = le_word (ob20_trailer s body)"
    by (auto simp: ob20_trailer_def le_word_le_bytes_id)
  have tl: "readFull 4 (c\<lparr>rx := ob20_trailer s body @ rest\<rparr>) =
      (Ok (ob20_trailer s body), c\<lparr>rx := rest\<rparr>)"
    using tail(1) by (subst readFull_append) auto
  have flag: "Flag h AND OB20FlagExtraInfo \<noteq> 0 \<longleftrightarrow> 0 < extra_len infos"
    by (simp add: h_def ob20_header_for_def ob20_flag_extra)
  have body: "4 + extra_len infos \<le> length body \<and>
      unat (le_word (subslice 0 4 body) :: u32) = extra_len infos \<and>
      drop (4 + extra_len infos) body = d" if "0 < extra_len infos"
  proof -
    have "extra_len infos < 2 ^ 32"
      using that len by (simp add: body_def ob20_body_def)
    with that show ?thesis
      by (simp add: body_def ob20_body_def subslice_def unat_le_word_of_nat)
  qed
  have nobody: "d = body" if "\<not> 0 < extra_len infos"
    using that by (simp add: body_def ob20_body_def)
  show ?thesis
    using tail(2) body nobody
    by (cases "0 < extra_len infos") (simp_all add: readOB20Frame_def hd dec plen clen unc tl flag Let_def OB20ExtraLengthField_def)
qed

subsection \<open>Reassembly\<close>

text \<open>
  A run of frames, each with its packet number, extra info and MySQL bytes, and the MySQL bytes
  they carry together.
\<close>

type_synonym segment = "byte \<times> OB20ExtraInfo list \<times> bytes"

abbreviation seg_data :: "segment \<Rightarrow> bytes" where
  "seg_data g \<equiv> snd (snd g)"

definition ob20_stream :: "packet_conn \<Rightarrow> segment list \<Rightarrow> bytes" where
  "ob20_stream s gs = concat (map (\<lambda>(n, infos, d). ob20_wire s n infos d) gs)"

definition seg_fits :: "segment \<Rightarrow> bool" where
  "seg_fits g \<longleftrightarrow> ob20_fits (fst (snd g)) (seg_data g)"

lemma ob20_stream_Cons [simp]:
  "ob20_stream s (g # gs) = ob20_wire s (fst g) (fst (snd g)) (seg_data g) @ ob20_stream s gs"
  by (simp add: ob20_stream_def split: prod.splits)

lemma ob20_stream_Nil [simp]: "ob20_stream s [] = []"
  by (simp add: ob20_stream_def)

lemma plain_frames_chunk:
  obtains chunk F where "plain_frames k p = mysql_frame k chunk @ F"
    and "length chunk \<le> maxPayloadLen"
    and "length p < maxPayloadLen \<Longrightarrow> chunk = p \<and> F = []"
    and "\<not> length p < maxPayloadLen \<Longrightarrow> length chunk = maxPayloadLen \<and> chunk = take maxPayloadLen p \<and>
      F = plain_frames (k + 1) (drop maxPayloadLen p)"
proof (cases "length p < maxPayloadLen")
  case True
  then show thesis by (intro that [of p "[]"]) (simp_all add: plain_frames.simps)
next
  case False
  then show thesis
    by (intro that [of "take maxPayloadLen p" "plain_frames (k + 1) (drop maxPayloadLen p)"])
      (simp_all add: plain_frames.simps [of k p])
qed

lemma mysql_len_append: "4 \<le> length buf \<Longrightarrow> mysql_len (buf @ r) = mysql_len buf"
  by (auto simp: mysql_len_def nth_append)

lemma length_last_le_concat:
  "gs \<noteq> [] \<Longrightarrow> length (seg_data (last gs)) \<le> length (concat (map seg_data gs))"
  by (induction gs) auto

lemma ReadPacket_loop_ob20_short:
  assumes "ob20 c" and "length (mysqlBuf c) < 4 \<or> length (mysqlBuf c) < 4 + mysql_len (mysqlBuf c)"
    and "readOB20Frame c = (Ok (), c')"
  shows "ReadPacket_loop zopen out c = ReadPacket_loop zopen out c'"
  using assms by (subst ReadPacket_loop.simps) (auto simp: Let_def)

lemma ReadPacket_loop_ob20_take:
  assumes "ob20 c" and "mysqlBuf c = mysql_frame k chunk @ buf" and "length chunk \<le> maxPayloadLen"
  shows "ReadPacket_loop zopen out c =
    (if length chunk < maxPayloadLen then (Ok (out @ chunk), c\<lparr>mysqlBuf := buf\<rparr>)
     else ReadPacket_loop zopen (out @ chunk) (c\<lparr>mysqlBuf := buf\<rparr>))"
proof -
  have "subslice 4 (4 + length chunk) (mysqlBuf c) = chunk"
    and "drop (4 + length chunk) (mysqlBuf c) = buf"
    by (simp_all add: assms(2) subslice_def mysql_frame_def)
  moreover have "mysql_len (mysqlBuf c) = length chunk" using assms by simp
  ultimately show ?thesis
    using assms(1,2) by (subst ReadPacket_loop.simps) (simp add: Let_def)
qed

lemma ReadPacket_loop_ob20:
  assumes "ob20 c" and "ob20Magic s = OB20MagicNum" and "\<forall>g \<in> set gs. seg_fits g"
    and "mysqlBuf c @ concat (map seg_data gs) = plain_frames k p @ left"
    and "gs = [] \<or> length left < length (seg_data (last gs))"
    and "rx c = ob20_stream s gs @ rest"
  shows "ReadPacket_loop zopen out c = (Ok (out @ p), c\<lparr>rx := rest, mysqlBuf := left\<rparr>)"
  using assms
proof (induction "length p + length gs" arbitrary: p gs c out k rule: less_induct)
  case less
  let ?D = "concat (map seg_data gs)" and ?buf = "mysqlBuf c"
  obtain chunk F where ch: "plain_frames k p = mysql_frame k chunk @ F" "length chunk \<le> maxPayloadLen"
    and fin: "length p < maxPayloadLen \<Longrightarrow> chunk = p \<and> F = []"
    and nofin: "\<not> length p < maxPayloadLen \<Longrightarrow> length chunk = maxPayloadLen \<and>
      chunk = take maxPayloadLen p \<and> F = plain_frames (k + 1) (drop maxPayloadLen p)"
    using plain_frames_chunk [of k p] by metis
  have whole: "?buf @ ?D = mysql_frame k chunk @ F @ left" using less.prems(4) ch(1) by simp
  show ?case
  proof (cases "4 + length chunk \<le> length ?buf")
    case True
    with whole obtain buf where buf: "?buf = mysql_frame k chunk @ buf" "buf @ ?D = F @ left"
      by (auto elim: append_eq_longer)
    note take = ReadPacket_loop_ob20_take [OF less.prems(1) buf(1) ch(2), of zopen out]
    show ?thesis
    proof (cases "length p < maxPayloadLen")
      case True
      then have "F = []" "chunk = p" using fin by auto
      with buf(2) less.prems(5) length_last_le_concat [of gs] have "gs = []"
        by (cases "gs = []") (auto dest!: arg_cong [where f = length])
      with True \<open>F = []\<close> \<open>chunk = p\<close> buf(2) less.prems(6) show ?thesis
        by (simp add: take)
    next
      case False
      then have "length (drop maxPayloadLen p) < length p" by (intro drop_max_shorter) simp
      with False less.prems buf(2) nofin show ?thesis
        by (simp add: take less.hyps [of "drop maxPayloadLen p" gs _ "k + 1"])
    qed
  next
    case False
    then have "gs \<noteq> []" using whole by (auto dest!: arg_cong [where f = length])
    then obtain g hs where gs: "gs = g # hs" by (cases gs) auto
    have short: "length ?buf < 4 \<or> length ?buf < 4 + mysql_len ?buf"
      using False whole mysql_len_append [of ?buf ?D] mysql_len_frame [OF ch(2), of k "F @ left"]
      by fastforce
    have "readOB20Frame c = (Ok (), c\<lparr>rx := ob20_stream s hs @ rest, mysqlBuf := ?buf @ seg_data g\<rparr>)"
      using less.prems gs by (intro readOB20Frame_ok) (auto simp: seg_fits_def)
    note step = ReadPacket_loop_ob20_short [OF less.prems(1) short this, of zopen out]
    show ?thesis
      unfolding step using less.prems gs
      by (subst less.hyps [of p hs _ k]) (auto split: if_splits)
  qed
qed

text \<open>
  C20: in OB20 mode \<open>ReadPacket\<close> returns a payload whenever the MySQL frames of that payload
  (16 MiB continuations included) follow in the buffered bytes and the coming OB20 frames, however
  they are cut into frames and whatever extra info and checksums the frames carry.  It consumes
  exactly the frames it needs, and keeps what lies beyond the payload for the next call.
\<close>

theorem ob20_reassembly:
  assumes "ob20 c" and "ob20Magic s = OB20MagicNum" and "\<forall>g \<in> set gs. seg_fits g"
    and "mysqlBuf c @ concat (map seg_data gs) = plain_frames k p @ left"
    and "gs = [] \<or> length left < length (seg_data (last gs))"
    and "rx c = ob20_stream s gs @ rest"
  shows "ReadPacket zopen c = (Ok p, c\<lparr>rx := rest, mysqlBuf := left\<rparr>)"
  using ReadPacket_loop_ob20 [OF assms, of zopen "[]"] by (simp add: ReadPacket_def)

text \<open>A client connection switched to OB20, as the handshake does it.\<close>

definition sample_ob20 :: "bytes \<Rightarrow> packet_conn" where
  "sample_ob20 incoming = EnableOB20 7 OB20MagicNum True False (NewPacketConn incoming EOF)"

lemma sample_ob20_simps [simp]:
  "ob20 (sample_ob20 b)" "ob20Magic (sample_ob20 b) = OB20MagicNum" "mysqlBuf (sample_ob20 b) = []"
  "rx (sample_ob20 b) = b" "tx (sample_ob20 b) = []" "txFail (sample_ob20 b) = []"
  "seq (sample_ob20 b) = 0" "extraInfos (sample_ob20 b) = []"
  by (simp_all add: sample_ob20_def EnableOB20_def NewPacketConn_def)

theorem ob20_reassembly_witness:
  "let gs = [(0, [\<lparr>Type = 2003, Data = [9]\<rparr>], [2, 0]), (1, [], [0, 4, 65, 66, 1, 0, 0])];
       c = sample_ob20 (ob20_stream (sample_ob20 []) gs)
   in ReadPacket (\<lambda>_. Err EOF) c = (Ok [65, 66], c\<lparr>rx := [], mysqlBuf := [1, 0, 0]\<rparr>)"
proof -
  let ?gs = "[(0, [\<lparr>Type = 2003, Data = [9]\<rparr>], [2, 0]), (1, [], [0, 4, 65, 66, 1, 0, 0])] :: segment list"
  have "plain_frames 4 [65, 66] = [2, 0, 0, 4, 65, 66]"
    by (simp add: plain_frames.simps maxPayloadLen_def mysql_frame_def wire_simps)
  moreover have "\<forall>g \<in> set ?gs. seg_fits g"
    by (simp add: seg_fits_def ob20_fits_def ob20_body_def extra_len_def OB20ExtraInfo_TotalLen_def
        OB20ExtraInfo_Encode_def)
  ultimately show ?thesis
    using ob20_reassembly [of "sample_ob20 (ob20_stream (sample_ob20 []) ?gs)" "sample_ob20 []" ?gs
        4 "[65, 66]" "[1, 0, 0]" "[]" "\<lambda>_. Err EOF"]
    by (simp add: Let_def)
qed

subsection \<open>The framing contract in OB20 mode\<close>

text \<open>
  The payloads the writer puts into one frame: below the chunk limit, and with the extra info of
  the connection within the three-byte length.
\<close>

definition ob20_valid :: "OB20ExtraInfo list \<Rightarrow> bytes \<Rightarrow> bool" where
  "ob20_valid infos p \<longleftrightarrow> length p < maxOB20Chunk \<and> ob20_fits infos (mysql_frame 0 p)"

definition ob20_synced :: "OB20ExtraInfo list \<Rightarrow> packet_conn \<Rightarrow> packet_conn \<Rightarrow> bool" where
  "ob20_synced infos s r \<longleftrightarrow>
     ob20 s \<and> ob20Magic s = OB20MagicNum \<and> extraInfos s = infos \<and> txFail s = [] \<and>
     ob20 r \<and> mysqlBuf r = []"

definition ob20_packet :: "packet_conn \<Rightarrow> bytes \<Rightarrow> bytes" where
  "ob20_packet s p = ob20_wire s (seq s) (extraInfos s) (mysql_frame (seq s) p)"

definition ob20_sent :: "packet_conn \<Rightarrow> bytes \<Rightarrow> packet_conn" where
  "ob20_sent s p = s\<lparr>tx := tx s @ ob20_packet s p, seq := seq s + 1\<rparr>"

lemma ob20_fits_seq: "ob20_fits infos (mysql_frame k p) \<longleftrightarrow> ob20_fits infos (mysql_frame 0 p)"
  by (simp add: ob20_fits_def ob20_body_def)

lemma WritePacket_ob20_small:
  assumes "ob20 c" and "txFail c = []" and "length p < maxOB20Chunk"
  shows "WritePacket deflate p c = (Ok (), ob20_sent c p)"
  using assms
  by (subst WritePacket.simps)
    (simp add: chunk_limit_def writeChunk_ob20 ob20_sent_def ob20_packet_def Let_def)

lemma ReadPacket_ob20_packet:
  assumes "ob20 r" and "mysqlBuf r = []" and "ob20Magic s = OB20MagicNum"
    and "ob20_fits (extraInfos s) (mysql_frame 0 p)" and "length p < maxPayloadLen"
    and "rx r = ob20_packet s p @ rest"
  shows "ReadPacket zopen r = (Ok p, r\<lparr>rx := rest\<rparr>)"
proof -
  have "plain_frames (seq s) p = mysql_frame (seq s) p"
    using assms(5) by (simp add: plain_frames.simps)
  then show ?thesis
    using ReadPacket_loop_ob20 [of r s "[(seq s, extraInfos s, mysql_frame (seq s) p)]" "seq s" p "[]"
        rest zopen "[]"] assms
    by (simp add: ReadPacket_def seg_fits_def ob20_packet_def ob20_fits_seq [of _ "seq s"])
qed

lemma maxOB20Chunk_less: "maxOB20Chunk < maxPayloadLen"
  by (simp add: maxOB20Chunk_def maxPayloadLen_def ob20_consts)

interpretation ob20f: packet_framing "WritePacket deflate" "ReadPacket zopen" "ob20_valid infos"
    "ob20_synced infos" ob20_packet ob20_sent for deflate zopen infos
proof (unfold_locales, goal_cases)
  case (1 s r p)
  then show ?case
    by (simp add: ob20_synced_def ob20_valid_def WritePacket_ob20_small) (simp add: ob20_sent_def)
next
  case (2 s r p rest)
  then have "ReadPacket zopen r = (Ok p, r\<lparr>rx := rest\<rparr>)"
    using maxOB20Chunk_less
    by (intro ReadPacket_ob20_packet [of _ s]) (auto simp: ob20_synced_def ob20_valid_def)
  with 2 show ?case by (simp add: ob20_synced_def ob20_sent_def)
next
  case (3 s r bs)
  then show ?case by (simp add: ob20_synced_def)
qed

text \<open>A frame whose magic number or three-byte length is wrong is refused.\<close>

lemma readOB20Frame_refused:
  assumes bad: "\<not> (ob20Magic s = OB20MagicNum \<and> ob20_fits infos d)"
    and len: "length (ob20_body infos d) + 28 < 2 ^ 32"
    and rx: "rx c = ob20_wire s n infos d @ rest"
  shows "\<exists>e c'. readOB20Frame c = (Err e, c')"
proof -
  define body where "body = ob20_body infos d"
  define h where "h = ob20_header_for s n body (ob20_flag s (extra_len infos))"
  obtain t where t: "length t = 2" "ob20_header_buf s h = header_fields h @ t"
    using ob20_header_buf_eq by blast
  have hd: "readFull TotalHeaderLen c =
      (Ok (header_fields h @ t), c\<lparr>rx := body @ ob20_trailer s body @ rest\<rparr>)"
    using rx t by (intro readFull_append) (simp_all add: TotalHeaderLen_def ob20_wire_def h_def body_def Let_def)
  show ?thesis
  proof (cases "OB20Header_Decode (header_fields h @ t)")
    case None
    then show ?thesis by (simp add: readOB20Frame_def hd)
  next
    case (Some g)
    then have "MagicNum h = OB20MagicNum" and pl: "PayloadLen g = PayloadLen h"
      and cl: "unat (CompressLength g) < 16777216"
      using t(1) unat_le24
      by (auto simp: OB20Header_Decode_def Let_def header_reads le_word_le_bytes_id split: if_splits)
    then have "\<not> ob20_fits infos d" using bad by (simp add: h_def ob20_header_for_def)
    then have big: "16777216 \<le> length body + 28" by (simp add: ob20_fits_def body_def)
    have "unat (PayloadLen h) = length body"
      using len by (simp add: h_def ob20_header_for_def body_def unat_of_nat_small)
    then have "OB20HeaderLen + unat (PayloadLen g) + OB20TailLen = length body + 28"
      unfolding pl by (simp add: ob20_consts)
    then have "unat (word_of_nat (OB20HeaderLen + unat (PayloadLen g) + OB20TailLen) :: u32) = length body + 28"
      using len by (simp only: body_def) (intro unat_of_nat_small, simp)
    with big cl have "CompressLength g \<noteq> word_of_nat (OB20HeaderLen + unat (PayloadLen g) + OB20TailLen)"
      by auto
    then show ?thesis by (simp add: readOB20Frame_def hd Some Let_def)
  qed
qed

lemma ReadPacket_ob20_refused:
  assumes "ob20 r" and "mysqlBuf r = []" and "rx r = ob20_packet s p @ rest"
    and "\<not> (ob20Magic s = OB20MagicNum \<and> ob20_fits (extraInfos s) (mysql_frame (seq s) p))"
    and "length (ob20_body (extraInfos s) (mysql_frame (seq s) p)) + 28 < 2 ^ 32"
  shows "\<exists>e r'. ReadPacket zopen r = (Err e, r')"
  using readOB20Frame_refused [OF assms(4,5) assms(3) [unfolded ob20_packet_def]] assms(1,2)
  by (auto simp: ReadPacket_def ReadPacket_loop.simps)

lemma send_all_ob20:
  assumes "ob20 s" and "txFail s = []" and "\<forall>p \<in> set ps. length p < maxOB20Chunk"
  shows "\<exists>s' v. send_all (WritePacket deflate) ps s = (Ok (), s') \<and> tx s' = tx s @ v"
  using assms
proof (induction ps arbitrary: s)
  case (Cons p ps)
  let ?s = "ob20_sent s p"
  have "ob20 ?s" "txFail ?s = []" "tx ?s = tx s @ ob20_packet s p"
    using Cons.prems by (simp_all add: ob20_sent_def)
  with Cons.IH [of ?s] Cons.prems show ?case
    using WritePacket_ob20_small [of s p deflate] by auto
qed simp

lemma recv_all_ob20_read:
  assumes "ob20 s" and "txFail s = []" and "ob20 r" and "mysqlBuf r = []"
    and "\<forall>p \<in> set ps. length p < maxOB20Chunk" and "extra_len (extraInfos s) < 2 ^ 31"
    and "tx (snd (send_all (WritePacket deflate) ps s)) = tx s @ rx r"
    and "fst (recv_all (ReadPacket zopen) (length ps) r) = Ok ps"
  shows "\<forall>p \<in> set ps. ob20Magic s = OB20MagicNum \<and> ob20_fits (extraInfos s) (mysql_frame 0 p)"
  using assms
proof (induction ps arbitrary: s r)
  case Nil
  then show ?case by simp
next
  case (Cons p ps)
  let ?s = "ob20_sent s p"
  have w: "WritePacket deflate p s = (Ok (), ?s)"
    using Cons.prems by (intro WritePacket_ob20_small) simp_all
  have s: "ob20 ?s" "txFail ?s = []" "extraInfos ?s = extraInfos s" "ob20Magic ?s = ob20Magic s"
    "tx ?s = tx s @ ob20_packet s p"
    using Cons.prems by (simp_all add: ob20_sent_def)
  obtain v where v: "tx (snd (send_all (WritePacket deflate) ps ?s)) = tx ?s @ v"
    using send_all_ob20 [OF s(1,2), of ps deflate] Cons.prems(5) by auto
  then have rx: "rx r = ob20_packet s p @ v" using Cons.prems(7) w s(5) by simp
  have small: "length (ob20_body (extraInfos s) (mysql_frame (seq s) p)) + 28 < 2 ^ 32"
    using Cons.prems(5,6) by (simp add: ob20_body_def maxOB20Chunk_def maxPayloadLen_def ob20_consts)
  have good: "ob20Magic s = OB20MagicNum \<and> ob20_fits (extraInfos s) (mysql_frame (seq s) p)"
    using ReadPacket_ob20_refused [OF Cons.prems(3,4) rx _ small, of zopen] Cons.prems(8) by fastforce
  have "ReadPacket zopen r = (Ok p, r\<lparr>rx := v\<rparr>)"
    using good Cons.prems rx maxOB20Chunk_less
    by (intro ReadPacket_ob20_packet [of _ s]) (simp_all add: ob20_fits_seq [of _ "seq s"])
  then have "fst (recv_all (ReadPacket zopen) (length ps) (r\<lparr>rx := v\<rparr>)) = Ok ps"
    using Cons.prems(8) by (auto simp: bind_st_def split: res.splits prod.splits)
  then have "\<forall>q \<in> set ps. ob20Magic ?s = OB20MagicNum \<and> ob20_fits (extraInfos ?s) (mysql_frame 0 q)"
    using Cons.prems s v by (intro Cons.IH [of ?s "r\<lparr>rx := v\<rparr>"]) simp_all
  with good s show ?case by (simp add: ob20_fits_seq [of _ "seq s"])
qed

text \<open>
  C11: over OceanBase 2.0 frames, with or without extra info and checksums, a sequence of payloads
  below the writer's chunk limit is written without error, and it is read back exactly as written,
  with no byte left, if and only if the connection uses the default magic number and every frame,
  extra info included, is within the three-byte length of the header.  The writer checks neither:
  it bounds the payload by the chunk limit and adds the extra info on top, so that a payload just
  below the limit of a connection with extra info is sent in a frame that no reader accepts.
\<close>

theorem ob20_session_roundtrip:
  assumes "ob20 s" and "txFail s = []" and "tx s = []" and "ob20 r" and "mysqlBuf r = []"
    and "\<forall>p \<in> set ps. length p < maxOB20Chunk" and "extra_len (extraInfos s) < 2 ^ 31"
    and "rx r = tx (snd (send_all (WritePacket deflate) ps s))"
  shows "fst (send_all (WritePacket deflate) ps s) = Ok () \<and>
    ((\<exists>r'. recv_all (ReadPacket zopen) (length ps) r = (Ok ps, r') \<and> rx r' = []) \<longleftrightarrow>
     (\<forall>p \<in> set ps. ob20Magic s = OB20MagicNum \<and> length (payload_buf s p) + 28 < 2 ^ 24))"
proof -
  have fits: "length (payload_buf s p) + 28 < 2 ^ 24 \<longleftrightarrow> ob20_fits (extraInfos s) (mysql_frame 0 p)" for p
    using assms(1) by (simp add: payload_buf_ob20 ob20_fits_def ob20_body_def)
  have sent: "fst (send_all (WritePacket deflate) ps s) = Ok ()"
    using send_all_ob20 [OF assms(1,2,6), of deflate] by auto
  moreover have "\<exists>r'. recv_all (ReadPacket zopen) (length ps) r = (Ok ps, r') \<and> rx r' = []"
    if "\<forall>p \<in> set ps. ob20Magic s = OB20MagicNum \<and> ob20_fits (extraInfos s) (mysql_frame 0 p)"
  proof (cases "ps = []")
    case True
    then show ?thesis using assms(3,8) by simp
  next
    case False
    then obtain p where "p \<in> set ps" by (cases ps) auto
    with that have "ob20_synced (extraInfos s) s r" using assms by (auto simp: ob20_synced_def)
    then show ?thesis
      using ob20f.session [of "extraInfos s" s r ps deflate zopen] that assms by (auto simp: ob20_valid_def)
  qed
  moreover have "\<forall>p \<in> set ps. ob20Magic s = OB20MagicNum \<and> ob20_fits (extraInfos s) (mysql_frame 0 p)"
    if "recv_all (ReadPacket zopen) (length ps) r = (Ok ps, r')" for r'
    using recv_all_ob20_read [of s r ps deflate zopen] assms that by simp
  ultimately show ?thesis unfolding fits by blast
qed

text \<open>A traced connection: three short payloads arrive, one just below the chunk limit does not.\<close>

definition traced_ob20 :: packet_conn where
  "traced_ob20 = (sample_ob20 [])\<lparr>extraInfos := [\<lparr>Type = 2003, Data = [9]\<rparr>]\<rparr>"

theorem ob20_session_roundtrip_witness:
  "let ps = [[0x0E], [3, 65], []]; big = replicate (maxOB20Chunk - 1) 0;
       r = (\<lambda>ps. sample_ob20 (tx (snd (send_all (WritePacket id) ps traced_ob20))))
   in (\<exists>r'. recv_all (ReadPacket (\<lambda>_. Err EOF)) 3 (r ps) = (Ok ps, r') \<and> rx r' = []) \<and>
      \<not> (\<exists>r'. recv_all (ReadPacket (\<lambda>_. Err EOF)) 1 (r [big]) = (Ok [big], r') \<and> rx r' = [])"
proof -
  let ?ps = "[[0x0E], [3, 65], []] :: bytes list" and ?big = "replicate (maxOB20Chunk - 1) 0 :: bytes"
  let ?r = "\<lambda>ps. sample_ob20 (tx (snd (send_all (WritePacket id) ps traced_ob20)))"
  have c: "ob20 traced_ob20" "txFail traced_ob20 = []" "tx traced_ob20 = []"
    "ob20Magic traced_ob20 = OB20MagicNum" "extra_len (extraInfos traced_ob20) = 7"
    by (simp_all add: traced_ob20_def extra_len_def OB20ExtraInfo_TotalLen_def)
  have len: "length (payload_buf traced_ob20 p) = 15 + length p" for p
    using c(5) by (simp add: payload_buf_ob20 c(1) ob20_body_def)
  have lim: "maxOB20Chunk = 16777183" by (simp add: maxOB20Chunk_def maxPayloadLen_def ob20_consts)
  have iff: "(\<exists>r'. recv_all (ReadPacket (\<lambda>_. Err EOF)) (length ps) (?r ps) = (Ok ps, r') \<and> rx r' = []) \<longleftrightarrow>
      (\<forall>p \<in> set ps. 43 + length p < 2 ^ 24)" if "\<forall>p \<in> set ps. length p < maxOB20Chunk" for ps
    using ob20_session_roundtrip [of traced_ob20 "?r ps" ps id "\<lambda>_. Err EOF"] that c len by simp
  have "\<exists>r'. recv_all (ReadPacket (\<lambda>_. Err EOF)) (length ?ps) (?r ?ps) = (Ok ?ps, r') \<and> rx r' = []"
    by (subst iff) (simp_all add: lim)
  moreover have "\<not> (\<exists>r'. recv_all (ReadPacket (\<lambda>_. Err EOF)) (length [?big]) (?r [?big]) = (Ok [?big], r') \<and> rx r' = [])"
    by (subst iff) (simp_all add: lim)
  moreover have "length ?ps = 3" "length [?big] = 1" by simp_all
  ultimately show ?thesis unfolding Let_def by (simp only: not_False_eq_True simp_thms)
qed

subsection \<open>Payloads beyond the chunk limit\<close>

lemma ob20_wire_nonempty [simp]: "ob20_wire s n infos d \<noteq> []"
proof -
  have "length (ob20_header_buf s h) = 31" for h by (simp add: ob20_header_buf_def Let_def)
  then show ?thesis by (metis append_is_Nil_conv list.size(3) ob20_wire_def zero_neq_numeral)
qed

text \<open>The first chunk goes out as a complete frame, and more bytes follow it.\<close>

lemma WritePacket_ob20_extends:
  assumes "ob20 c" and "txFail c = []"
  shows "\<exists>w c'. WritePacket deflate p c = (Ok (), c') \<and> w \<noteq> [] \<and> tx c' = tx c @ w \<and>
    (maxOB20Chunk \<le> length p \<longrightarrow>
      (\<exists>v. v \<noteq> [] \<and> w = ob20_packet c (take maxOB20Chunk p) @ v))"
  using assms
proof (induction deflate p c rule: WritePacket.induct)
  case (1 deflate p c)
  define c1 where "c1 = ob20_sent c (take maxOB20Chunk p)"
  have chunk: "writeChunk deflate (take (min (length p) maxOB20Chunk) p) c = (Ok (), c1)"
    using 1(2,3) by (simp add: c1_def ob20_sent_def ob20_packet_def writeChunk_ob20 min_def)
  have c1: "ob20 c1" "txFail c1 = []" "tx c1 = tx c @ ob20_packet c (take maxOB20Chunk p)"
    using 1(2,3) by (simp_all add: c1_def ob20_sent_def)
  have lim: "chunk_limit c = maxOB20Chunk" using 1(2) by (simp add: chunk_limit_def)
  have nonempty: "ob20_packet c q \<noteq> []" for q by (simp add: ob20_packet_def)
  let ?q = "drop maxOB20Chunk p"
  show ?case
  proof (cases "length p < maxOB20Chunk")
    case True
    then show ?thesis
      using WritePacket_ob20_small [OF 1(2,3), of p deflate] nonempty
      by (auto simp: ob20_sent_def)
  next
    case False
    have w: "WritePacket deflate p c =
        (if ?q = [] then writeEmptyContinuation c1 else WritePacket deflate ?q c1)"
      using False chunk by (subst WritePacket.simps) (simp add: lim Let_def min.absorb2)
    have "\<exists>v c'. (if ?q = [] then writeEmptyContinuation c1 else WritePacket deflate ?q c1) =
        (Ok (), c') \<and> v \<noteq> [] \<and> tx c' = tx c1 @ v"
    proof (cases "?q = []")
      case True
      then show ?thesis using c1 by (simp add: writeEmpty_ob20)
    next
      case q: False
      then show ?thesis
        using 1(1) [OF _ _ refl, of "min (length p) maxOB20Chunk"] False chunk c1
        by (fastforce simp: lim min_def)
    qed
    then show ?thesis unfolding w c1(3) using nonempty by auto
  qed
qed

text \<open>
  C24: a payload of more than \<open>maxOB20Chunk\<close> bytes is not recovered by the peer in OB20 mode.  The
  writer cuts it at \<open>maxOB20Chunk\<close>, which is below the length the MySQL layer takes as a sign
  that the packet continues, so \<open>ReadPacket\<close> returns the first chunk as the whole payload and the
  remaining bytes are left in the stream as the next packet.  A payload of exactly \<open>maxOB20Chunk\<close>
  bytes is returned whole, and the empty packet the writer appends is left in the stream.
\<close>

theorem ob20_large_payload_truncated:
  assumes "ob20_synced [] s r" and "tx s = []" and "maxOB20Chunk \<le> length p"
    and "rx r = tx (snd (WritePacket deflate p s))"
  shows "\<exists>r'. ReadPacket zopen r = (Ok (take maxOB20Chunk p), r') \<and> rx r' \<noteq> []"
proof -
  have s: "ob20 s" "txFail s = []" "extraInfos s = []" "ob20Magic s = OB20MagicNum"
    and r: "ob20 r" "mysqlBuf r = []"
    using assms(1) by (simp_all add: ob20_synced_def)
  obtain v where v: "v \<noteq> []" "rx r = ob20_packet s (take maxOB20Chunk p) @ v"
    using WritePacket_ob20_extends [OF s(1,2), of deflate p] assms(2-4) by auto
  have "length (take maxOB20Chunk p) = maxOB20Chunk" using assms(3) by simp
  moreover from this have "ob20_fits (extraInfos s) (mysql_frame 0 (take maxOB20Chunk p))"
    by (simp add: s ob20_fits_def ob20_body_def extra_len_def maxOB20Chunk_def maxPayloadLen_def
        ob20_consts)
  ultimately have "ReadPacket zopen r = (Ok (take maxOB20Chunk p), r\<lparr>rx := v\<rparr>)"
    using maxOB20Chunk_less r s v(2) by (intro ReadPacket_ob20_packet [of _ s]) simp_all
  with v(1) show ?thesis by simp
qed

theorem ob20_large_payload_truncated_witness:
  "let p = replicate (maxOB20Chunk + 1) 0; r = sample_ob20 (tx (snd (WritePacket id p (sample_ob20 []))))
   in \<exists>r'. ReadPacket (\<lambda>_. Err EOF) r = (Ok (replicate maxOB20Chunk 0), r') \<and> rx r' \<noteq> []"
proof -
  let ?p = "replicate (maxOB20Chunk + 1) 0 :: bytes"
  let ?r = "sample_ob20 (tx (snd (WritePacket id ?p (sample_ob20 []))))"
  have "ob20_synced [] (sample_ob20 []) ?r" by (simp add: ob20_synced_def)
  from ob20_large_payload_truncated [OF this, of ?p id "\<lambda>_. Err EOF"]
  show ?thesis by (simp add: Let_def min_def take_replicate del: replicate_Suc)
qed

end
