(* ===== verification/Conversation.thy ===== *)
theory Conversation
  imports Command_Frames Server_Messages Packet_OB20
begin

text \<open>
  Whole exchanges with a server.  The locale \<open>reply_stream\<close> is what the commands rely on of the packet
  layer: the packets the server sends are read one after the other.  It follows from the framing
  contract of \<open>Packet_Framing\<close>, so it holds for plain packets and for OceanBase 2.0 frames.  The lemmas
  of the locale follow the replies a server gives to a statement through the driver's code.
\<close>

subsection \<open>Reading only\<close>

definition only_read :: "conn \<Rightarrow> conn \<Rightarrow> bool" where
  "only_read c d \<longleftrightarrow> d = c\<lparr>packets := packets d\<rparr> \<and> rel_option read_only (packets c) (packets d)"

interpretation orf: state_frame only_read
proof
  show "only_read s s" for s by (cases "packets s") (simp_all add: only_read_def)
  have "rel_option read_only a d" if "rel_option read_only a b" and "rel_option read_only b d" for a b d
    using that by (cases a; cases b; cases d) (auto intro: ro.trans)
  then show "only_read s u" if "only_read s t" and "only_read t u" for s t u
    using that unfolding only_read_def by (metis conn.update_convs(2) conn.surjective conn.select_convs(2))
qed

lemma only_read_fields:
  assumes "only_read c d"
  shows "cfg d = cfg c" "deprecateEOF d = deprecateEOF c" "sessionTrack d = sessionTrack c" "tenantMode d = tenantMode c"
    "sessionLocation d = sessionLocation c" "closed d = closed c" "bad d = bad c" "inTx d = inTx c" "locked d = locked c"
    "netConn d = netConn c"
proof -
  from assms obtain pk where "d = c\<lparr>packets := pk\<rparr>" by (auto simp: only_read_def)
  then show "cfg d = cfg c" "deprecateEOF d = deprecateEOF c" "sessionTrack d = sessionTrack c" "tenantMode d = tenantMode c"
    "sessionLocation d = sessionLocation c" "closed d = closed c" "bad d = bad c" "inTx d = inTx c" "locked d = locked c"
    "netConn d = netConn c"
    by simp_all
qed

subsection \<open>Reading all rows\<close>

lemma nextStreaming_unread: "nextStreaming z pf (r, c) = (Ok row, (r', c')) \<Longrightarrow> conn_unread_less c c' \<and> r' = r"
  by (auto simp: nextStreaming_def split: if_splits prod.splits res.splits intro: read_marked_unread)

text \<open>
  The loop of a client over \<open>Rows.Next\<close>: the rows, and the error that ended them (none when a call
  panicked).  It always ends: a streaming result set takes a packet off the stream with every row,
  a buffered one moves its position.
\<close>

function fetch :: "zlib \<Rightarrow> (string \<Rightarrow> u64 option) \<Rightarrow> rows \<times> conn \<Rightarrow> (gval list list \<times> go_error option) \<times> rows \<times> conn" where
  "fetch z pf rc =
     (case Rows_Next z pf rc of
        (Ok row, rc1) \<Rightarrow> (case fetch z pf rc1 of ((rows, e), rc2) \<Rightarrow> ((row # rows, e), rc2))
      | (Err e, rc1) \<Rightarrow> (([], Some e), rc1)
      | (Panic, rc1) \<Rightarrow> (([], None), rc1))"
  by pat_completeness auto
termination
proof (relation "inv_image ((less_than <*lex*> less_than) <*lex*> less_than)
    (\<lambda>(z, pf, rc). (unread_size (snd rc), length (rValues (fst rc)) - rPos (fst rc)))", goal_cases)
  case 1
  show ?case by auto
next
  case (2 z pf rc x rc1 row)
  obtain r c where rc: "rc = (r, c)" by fastforce
  obtain r1 c1 where rc1: "rc1 = (r1, c1)" by fastforce
  show ?case
  proof (cases "rStreaming r")
    case True
    with 2 rc rc1 have "nextStreaming z pf (r, c) = (Ok row, (r1, c1))" by (simp add: Rows_Next_def)
    from nextStreaming_unread [OF this] have "(unread_size c1, unread_size c) \<in> less_than <*lex*> less_than"
      using unread_size_less by blast
    then show ?thesis by (simp add: rc rc1)
  next
    case False
    with 2 rc rc1 show ?thesis by (auto simp: Rows_Next_def split: if_splits)
  qed
qed

declare fetch.simps [simp del]

subsection \<open>Replies\<close>

locale reply_stream =
  fixes z :: zlib and pending :: "packet_conn \<Rightarrow> bytes list \<Rightarrow> bytes \<Rightarrow> bool"
  assumes next_packet: "pending p (b # bs) rest \<Longrightarrow> \<exists>p'. ReadPacket (zlibOpen z) p = (Ok b, p') \<and> pending p' bs rest"
begin

definition awaits :: "conn \<Rightarrow> bytes list \<Rightarrow> bytes \<Rightarrow> bool" where
  "awaits c bs rest \<longleftrightarrow> (\<exists>p. packets c = Some p \<and> pending p bs rest)"

text \<open>\<open>answers m c x ps rest\<close>: the call \<open>m\<close> only reads, returns \<open>x\<close> and leaves the packets \<open>ps\<close>.\<close>

definition answers :: "'a cst \<Rightarrow> conn \<Rightarrow> 'a \<Rightarrow> bytes list \<Rightarrow> bytes \<Rightarrow> bool" where
  "answers m c x bs rest \<longleftrightarrow> (\<exists>c'. m c = (Ok x, c') \<and> awaits c' bs rest \<and> only_read c c')"

lemma answersE:
  assumes "answers m c x bs rest"
  obtains c' where "m c = (Ok x, c')" and "awaits c' bs rest" and "only_read c c'"
  using assms by (auto simp: answers_def)

lemma answers_bind:
  assumes "answers m c x bs rest"
    and "\<And>c'. m c = (Ok x, c') \<Longrightarrow> awaits c' bs rest \<Longrightarrow> only_read c c' \<Longrightarrow> answers (f x) c' y bs' rest'"
  shows "answers (bind_st m f) c y bs' rest'"
proof -
  from assms(1) obtain c' where c': "m c = (Ok x, c')" "awaits c' bs rest" "only_read c c'" by (rule answersE)
  from assms(2) [OF this] show ?thesis
    using c' orf.trans by (auto simp: answers_def)
qed

lemma answers_return: "awaits c bs rest \<Longrightarrow> answers (return_st x) c x bs rest"
  by (simp add: answers_def)

lemma answers_on_error: "answers m c x bs rest \<Longrightarrow> answers (on_error mark m) c x bs rest"
  by (auto simp: answers_def on_error_Ok)

lemma answers_lift: "awaits c bs rest \<Longrightarrow> r = Ok x \<Longrightarrow> answers (lift_res r) c x bs rest"
  by (simp add: answers_def lift_res_def)

lemma read_next:
  assumes "awaits c (b # bs) rest"
  shows "answers (read_marked z) c b bs rest"
proof -
  from assms obtain p where p: "packets c = Some p" and "pending p (b # bs) rest" by (auto simp: awaits_def)
  from next_packet [OF this(2)] obtain p' where r: "ReadPacket (zlibOpen z) p = (Ok b, p')" and p': "pending p' bs rest" by blast
  have "read_only p p'" using withinD [OF ReadPacket_read_only r] .
  with p r p' show ?thesis
    by (auto simp: answers_def read_marked_def on_error_Ok conn_read_def on_packets_def awaits_def only_read_def)
qed

lemma columns_read:
  assumes "list_all2 (\<lambda>b cd. parseColumnDefinition b = Ok cd) defs cds" and "awaits c (defs @ bs) rest"
  shows "answers (read_columns z (length cds)) c cds bs rest"
  using assms
proof (induction defs cds arbitrary: c rule: list_all2_induct)
  case Nil
  then show ?case by (simp add: answers_def)
next
  case (Cons b defs cd cds)
  have tail: "answers (read_columns z (length cds)) c' cds bs rest" if "awaits c' (defs @ bs) rest" for c'
    using Cons.IH that by blast
  have "awaits c (b # defs @ bs) rest" using Cons.prems by simp
  from read_next [OF this] show ?case
    unfolding length_Cons read_columns.simps
    by (rule answers_bind)
      (rule answers_bind [OF answers_on_error [OF answers_lift]], assumption, rule Cons.hyps(1),
       rule answers_bind [OF tail], assumption, erule answers_return)
qed

lemma mode_read:
  assumes "awaits c ((if deprecateEOF c then [] else [eof_packet 0 st]) @ bs) rest"
  shows "answers (metadata_mode z) c (deprecateEOF c) bs rest"
proof (cases "deprecateEOF c")
  case True
  with assms show ?thesis by (simp add: answers_def metadata_mode_def)
next
  case False
  with assms have "awaits c (eof_packet 0 st # bs) rest" by simp
  from read_next [OF this] obtain c' where c': "read_marked z c = (Ok (eof_packet 0 st), c')" "awaits c' bs rest" "only_read c c'"
    by (rule answersE)
  then show ?thesis
    using False by (auto simp: answers_def metadata_mode_def readResultSetTerminatorPacket_def packet_bytes)
qed

definition text_rows :: "conn \<Rightarrow> server_column list \<Rightarrow> rows" where
  "text_rows c cols =
     zero_rows\<lparr>rConn := True, rColDefs := map snd cols, rColumns := map (cdName \<circ> snd) cols, rTypes := map (cdTyp \<circ> snd) cols,
       rStreaming := True, rResultSetOK := deprecateEOF c, rSessionTrack := sessionTrack c,
       rSessionLocation := sessionLocation c\<rparr>"

lemma result_read:
  assumes cols: "valid_columns cols" and "awaits c (header_packets (deprecateEOF c) cols st @ bs) rest"
  shows "answers (readQueryResult z) c (text_rows c cols) bs rest"
proof -
  let ?first = "PutLengthEncodedInt [] (word_of_nat (length cols))"
  let ?mode = "if deprecateEOF c then [] else [eof_packet 0 st]"
  have "0 < length cols" and "length cols \<le> maxResultColumns" using cols by (auto simp: valid_columns_def)
  note count = count_packet [OF this]
  have "awaits c (?first # map column_packet cols @ ?mode @ bs) rest" using assms(2) by (simp add: header_packets_def)
  from read_next [OF this] obtain c1 where c1: "read_marked z c = (Ok ?first, c1)"
    "awaits c1 (map column_packet cols @ ?mode @ bs) rest" "only_read c c1" by (rule answersE)
  have "list_all2 (\<lambda>b cd. parseColumnDefinition b = Ok cd) (map column_packet cols) (map snd cols)"
    using cols by (auto simp: valid_columns_def list_all_iff list_all2_conv_all_nth column_roundtrip)
  from columns_read [OF this c1(2)] obtain c2 where c2: "read_columns z (length cols) c1 = (Ok (map snd cols), c2)"
    "awaits c2 (?mode @ bs) rest" "only_read c1 c2" by (auto elim: answersE)
  have fields: "deprecateEOF c2 = deprecateEOF c" "only_read c c2"
    using only_read_fields c1(3) c2(3) orf.trans by auto
  have "awaits c2 ((if deprecateEOF c2 then [] else [eof_packet 0 st]) @ bs) rest" using c2(2) fields by simp
  from mode_read [OF this] obtain c3 where c3: "metadata_mode z c2 = (Ok (deprecateEOF c), c3)" "awaits c3 bs rest" "only_read c2 c3"
    using fields by (auto elim: answersE)
  have "only_read c c3" using fields(2) c3(3) by (rule orf.trans)
  with c1 c2 c3 count \<open>length cols \<le> maxResultColumns\<close> only_read_fields [OF this] show ?thesis
    by (simp add: answers_def readQueryResult_def on_error_def lift_res_def text_rows_def)
qed

text \<open>
  Reading a result set whose rows arrive as the packets \<open>pkt row\<close>, each parsed to \<open>row\<close> and taken
  neither for the end of the result set nor for an error.
\<close>

lemma fetch_packets:
  assumes "rStreaming r" and "\<not> rDone r" and "st AND ServerMoreResultsExists = 0"
    and rows: "\<And>row. row \<in> set rows \<Longrightarrow> parse_row pf r (pkt row) = Ok (val row) \<and> pkt row ! 0 \<noteq> ErrPacket \<and>
      \<not> isResultSetTerminatorForMode (pkt row) (rResultSetOK r) (rSessionTrack r)"
    and "awaits c (map pkt rows @ end_packet (rResultSetOK r) st # bs) rest"
  shows "\<exists>c'. fetch z pf (r, c) = ((map val rows, Some EOF), rows_finish (r, c')) \<and> awaits c' bs rest \<and> only_read c c'"
  using rows assms(5)
proof (induction rows arbitrary: c)
  case Nil
  then have "awaits c (end_packet (rResultSetOK r) st # bs) rest" by simp
  from read_next [OF this] obtain c' where c': "read_marked z c = (Ok (end_packet (rResultSetOK r) st), c')"
    "awaits c' bs rest" "only_read c c'" by (rule answersE)
  have "isResultSetTerminator r (end_packet (rResultSetOK r) st)"
    and "\<not> resultSetTerminatorHasMoreResults (end_packet (rResultSetOK r) st) (rSessionTrack r)"
    using end_packet_terminator assms(3) by (simp_all add: isResultSetTerminator_def isResultSetTerminatorForMode_def)
  then have "Rows_Next z pf (r, c) = (Err EOF, rows_finish (r, c'))"
    using assms(1,2) c' by (simp add: Rows_Next_def nextStreaming_def del: rows_finish.simps)
  with c' show ?case by (auto simp: fetch.simps [of z pf "(r, c)"] simp del: rows_finish.simps)
next
  case (Cons row rows)
  then have "awaits c (pkt row # map pkt rows @ end_packet (rResultSetOK r) st # bs) rest" by simp
  from read_next [OF this] obtain c1 where c1: "read_marked z c = (Ok (pkt row), c1)"
    "awaits c1 (map pkt rows @ end_packet (rResultSetOK r) st # bs) rest" "only_read c c1" by (rule answersE)
  have "Rows_Next z pf (r, c) = (Ok (val row), (r, c1))"
    using assms(1,2) c1 Cons.prems(1) [of row]
    by (simp add: Rows_Next_def nextStreaming_def isResultSetTerminator_def isResultSetTerminatorForMode_def)
  moreover from Cons.IH [OF _ c1(2)] Cons.prems obtain c' where
    "fetch z pf (r, c1) = ((map val rows, Some EOF), rows_finish (r, c'))" "awaits c' bs rest" "only_read c1 c'" by auto
  ultimately show ?case
    using orf.trans [OF c1(3)] by (auto simp: fetch.simps [of z pf "(r, c)"] simp del: rows_finish.simps split: prod.splits)
qed

lemma fetch_rows:
  assumes "rStreaming r" and "\<not> rDone r" and "\<not> rBinary r" and "rTypes r \<noteq> []" and "length (rColumns r) = length (rTypes r)"
    and "list_all (valid_row (rTypes r)) rows" and "st AND ServerMoreResultsExists = 0"
    and "awaits c (row_packets (rResultSetOK r) rows st @ bs) rest"
  shows "\<exists>c'. fetch z pf (r, c) = ((rows, Some EOF), rows_finish (r, c')) \<and> awaits c' bs rest \<and> only_read c c'"
proof -
  have "parse_row pf r (text_row row) = Ok row \<and> text_row row ! 0 \<noteq> ErrPacket \<and>
      \<not> isResultSetTerminatorForMode (text_row row) (rResultSetOK r) (rSessionTrack r)" if "row \<in> set rows" for row
  proof -
    have "valid_row (rTypes r) row" using that assms(6) by (simp add: list_all_iff)
    with valid_row_data [OF this assms(4)] valid_row_parses [OF this] assms(3,5) show ?thesis by (simp add: parse_row_def)
  qed
  from fetch_packets [OF assms(1,2,7), of rows pf text_row "\<lambda>row. row", OF this] assms(8) show ?thesis
    by (simp add: row_packets_def)
qed

text \<open>The same for the binary protocol.\<close>

lemma fetch_binary_rows:
  assumes "rStreaming r" and "\<not> rDone r" and "rBinary r" and "length (rColumns r) = length (rTypes r)"
    and "list_all (fits_types (rTypes r)) rows" and "st AND ServerMoreResultsExists = 0"
    and "awaits c (map encode_binary_row rows @ end_packet (rResultSetOK r) st # bs) rest"
  shows "\<exists>c'. fetch z pf (r, c) = ((map decoded_row rows, Some EOF), rows_finish (r, c')) \<and> awaits c' bs rest \<and> only_read c c'"
proof -
  have "parse_row pf r (encode_binary_row row) = Ok (decoded_row row) \<and> encode_binary_row row ! 0 \<noteq> ErrPacket \<and>
      \<not> isResultSetTerminatorForMode (encode_binary_row row) (rResultSetOK r) (rSessionTrack r)" if "row \<in> set rows" for row
    using that assms(3-5) binary_row_data [of row]
    by (simp add: list_all_iff parse_row_def binary_row_parses)
  from fetch_packets [OF assms(1,2,6), of rows pf encode_binary_row decoded_row, OF this] assms(7) show ?thesis by simp
qed

lemma exec_reply:
  assumes "st AND (ServerSessionStateChanged OR ServerMoreResultsExists) = 0"
    and "awaits c (ok_packet OKPacket a i st w info # bs) rest"
  shows "answers (bind_st (read_marked z) (readResultFromFirstPacket z)) c \<lparr>affectedRows = sint a, lastInsertID = sint i\<rparr> bs rest"
proof -
  have st: "st AND ServerSessionStateChanged = 0" "st AND ServerMoreResultsExists = 0"
    using assms(1) by (simp_all add: bit.conj_disj_distrib or_eq_0_iff)
  show ?thesis
  proof (rule answers_bind [OF read_next [OF assms(2)]])
    fix c' assume "awaits c' bs rest"
    then show "answers (readResultFromFirstPacket z (ok_packet OKPacket a i st w info)) c' \<lparr>affectedRows = sint a, lastInsertID = sint i\<rparr> bs rest"
      using handleOK_plain [OF st(1)] st(2) by (simp add: answers_def readResultFromFirstPacket_def on_error_def)
  qed
qed

end

end
