(* ===== verification/Exchanges.thy ===== *)
theory Exchanges
  imports Conversation
begin

text \<open>
  Statements from the request to the last packet of the reply.  \<open>server_sends\<close> says that the bytes to
  be read are those of a list of packets, in plain framing or in OceanBase 2.0 frames; it is the
  instance of \<open>reply_stream\<close> the properties rest on.
\<close>

subsection \<open>What the server sends\<close>

fun plain_stream :: "byte \<Rightarrow> bytes list \<Rightarrow> bytes" where
  "plain_stream s [] = []"
| "plain_stream s (b # bs) = plain_frames s b @ plain_stream (s + word_of_nat (plain_count b)) bs"

definition plain_sends :: "packet_conn \<Rightarrow> bytes list \<Rightarrow> bytes \<Rightarrow> bool" where
  "plain_sends p bs rest \<longleftrightarrow> \<not> ob20 p \<and> \<not> compressed p \<and> rx p = plain_stream (seq p) bs @ rest"

definition ob20_sends :: "packet_conn \<Rightarrow> bytes list \<Rightarrow> bytes \<Rightarrow> bool" where
  "ob20_sends p bs rest \<longleftrightarrow>
     (\<exists>infos s. ob20_synced infos s p \<and> list_all (ob20_valid infos) bs \<and> rx p = wires ob20_packet ob20_sent s bs @ rest)"

definition server_sends :: "packet_conn \<Rightarrow> bytes list \<Rightarrow> bytes \<Rightarrow> bool" where
  "server_sends p bs rest \<longleftrightarrow> plain_sends p bs rest \<or> ob20_sends p bs rest"

interpretation sv: reply_stream z server_sends for z
proof
  fix p b bs rest
  assume "server_sends p (b # bs) rest"
  then have "plain_sends p (b # bs) rest \<or> ob20_sends p (b # bs) rest" by (simp only: server_sends_def)
  then show "\<exists>p'. ReadPacket (zlibOpen z) p = (Ok b, p') \<and> server_sends p' bs rest"
  proof
    assume "plain_sends p (b # bs) rest"
    then have "ReadPacket (zlibOpen z) p =
        (Ok b, p\<lparr>rx := plain_stream (seq p + word_of_nat (plain_count b)) bs @ rest, seq := seq p + word_of_nat (plain_count b)\<rparr>)"
      and "\<not> ob20 p" "\<not> compressed p"
      by (auto simp: plain_sends_def ReadPacket_def ReadPacket_loop_plain)
    then show ?thesis unfolding server_sends_def by (auto simp: plain_sends_def)
  next
    assume "ob20_sends p (b # bs) rest"
    then obtain infos s where s: "ob20_synced infos s p" "ob20_valid infos b" "list_all (ob20_valid infos) bs"
      "rx p = ob20_packet s b @ wires ob20_packet ob20_sent (ob20_sent s b) bs @ rest"
      by (auto simp: ob20_sends_def)
    from ob20f.recv_ok [OF s(1,2,4)] s(3) show ?thesis
      unfolding server_sends_def ob20_sends_def by blast
  qed
qed

lemma server_sends_Nil: "server_sends p [] rest \<Longrightarrow> rx p = rest"
  by (auto simp: server_sends_def plain_sends_def ob20_sends_def)

subsection \<open>Requests\<close>

text \<open>The packet layer with the extra info of a context.\<close>

definition extra_for :: "go_ctx \<Rightarrow> packet_conn \<Rightarrow> packet_conn" where
  "extra_for ctx p =
     (let p1 = ClearExtraInfo p;
          p2 = (case ctxPartitionID ctx of
                  Some i \<Rightarrow> AddExtraInfo OB20ExtraInfoTypePartitionID (rev (le_bytes 8 (word_of_int i :: u64))) p1
                | None \<Rightarrow> p1)
      in if ctxTraceID ctx \<noteq> None \<or> ctxSpanID ctx \<noteq> None then
           AddExtraInfo OB20ExtraInfoTypeFullTrace
             (BuildFLTExtraInfo (bytes_of (fst (traceIDFromContext ctx))) (bytes_of (fst (spanIDFromContext ctx)))) p2
         else p2)"

lemma setupExtraInfo_eq:
  assumes "packets c = Some p"
  shows "setupExtraInfo ctx c = (Ok (), c\<lparr>packets := Some (extra_for ctx p)\<rparr>)"
  using assms
  by (auto simp: setupExtraInfo_def extra_for_def on_packets_def partitionIDFromContext_def traceIDFromContext_def
      spanIDFromContext_def Let_def split: option.splits)

text \<open>The request goes out and the server answers it with the packets \<open>bs\<close>.\<close>

definition replies :: "zlib \<Rightarrow> go_ctx \<Rightarrow> bytes \<Rightarrow> packet_conn \<Rightarrow> bytes list \<Rightarrow> bytes \<Rightarrow> bool" where
  "replies z ctx payload p bs rest \<longleftrightarrow>
     (\<exists>p'. WritePacket (zlibDeflate z) payload (NextRequest (ResetSequence (extra_for ctx p))) = (Ok (), p') \<and>
           server_sends p' bs rest)"

text \<open>A connection that can be used: valid, and no call that sets a deadline will fail.\<close>

definition ready :: "conn \<Rightarrow> packet_conn \<Rightarrow> bool" where
  "ready c p \<longleftrightarrow>
     IsValid c \<and> packets c = Some p \<and> cfg c \<noteq> None \<and>
     (\<exists>n. netConn c = Some n \<and> list_all ((=) None) (deadlineErrs n))"

definition keeps_zone :: "conn \<Rightarrow> string \<Rightarrow> bool" where
  "keeps_zone c query \<longleftrightarrow>
     tenantMode c = ''mysql'' \<or>
     sessionTimeZoneAssignmentFromQuery query = None \<and> \<not> isSessionTimeZoneMutation query"

lemma keeps_zone_update:
  "keeps_zone c query \<Longrightarrow> tenantMode d = tenantMode c \<Longrightarrow> updateSessionTimeZoneFromQuery query args d = (Ok (), d)"
  by (auto simp: keeps_zone_def updateSessionTimeZoneFromQuery_def)

text \<open>The error a call returns when its context has one of its own.\<close>

definition ctx_outcome :: "go_ctx \<Rightarrow> 'a res \<times> conn \<Rightarrow> 'a res \<times> conn" where
  "ctx_outcome ctx rc =
     (case rc of
        (Err e, c) \<Rightarrow> (case ctxErr ctx of Some e' \<Rightarrow> (Err e', c\<lparr>bad := True\<rparr>) | None \<Rightarrow> (Err e, c))
      | _ \<Rightarrow> rc)"

lemma ctx_outcome_simps [simp]:
  "ctx_outcome ctx (Ok x, c) = (Ok x, c)" "ctxErr ctx = None \<Longrightarrow> ctx_outcome ctx rc = rc"
  by (auto simp: ctx_outcome_def split: prod.splits res.splits)

lemma withDeadline_runs:
  assumes "ready c p"
  shows "\<exists>n. withDeadline ctx fn c = ctx_outcome ctx (fn (c\<lparr>netConn := Some n\<rparr>))"
proof -
  from assms obtain n conf where n: "netConn c = Some n" "list_all ((=) None) (deadlineErrs n)" "cfg c = Some conf"
    by (auto simp: ready_def)
  then have b: "needs_deadline ctx c = (Ok (ctxDeadline ctx \<or> 0 < Timeout conf), c)" by (simp add: needs_deadline_def)
  have same: "c\<lparr>netConn := Some n\<rparr> = c" using n(1) by (cases c) simp
  have out: "(case fn d of
         (Err e, c') \<Rightarrow> (case ctxErr ctx of Some ctxE \<Rightarrow> (Err ctxE, c'\<lparr>bad := True\<rparr>) | None \<Rightarrow> (Err e, c'))
       | r \<Rightarrow> r) = ctx_outcome ctx (fn d)" for d
    by (auto simp: ctx_outcome_def split: prod.splits res.splits)
  show ?thesis
  proof (cases "ctxDeadline ctx \<or> 0 < Timeout conf")
    case False
    with b have "withDeadline ctx fn c = ctx_outcome ctx (fn c)" by (simp add: withDeadline_def bind_st_def out)
    then show ?thesis using same by (intro exI [of _ n]) simp
  next
    case True
    have "\<exists>n'. SetDeadline c = (Ok (), c\<lparr>netConn := Some n'\<rparr>)"
    proof (cases "deadlineErrs n")
      case Nil
      with n(1) same show ?thesis by (intro exI [of _ n]) (simp add: SetDeadline_def)
    next
      case (Cons e es)
      with n(1,2) show ?thesis by (intro exI [of _ "n\<lparr>deadlineErrs := es\<rparr>"]) (auto simp: SetDeadline_def)
    qed
    then obtain n' where "SetDeadline c = (Ok (), c\<lparr>netConn := Some n'\<rparr>)" ..
    with b True have "withDeadline ctx fn c = ctx_outcome ctx (fn (c\<lparr>netConn := Some n'\<rparr>))" by (simp add: withDeadline_def bind_st_def out)
    then show ?thesis ..
  qed
qed

lemma withDeadline_ready:
  assumes "ready c p" and "\<And>n. \<exists>d. fn (c\<lparr>netConn := Some n\<rparr>) = (Ok x, d) \<and> P d"
  shows "\<exists>d. withDeadline ctx fn c = (Ok x, d) \<and> P d"
proof -
  from withDeadline_runs [OF assms(1)] obtain n where "withDeadline ctx fn c = ctx_outcome ctx (fn (c\<lparr>netConn := Some n\<rparr>))" ..
  moreover from assms(2) obtain d where "fn (c\<lparr>netConn := Some n\<rparr>) = (Ok x, d)" "P d" by blast
  ultimately show ?thesis by simp
qed

text \<open>Only the socket and the packet layer change.\<close>

definition same_session :: "conn \<Rightarrow> conn \<Rightarrow> bool" where
  "same_session c d \<longleftrightarrow> d = c\<lparr>netConn := netConn d, packets := packets d\<rparr>"

lemma same_sessionI: "d = c\<lparr>netConn := n, packets := pk\<rparr> \<Longrightarrow> same_session c d"
  by (simp add: same_session_def)

lemma same_session_fields:
  assumes "same_session c d"
  shows "IsValid d \<longleftrightarrow> IsValid c" "locked d = locked c" "inTx d = inTx c" "tenantMode d = tenantMode c"
    "sessionLocation d = sessionLocation c" "deprecateEOF d = deprecateEOF c" "sessionTrack d = sessionTrack c"
proof -
  from assms obtain n pk where "d = c\<lparr>netConn := n, packets := pk\<rparr>" by (auto simp: same_session_def)
  then show "IsValid d \<longleftrightarrow> IsValid c" "locked d = locked c" "inTx d = inTx c" "tenantMode d = tenantMode c"
    "sessionLocation d = sessionLocation c" "deprecateEOF d = deprecateEOF c" "sessionTrack d = sessionTrack c"
    by (simp_all add: IsValid_def)
qed

lemma same_session_trans: "same_session c d \<Longrightarrow> same_session d e \<Longrightarrow> same_session c e"
  unfolding same_session_def by (metis (no_types, lifting) conn.surjective conn.update_convs(1) conn.update_convs(2))

lemma only_read_session: "only_read c d \<Longrightarrow> same_session c d"
  by (auto simp: only_read_def intro: same_sessionI [of _ _ "netConn c"])

lemma ready_extra: "ready c p \<Longrightarrow> ready (c\<lparr>packets := Some q\<rparr>) q"
  by (simp add: ready_def IsValid_def)

lemma writeQuery_request:
  assumes "packets c = Some p" and "WritePacket (zlibDeflate z) (ComQuery # bytes_of query) (NextRequest (ResetSequence p)) = (Ok (), p')"
  shows "writeQuery z query c = (Ok (), c\<lparr>packets := Some p'\<rparr>)"
  using assms by (simp add: writeQuery_def new_command_def conn_write_def on_packets_def)

text \<open>The common part of \<open>execLocked\<close> and \<open>queryLocked\<close>: send, read the reply, follow the time zone.\<close>

lemma statement_exchange:
  assumes "ready c p" and "keeps_zone c query"
    and "WritePacket (zlibDeflate z) (ComQuery # bytes_of query) (NextRequest (ResetSequence p)) = (Ok (), p')"
    and reply: "\<And>d. packets d = Some p' \<Longrightarrow> same_session c d \<Longrightarrow> sv.answers (rd :: 'a cst) d x bs rest"
  shows "\<exists>d. withDeadline ctx (bind_st (writeQuery z query) (\<lambda>_. bind_st rd (\<lambda>res.
        bind_st (updateSessionTimeZoneFromQuery query []) (\<lambda>_. return_st res)))) c = (Ok x, d) \<and>
      (\<exists>q. packets d = Some q \<and> server_sends q bs rest \<and> read_only p' q) \<and> same_session c d"
proof (rule withDeadline_ready [OF assms(1)])
  fix n
  let ?d = "c\<lparr>netConn := Some n, packets := Some p'\<rparr>"
  have w: "writeQuery z query (c\<lparr>netConn := Some n\<rparr>) = (Ok (), ?d)"
    using writeQuery_request [of "c\<lparr>netConn := Some n\<rparr>" p z query p'] assms(1,3) by (simp add: ready_def)
  have "same_session c ?d" by (rule same_sessionI) (rule HOL.refl)
  with reply [of ?d] obtain d where d: "rd ?d = (Ok x, d)" "sv.awaits d bs rest" "only_read ?d d"
    by (auto elim: sv.answersE)
  have sd: "same_session c d" using same_session_trans \<open>same_session c ?d\<close> only_read_session [OF d(3)] by blast
  have "updateSessionTimeZoneFromQuery query [] d = (Ok (), d)"
    by (rule keeps_zone_update [OF assms(2) same_session_fields(4) [OF sd]])
  moreover have "\<exists>q. packets d = Some q \<and> server_sends q bs rest \<and> read_only p' q"
    using d(2,3) by (auto simp: sv.awaits_def only_read_def)
  ultimately show "\<exists>d. bind_st (writeQuery z query) (\<lambda>_. bind_st rd (\<lambda>res.
        bind_st (updateSessionTimeZoneFromQuery query []) (\<lambda>_. return_st res))) (c\<lparr>netConn := Some n\<rparr>) = (Ok x, d) \<and>
      (\<exists>q. packets d = Some q \<and> server_sends q bs rest \<and> read_only p' q) \<and> same_session c d"
    using w d(1) sd by auto
qed

lemma exec_exchange:
  assumes "ready c p" and "interpolateParams ff query args = Ok q" and "keeps_zone c q"
    and "st AND (ServerSessionStateChanged OR ServerMoreResultsExists) = 0"
    and "WritePacket (zlibDeflate z) (ComQuery # bytes_of q) (NextRequest (ResetSequence (extra_for ctx p))) = (Ok (), p')"
    and "server_sends p' (ok_packet OKPacket a i st w info # bs) rest"
  shows "\<exists>d. ExecContext ff z ctx query args c = (Ok \<lparr>affectedRows = sint a, lastInsertID = sint i\<rparr>, d) \<and>
      (\<exists>q. packets d = Some q \<and> server_sends q bs rest \<and> read_only p' q) \<and> same_session c d"
proof -
  let ?c = "c\<lparr>packets := Some (extra_for ctx p)\<rparr>"
  have c: "packets c = Some p" "IsValid c" using assms(1) by (simp_all add: ready_def)
  have "same_session c ?c" by (rule same_sessionI [of _ _ "netConn c"]) simp
  have eq: "execLocked z ctx q = withDeadline ctx (bind_st (writeQuery z q) (\<lambda>_.
      bind_st (bind_st (read_marked z) (readResultFromFirstPacket z)) (\<lambda>res.
      bind_st (updateSessionTimeZoneFromQuery q []) (\<lambda>_. return_st res))))"
    by (simp add: execLocked_def bind_assoc)
  have "\<exists>d. execLocked z ctx q ?c = (Ok \<lparr>affectedRows = sint a, lastInsertID = sint i\<rparr>, d) \<and>
      (\<exists>q. packets d = Some q \<and> server_sends q bs rest \<and> read_only p' q) \<and> same_session ?c d"
    unfolding eq
  proof (rule statement_exchange [OF ready_extra [OF assms(1)] _ assms(5)])
    show "keeps_zone ?c q" using assms(3) by (simp add: keeps_zone_def)
    show "sv.answers (bind_st (read_marked z) (readResultFromFirstPacket z)) d \<lparr>affectedRows = sint a, lastInsertID = sint i\<rparr> bs rest"
      if "packets d = Some p'" for d
      using sv.exec_reply [OF assms(4)] assms(6) that by (simp add: sv.awaits_def)
  qed
  with c assms(2) same_session_trans [OF \<open>same_session c ?c\<close>] show ?thesis
    by (auto simp: ExecContext_def lift_res_def checkUsableLocked_def IsValid_def setupExtraInfo_eq on_error_def)
qed

lemma query_exchange:
  assumes "ready c p" and "interpolateParams ff query args = Ok q" and "keeps_zone c q" and "valid_columns cols"
    and "WritePacket (zlibDeflate z) (ComQuery # bytes_of q) (NextRequest (ResetSequence (extra_for ctx p))) = (Ok (), p')"
    and "server_sends p' (header_packets (deprecateEOF c) cols st @ bs) rest"
  shows "\<exists>d. QueryContext ff z ctx query args c = (Ok ((sv.text_rows c cols)\<lparr>rRelease := True\<rparr>), d\<lparr>locked := True\<rparr>) \<and>
      sv.awaits d bs rest \<and> same_session c d"
proof -
  let ?c = "c\<lparr>packets := Some (extra_for ctx p)\<rparr>"
  have c: "packets c = Some p" "IsValid c" using assms(1) by (simp_all add: ready_def)
  have "same_session c ?c" by (rule same_sessionI [of _ _ "netConn c"]) simp
  have "\<exists>d. queryLocked z ctx q ?c = (Ok (sv.text_rows c cols), d) \<and>
      (\<exists>q. packets d = Some q \<and> server_sends q bs rest \<and> read_only p' q) \<and> same_session ?c d"
    unfolding queryLocked_def
  proof (rule statement_exchange [OF ready_extra [OF assms(1)] _ assms(5)])
    show "keeps_zone ?c q" using assms(3) by (simp add: keeps_zone_def)
    show "sv.answers (readQueryResult z) d (sv.text_rows c cols) bs rest" if "packets d = Some p'" and "same_session ?c d" for d
    proof -
      have eq: "deprecateEOF d = deprecateEOF c" "sv.text_rows d cols = sv.text_rows c cols"
        using same_session_fields [OF that(2)] by (simp_all add: sv.text_rows_def)
      with that(1) assms(6) have "sv.awaits d (header_packets (deprecateEOF d) cols st @ bs) rest" by (simp add: sv.awaits_def)
      from sv.result_read [OF assms(4) this] eq(2) show ?thesis by simp
    qed
  qed
  then obtain d where d: "queryLocked z ctx q ?c = (Ok (sv.text_rows c cols), d)" "sv.awaits d bs rest" "same_session ?c d"
    by (auto simp: sv.awaits_def)
  have "rStreaming (sv.text_rows c cols)" by (simp add: sv.text_rows_def)
  with c assms(2) d(1) have "QueryContext ff z ctx query args c = (Ok ((sv.text_rows c cols)\<lparr>rRelease := True\<rparr>), d\<lparr>locked := True\<rparr>)"
    by (auto simp: QueryContext_def lift_res_def checkUsableLocked_def IsValid_def setupExtraInfo_eq on_error_def hand_over_lock_def)
  with d same_session_trans [OF \<open>same_session c ?c\<close>] show ?thesis by blast
qed

subsection \<open>Whole statements\<close>

text \<open>A connection in MySQL mode, as concrete input.\<close>

definition sample_conn :: "packet_conn \<Rightarrow> conn" where
  "sample_conn p =
     \<lparr>netConn = Some \<lparr>deadlineErrs = [], closeErr = None\<rparr>, packets = Some p, cfg = Some zero_config, db = [],
      ob20Confirmed = False, ob20Declined = False, deprecateEOF = False, sessionTrack = False, tenantMode = ''mysql'',
      sessionLocation = Some UTC, closed = False, bad = False, inTx = False, locked = False\<rparr>"

lemma sample_conn_ready: "ready (sample_conn p) p" "keeps_zone (sample_conn p) q"
  by (simp_all add: sample_conn_def ready_def IsValid_def keeps_zone_def)

definition sample_zlib :: zlib where
  "sample_zlib = \<lparr>zlibOpen = (\<lambda>_. Err EOF), zlibDeflate = (\<lambda>b. b)\<rparr>"

text \<open>
  C6: A statement without a result set, over plain packets: \<open>ExecContext\<close> writes the frames of a
  \<open>COM_QUERY\<close> packet with the interpolated statement and nothing else, reads exactly the OK packet,
  returns the row count and insert id it carries as signed 64-bit values, and leaves the connection
  valid, its lock and transaction flag as they were, and the bytes behind the reply unread.
\<close>

theorem exec_over_plain:
  assumes "ready c p" and "\<not> ob20 p" and "\<not> compressed p" and "txFail p = []"
    and "interpolateParams ff query args = Ok q" and "keeps_zone c q"
    and "st AND (ServerSessionStateChanged OR ServerMoreResultsExists) = 0"
    and "rx p = plain_stream (word_of_nat (plain_count (ComQuery # bytes_of q))) [ok_packet OKPacket a i st w info] @ rest"
  shows "\<exists>d p'. ExecContext ff z ctx query args c = (Ok \<lparr>affectedRows = sint a, lastInsertID = sint i\<rparr>, d) \<and>
    packets d = Some p' \<and> tx p' = tx p @ plain_frames 0 (ComQuery # bytes_of q) \<and> rx p' = rest \<and>
    IsValid d \<and> locked d = locked c \<and> inTx d = inTx c"
proof -
  let ?req = "ComQuery # bytes_of q" and ?p = "NextRequest (ResetSequence (extra_for ctx p))"
  have p: "\<not> ob20 ?p" "\<not> compressed ?p" "txFail ?p = []" "seq ?p = 0" "rx ?p = rx p" "tx ?p = tx p"
    using assms(2-4)
    by (simp_all add: extra_for_def ClearExtraInfo_def AddExtraInfo_def NextRequest_def ResetSequence_def Let_def split: option.splits)
  define p' where "p' = ?p\<lparr>tx := tx ?p @ plain_frames (seq ?p) ?req, seq := seq ?p + word_of_nat (plain_count ?req)\<rparr>"
  have w: "WritePacket (zlibDeflate z) ?req ?p = (Ok (), p')" using WritePacket_plain p(1-3) by (simp add: p'_def)
  have s: "server_sends p' [ok_packet OKPacket a i st w info] rest"
    using p assms(8) by (simp add: server_sends_def plain_sends_def p'_def)
  have "tx p' = tx p @ plain_frames 0 ?req" using p by (simp add: p'_def)
  with exec_exchange [OF assms(1,5,6,7) w s] show ?thesis
    using assms(1) by (auto simp: ready_def read_only_def dest: same_session_fields server_sends_Nil)
qed

theorem exec_over_plain_witness:
  "\<exists>d p'. ExecContext (\<lambda>_. []) sample_zlib Background ''set x = 1'' []
      (sample_conn (NewPacketConn [7, 0, 0, 1, 0, 3, 5, 2, 0, 0, 0, 99] EOF)) =
      (Ok \<lparr>affectedRows = 3, lastInsertID = 5\<rparr>, d) \<and>
    packets d = Some p' \<and> rx p' = [99] \<and> IsValid d"
proof -
  let ?p = "NewPacketConn [7, 0, 0, 1, 0, 3, 5, 2, 0, 0, 0, 99] EOF"
  have q: "interpolateParams (\<lambda>_. []) ''set x = 1'' [] = Ok ''set x = 1''" by code_simp
  have n: "plain_count (ComQuery # bytes_of ''set x = 1'') = 1" by (simp add: plain_count_def maxPayloadLen_def bytes_of_def)
  have ok: "ok_packet OKPacket 3 5 2 0 [] = [0, 3, 5, 2, 0, 0, 0]"
    by (simp add: ok_packet_def PutLengthEncodedInt_def packet_bytes le_bytes_numerals)
  have rx: "rx ?p = plain_stream (word_of_nat (plain_count (ComQuery # bytes_of ''set x = 1''))) [ok_packet OKPacket 3 5 2 0 []] @ [99]"
    by (simp add: NewPacketConn_def n ok plain_frames.simps maxPayloadLen_def mysql_frame_def wire_simps)
  from exec_over_plain [OF sample_conn_ready(1) _ _ _ q sample_conn_ready(2) _ rx, of sample_zlib Background]
  show ?thesis by (auto simp: NewPacketConn_def ServerMoreResultsExists_def ServerSessionStateChanged_def)
qed

text \<open>
  C1: A query end to end, over plain packets or OceanBase 2.0 frames, with or without
  \<open>CLIENT_DEPRECATE_EOF\<close>: \<open>QueryContext\<close> returns a result set with the server's column names that
  holds the connection's lock, reading it with \<open>Next\<close> delivers exactly the rows the server sent and
  then \<open>io.EOF\<close>, and afterwards the lock is free, the connection valid and the rest of the stream unread.
\<close>

theorem query_delivers_rows:
  assumes "ready c p" and "interpolateParams ff query args = Ok q" and "keeps_zone c q"
    and "valid_columns cols" and "list_all (valid_row (map (cdTyp \<circ> snd) cols)) rows" and "st AND ServerMoreResultsExists = 0"
    and "replies z ctx (ComQuery # bytes_of q) p
      (header_packets (deprecateEOF c) cols st @ row_packets (deprecateEOF c) rows st) rest"
  shows "\<exists>r d r' d' p'. QueryContext ff z ctx query args c = (Ok r, d) \<and> locked d \<and>
    Rows_Columns r = map (cdName \<circ> snd) cols \<and> fetch z pf (r, d) = ((rows, Some EOF), (r', d')) \<and>
    IsValid d' \<and> \<not> locked d' \<and> packets d' = Some p' \<and> rx p' = rest"
proof -
  from assms(7) obtain p' where w: "WritePacket (zlibDeflate z) (ComQuery # bytes_of q) (NextRequest (ResetSequence (extra_for ctx p))) = (Ok (), p')"
    and s: "server_sends p' (header_packets (deprecateEOF c) cols st @ row_packets (deprecateEOF c) rows st) rest"
    by (auto simp: replies_def)
  let ?r = "(sv.text_rows c cols)\<lparr>rRelease := True\<rparr>"
  from query_exchange [OF assms(1-4) w s] obtain d where
    d: "QueryContext ff z ctx query args c = (Ok ?r, d\<lparr>locked := True\<rparr>)"
    "sv.awaits d (row_packets (deprecateEOF c) rows st) rest" "same_session c d" by blast
  have "sv.awaits (d\<lparr>locked := True\<rparr>) (row_packets (rResultSetOK ?r) rows st @ []) rest"
    using d(2) by (simp add: sv.awaits_def sv.text_rows_def)
  from sv.fetch_rows [OF _ _ _ _ _ _ assms(6) this, of z pf] assms(4,5) obtain d' where
    d': "fetch z pf (?r, d\<lparr>locked := True\<rparr>) = ((rows, Some EOF), rows_finish (?r, d'))" "sv.awaits d' [] rest"
    "only_read (d\<lparr>locked := True\<rparr>) d'"
    by (auto simp: sv.text_rows_def zero_rows_def valid_columns_def)
  have "IsValid d'" using only_read_fields [OF d'(3)] same_session_fields [OF d(3)] assms(1) by (simp add: ready_def IsValid_def)
  with d d' show ?thesis
    by (auto simp: sv.awaits_def Rows_Columns_def sv.text_rows_def IsValid_def dest!: server_sends_Nil)
qed

theorem query_delivers_rows_witness:
  "let cols = [(replicate 5 [], \<lparr>cdName = ''a'', cdTyp = ColumnTypeLong, cdFlags = 0, cdDecimals = 0, cdColumnLength = 11, cdCharset = 63\<rparr>)];
       rows = [[VInt 7], [VNil]];
       p = NewPacketConn (plain_stream 1 (header_packets False cols 2 @ row_packets False rows 2)) EOF
   in \<exists>r d r' d'. QueryContext (\<lambda>_. []) sample_zlib Background ''select a from t'' [] (sample_conn p) = (Ok r, d) \<and>
        Rows_Columns r = [''a''] \<and> fetch sample_zlib (\<lambda>_. None) (r, d) = ((rows, Some EOF), (r', d')) \<and> IsValid d' \<and> \<not> locked d'"
proof -
  let ?cols = "[(replicate 5 [], \<lparr>cdName = ''a'', cdTyp = ColumnTypeLong, cdFlags = 0, cdDecimals = 0, cdColumnLength = 11, cdCharset = 63\<rparr>)]"
    and ?rows = "[[VInt 7], [VNil]]" and ?q = "''select a from t''"
  let ?bs = "header_packets False ?cols 2 @ row_packets False ?rows 2"
  let ?p = "NewPacketConn (plain_stream 1 ?bs) EOF"
  have q: "interpolateParams (\<lambda>_. []) ?q [] = Ok ?q" by code_simp
  have cols: "valid_columns ?cols"
    by (simp add: valid_columns_def valid_column_def maxResultColumns_def go_len_def bytes_of_def list_all_iff)
  have rows: "list_all (valid_row (map (cdTyp \<circ> snd) ?cols)) ?rows"
    by (simp add: valid_row_def column_groups int64_def FormatInt_def dec.simps [of 7])
  have n: "plain_count (ComQuery # bytes_of ?q) = 1" by (simp add: plain_count_def maxPayloadLen_def bytes_of_def)
  have "replies sample_zlib Background (ComQuery # bytes_of ?q) ?p ?bs []"
    unfolding replies_def server_sends_def plain_sends_def
    by (subst WritePacket_plain)
      (simp_all add: n extra_for_def Background_def ClearExtraInfo_def NextRequest_def ResetSequence_def NewPacketConn_def Let_def)
  with query_delivers_rows [OF sample_conn_ready(1) q sample_conn_ready(2) cols rows, where st = 2 and z = sample_zlib
      and ctx = Background and rest = "[]" and pf = "\<lambda>_. None"]
  show ?thesis unfolding Let_def by (fastforce simp: sample_conn_def ServerMoreResultsExists_def ServerSessionStateChanged_def)
qed

subsection \<open>Statements that fail\<close>

text \<open>The outcome of \<open>ExecContext\<close> when reading or parsing the first packet of the reply fails.\<close>

lemma exec_failure:
  assumes "ready c p" and "interpolateParams ff query args = Ok q" and "ctxErr ctx = None"
    and "WritePacket (zlibDeflate z) (ComQuery # bytes_of q) (NextRequest (ResetSequence (extra_for ctx p))) = (Ok (), p')"
    and fails: "\<And>d. packets d = Some p' \<Longrightarrow> same_session c d \<Longrightarrow>
      \<exists>d'. bind_st (read_marked z) (readResultFromFirstPacket z) d = (Err e, d') \<and> P d'"
  shows "\<exists>d'. ExecContext ff z ctx query args c = (case markBadIfConnErr e d' of (e', d'') \<Rightarrow> (Err e', d'')) \<and> P d'"
proof -
  let ?c = "c\<lparr>packets := Some (extra_for ctx p)\<rparr>"
  have c: "packets c = Some p" "IsValid c" using assms(1) by (simp_all add: ready_def)
  from withDeadline_runs [OF ready_extra [OF assms(1)], where ctx = ctx] assms(3) obtain n where
    n: "execLocked z ctx q ?c = bind_st (writeQuery z q) (\<lambda>_. bind_st (read_marked z) (\<lambda>first.
        bind_st (readResultFromFirstPacket z first) (\<lambda>res.
        bind_st (updateSessionTimeZoneFromQuery q []) (\<lambda>_. return_st res)))) (?c\<lparr>netConn := Some n\<rparr>)"
    by (auto simp: execLocked_def)
  let ?d = "?c\<lparr>netConn := Some n, packets := Some p'\<rparr>"
  have w: "writeQuery z q (?c\<lparr>netConn := Some n\<rparr>) = (Ok (), ?d)"
    using writeQuery_request [of "?c\<lparr>netConn := Some n\<rparr>" "extra_for ctx p" z q p'] assms(4) by simp
  have "same_session c ?d" by (rule same_sessionI [where n = "Some n" and pk = "Some p'"]) simp
  with fails [of ?d] obtain d' where d': "bind_st (read_marked z) (readResultFromFirstPacket z) ?d = (Err e, d')" "P d'" by auto
  have "bind_st (bind_st (read_marked z) (readResultFromFirstPacket z)) (\<lambda>res.
      bind_st (updateSessionTimeZoneFromQuery q []) (\<lambda>_. return_st res)) ?d = (Err e, d')"
    using d'(1) by simp
  then have "execLocked z ctx q ?c = (Err e, d')" using n w by (simp add: bind_assoc)
  with c assms(2) d'(2) show ?thesis
    by (intro exI [of _ d']) (simp add: ExecContext_def lift_res_def checkUsableLocked_def IsValid_def setupExtraInfo_eq on_error_def)
qed

lemma server_error_packet:
  assumes "length state = 5"
  shows "encode_server_error number state message \<noteq> []" "encode_server_error number state message ! 0 = ErrPacket"
  by (simp_all add: encode_server_error_def packet_bytes)

lemma server_error_harmless: "errors_As_ServerError (ServerErr n s m)" "\<not> isBadConnError (ServerErr n s m)"
  by (simp_all add: errors_As_ServerError_def isBadConnError_def errors_Is_def)

text \<open>
  C7: What an error makes of the connection.  When the server answers a statement with an error packet,
  the caller gets that error, number, SQL state and message, and the connection stays valid at the
  packet boundary; when the reply cannot be read (the stream ends, a sequence number is wrong, a frame
  is damaged) the caller gets \<open>driver.ErrBadConn\<close> and the connection is never valid again.
\<close>

theorem reply_errors:
  assumes "ready c p" and "interpolateParams ff query args = Ok q" and "ctxErr ctx = None"
    and "WritePacket (zlibDeflate z) (ComQuery # bytes_of q) (NextRequest (ResetSequence (extra_for ctx p))) = (Ok (), p')"
  shows "(length state = 5 \<and> server_sends p' [encode_server_error number state message] rest \<longrightarrow>
      (\<exists>d p2. ExecContext ff z ctx query args c = (Err (ServerErr number state message), d) \<and>
        IsValid d \<and> locked d = locked c \<and> inTx d = inTx c \<and> packets d = Some p2 \<and> rx p2 = rest)) \<and>
    (\<forall>e p2. ReadPacket (zlibOpen z) p' = (Err e, p2) \<and> \<not> errors_As_ServerError e \<longrightarrow>
      (\<exists>d. ExecContext ff z ctx query args c = (Err BadConn, d) \<and> \<not> IsValid d))"
proof (intro conjI impI allI; elim conjE)
  let ?b = "encode_server_error number state message" and ?e = "ServerErr number state message"
  assume len: "length state = 5" and sends: "server_sends p' [?b] rest"
  have "\<exists>d'. bind_st (read_marked z) (readResultFromFirstPacket z) d = (Err ?e, d') \<and>
      same_session c d' \<and> sv.awaits d' [] rest" if "packets d = Some p'" and "same_session c d" for d
  proof -
    have "sv.awaits d [?b] rest" using that(1) sends by (simp add: sv.awaits_def)
    from sv.read_next [OF this] obtain d' where d': "read_marked z d = (Ok ?b, d')" "sv.awaits d' [] rest" "only_read d d'"
      by (rule sv.answersE)
    have "readResultFromFirstPacket z ?b d' = (Err ?e, d')"
      using len server_error_packet [OF len]
      by (simp add: readResultFromFirstPacket_def on_error_def parseServerError_with_state markProtocolError_def
          server_error_harmless packet_bytes)
    with d' same_session_trans [OF that(2) only_read_session] show ?thesis by auto
  qed
  from exec_failure [OF assms(1-4) this] obtain d' where
    "ExecContext ff z ctx query args c = (Err ?e, d')" "same_session c d'" "sv.awaits d' [] rest"
    by (auto simp: markBadIfConnErr_def server_error_harmless)
  then show "\<exists>d p2. ExecContext ff z ctx query args c = (Err ?e, d) \<and>
      IsValid d \<and> locked d = locked c \<and> inTx d = inTx c \<and> packets d = Some p2 \<and> rx p2 = rest"
    using assms(1) by (auto simp: ready_def sv.awaits_def dest: same_session_fields server_sends_Nil)
next
  fix e p2 assume r: "ReadPacket (zlibOpen z) p' = (Err e, p2)" and e: "\<not> errors_As_ServerError e"
  define e' where "e' = fst (markProtocolError e undefined)"
  have bad: "isBadConnError e'" and mark: "markProtocolError e d = (e', d\<lparr>bad := True\<rparr>)" for d
    using e by (auto simp: e'_def markProtocolError_def Let_def isBadConnError_def errors_Is_def)
  have "\<exists>d'. bind_st (read_marked z) (readResultFromFirstPacket z) d = (Err e', d') \<and> bad d'" if "packets d = Some p'" for d
    using that r by (simp add: read_marked_def on_error_def conn_read_def on_packets_def mark)
  from exec_failure [OF assms(1-4) this] bad show "\<exists>d. ExecContext ff z ctx query args c = (Err BadConn, d) \<and> \<not> IsValid d"
    by (auto simp: markBadIfConnErr_def IsValid_def)
qed

theorem reply_errors_witness:
  "(\<exists>d. ExecContext (\<lambda>_. []) sample_zlib Background ''x'' []
      (sample_conn (NewPacketConn (plain_stream 1 [encode_server_error 942 ''42S02'' ''no table'']) EOF)) =
      (Err (ServerErr 942 ''42S02'' ''no table''), d) \<and> IsValid d) \<and>
   (\<exists>d. ExecContext (\<lambda>_. []) sample_zlib Background ''x'' [] (sample_conn (NewPacketConn [] EOF)) = (Err BadConn, d) \<and> \<not> IsValid d)"
proof
  have q: "interpolateParams (\<lambda>_. []) ''x'' [] = Ok ''x''" by code_simp
  have n: "plain_count (ComQuery # bytes_of ''x'') = 1" by (simp add: plain_count_def maxPayloadLen_def bytes_of_def)
  define sent where "sent b = (NewPacketConn b EOF)\<lparr>requestID := 1, tx := plain_frames 0 (ComQuery # bytes_of ''x''), seq := 1\<rparr>" for b
  have w: "WritePacket (zlibDeflate sample_zlib) (ComQuery # bytes_of ''x'')
      (NextRequest (ResetSequence (extra_for Background (NewPacketConn b EOF)))) = (Ok (), sent b)" for b
    by (subst WritePacket_plain)
      (simp_all add: n extra_for_def Background_def ClearExtraInfo_def NextRequest_def ResetSequence_def NewPacketConn_def Let_def sent_def)
  have none: "ctxErr Background = None" by (simp add: Background_def)
  let ?b = "encode_server_error 942 ''42S02'' ''no table''"
  have "server_sends (sent (plain_stream 1 [?b])) [?b] []"
    by (simp add: server_sends_def plain_sends_def sent_def NewPacketConn_def)
  with reply_errors [OF sample_conn_ready(1) q none w [of "plain_stream 1 [?b]"], where state = "''42S02''" and number = 942 and message = "''no table''" and rest = "[]"]
  show "\<exists>d. ExecContext (\<lambda>_. []) sample_zlib Background ''x'' [] (sample_conn (NewPacketConn (plain_stream 1 [?b]) EOF)) =
      (Err (ServerErr 942 ''42S02'' ''no table''), d) \<and> IsValid d" by (auto simp del: plain_stream.simps)
  have "ReadPacket (zlibOpen sample_zlib) (sent []) = (Err EOF, sent [])"
    by (simp add: ReadPacket_def ReadPacket_loop.simps readPlainFrame_def readFull_def read_full_src_def sent_def NewPacketConn_def
        bind_st_def)
  moreover have "\<not> errors_As_ServerError EOF" by (simp add: errors_As_ServerError_def)
  ultimately show "\<exists>d. ExecContext (\<lambda>_. []) sample_zlib Background ''x'' [] (sample_conn (NewPacketConn [] EOF)) = (Err BadConn, d) \<and> \<not> IsValid d"
    using reply_errors [OF sample_conn_ready(1) q none w [of "[]"]] by blast
qed

end
