(* ===== verification/Negotiation.thy ===== *)
theory Negotiation
  imports Connect Exchanges
begin

text \<open>
  What a handshake that succeeds has settled: the flags of the connection and the framing of its
  packets, in terms of the server's greeting and the configuration.
\<close>

subsection \<open>Capabilities\<close>

lemma flags_bits:
  "w AND ClientDeprecateEOF = 0 \<longleftrightarrow> \<not> bit w 24" "w AND ClientSessionTrack = 0 \<longleftrightarrow> \<not> bit w 23"
  unfolding ClientDeprecateEOF_def ClientSessionTrack_def push_bit_of_1 by (rule and_exp_eq_0_iff_not_bit)+

lemma base_caps_bits: "bit base_caps 24" "bit base_caps 23"
  by (simp_all add: base_caps_def client_caps bit_simps)

lemma caps_deprecate: "bit (client_caps_for env conf server) 24 \<longleftrightarrow> bit server 24 \<and> \<not> bit (CapabilityDrop conf) 24"
  using flags_bits(1) [of server]
  by (auto simp: client_caps_for_def Let_def base_caps_bits bit_simps client_caps)

lemma caps_track: "bit (client_caps_for env conf server) 23 \<longleftrightarrow> \<not> bit (CapabilityDrop conf) 23"
  by (auto simp: client_caps_for_def Let_def flags_bits base_caps_bits bit_simps client_caps)

lemma response_caps: "le_word (take 4 (buildHandshakeResponse env conf mode hs auth)) = client_caps_for env conf (capabilities hs)"
  by (simp add: buildHandshakeResponse_def Let_def PutLengthEncodedString_append [of "_ @ _"] PutLengthEncodedInt_append [of "_ @ _"]
      le_word_le_bytes_id)

subsection \<open>Authentication\<close>

text \<open>How authentication leaves the connection, from a connection in plain framing.\<close>

definition negotiated :: "client_env \<Rightarrow> config \<Rightarrow> handshake \<Rightarrow> conn \<Rightarrow> conn \<Rightarrow> bool" where
  "negotiated env conf hs c d \<longleftrightarrow>
     deprecateEOF d = deprecateEOF c \<and> sessionTrack d = sessionTrack c \<and> tenantMode d = tenantMode c \<and>
     (\<exists>p q k. packets c = Some p \<and> packets d = Some q \<and> rx q = drop k (rx p) \<and>
        (ob20 q \<longleftrightarrow> ProtocolV2 conf \<and> ob20Confirmed d) \<and>
        (ob20 q \<longrightarrow> connectionID q = hsConnectionID hs) \<and>
        (compressed q \<longleftrightarrow>
           NegotiateCompression (UseCompression conf) (capabilities hs) (Getenv (hostEnv env) ''OB_USE_COMPRESSION'')))"

definition plain_conn :: "conn \<Rightarrow> bool" where
  "plain_conn c \<longleftrightarrow> (\<exists>p. packets c = Some p \<and> \<not> ob20 p \<and> \<not> compressed p)"

lemma frame_plain: "conn_frame exchange c d \<Longrightarrow> plain_conn c \<Longrightarrow> plain_conn d"
  by (cases "packets d") (auto simp: conn_frame_def plain_conn_def exchange_def same_mode_def)

lemma negotiated_frame:
  assumes "conn_frame exchange c c1" and "negotiated env conf hs c1 d"
  shows "negotiated env conf hs c d"
proof -
  from assms(2) obtain p1 q k where p1: "packets c1 = Some p1" and q: "packets d = Some q" "rx q = drop k (rx p1)"
    and rest: "ob20 q \<longleftrightarrow> ProtocolV2 conf \<and> ob20Confirmed d" "ob20 q \<longrightarrow> connectionID q = hsConnectionID hs"
      "compressed q \<longleftrightarrow>
         NegotiateCompression (UseCompression conf) (capabilities hs) (Getenv (hostEnv env) ''OB_USE_COMPRESSION'')"
      "deprecateEOF d = deprecateEOF c1" "sessionTrack d = sessionTrack c1" "tenantMode d = tenantMode c1"
    unfolding negotiated_def by (elim conjE exE)
  from assms(1) have "rel_option exchange (packets c) (Some p1)" and
    flags: "deprecateEOF c1 = deprecateEOF c" "sessionTrack c1 = sessionTrack c" "tenantMode c1 = tenantMode c"
    by (simp_all add: conn_frame_def p1)
  then obtain p l where p: "packets c = Some p" "rx p1 = drop l (rx p)"
    by (auto simp: option_rel_Some2 exchange_def)
  have "rx q = drop (k + l) (rx p)" by (simp add: q(2) p(2))
  with p(1) q(1) rest flags show ?thesis
    unfolding negotiated_def by (intro conjI exI [of _ p] exI [of _ q] exI [of _ "k + l"]) simp_all
qed

lemma negotiated_hs: "negotiated env conf (hs\<lparr>authPlugin := p, authSeed := s\<rparr>) c d = negotiated env conf hs c d"
  "negotiated env conf (hs\<lparr>authPlugin := p\<rparr>) c d = negotiated env conf hs c d"
  by (simp_all add: negotiated_def)

lemma auth_ok_negotiated:
  assumes "auth_ok env conf hs b c = (Ok (), d)" and "plain_conn c"
  shows "negotiated env conf hs c d"
proof -
  from assms(1) obtain x c1 where ok: "handleOK b c = (Ok x, c1)" and run:
    "bind_st
       (\<lambda>c. if ProtocolV2 conf \<and> ob20Confirmed c then
              on_packets (\<lambda>p. (Ok (), EnableOB20 (hsConnectionID hs) (if OB20Magic conf \<noteq> 0 then OB20Magic conf else OB20MagicNum)
                True (DisableOB20Checksum conf) p)) c
            else (Ok (), c)) (\<lambda>_.
       if NegotiateCompression (UseCompression conf) (capabilities hs) (Getenv (hostEnv env) ''OB_USE_COMPRESSION'')
       then on_packets (\<lambda>p. (Ok (), EnableCompression p))
       else return_st ()) c1 = (Ok (), d)"
    by (auto simp: auth_ok_def elim!: bind_st_Ok_E)
  have f: "conn_frame exchange c c1" using withinD [OF xc.handleOK_within ok] .
  with assms(2) obtain p where p: "packets c1 = Some p" "\<not> ob20 p" "\<not> compressed p"
    using frame_plain unfolding plain_conn_def by blast
  have "negotiated env conf hs c1 d"
    using run p
    by (cases "ProtocolV2 conf \<and> ob20Confirmed c1";
        cases "NegotiateCompression (UseCompression conf) (capabilities hs) (Getenv (hostEnv env) ''OB_USE_COMPRESSION'')")
      (auto simp: negotiated_def bind_st_def on_packets_def EnableOB20_def EnableCompression_def intro!: exI [of _ "0 :: nat"])
  with f show ?thesis by (rule negotiated_frame)
qed

lemma auth_switch_within: "within (conn_frame exchange) (auth_switch z conf hs)"
  unfolding auth_switch_def readAuthSwitchData_def Let_def
  by (intro xc.cf.within_bind) (auto intro!: exchange_intros xc.conn_read_within conn_write_within split: prod.splits)

lemma auth_switch_hs: "auth_switch z conf hs c = (Ok hs', d) \<Longrightarrow> \<exists>p s. hs' = hs\<lparr>authPlugin := p, authSeed := s\<rparr>"
  by (auto simp: auth_switch_def Let_def elim!: bind_st_Ok_E split: prod.splits) blast

lemma auth_rounds_negotiated:
  "auth_rounds env z conf n hs c = (Ok (), d) \<Longrightarrow> plain_conn c \<Longrightarrow> negotiated env conf hs c d"
proof (induction n arbitrary: hs c)
  case 0
  then show ?case by simp
next
  case (Suc n)
  from Suc.prems(1) obtain b c1 where read: "conn_read z c = (Ok b, c1)" and "b \<noteq> []" and
    cases: "b ! 0 = OKPacket \<and> auth_ok env conf hs b c1 = (Ok (), d) \<or>
      bind_st (auth_switch z conf hs) (auth_rounds env z conf n) c1 = (Ok (), d) \<or>
      bind_st (conn_write z (bytes_of (Password conf))) (\<lambda>_. auth_rounds env z conf n hs) c1 = (Ok (), d)"
    by (auto elim!: bind_st_Ok_E [of "conn_read z"] split: if_splits)
  have f: "conn_frame exchange c c1" using withinD [OF xc.conn_read_within read] .
  with Suc.prems(2) have p1: "plain_conn c1" by (rule frame_plain [rotated]) 
  from cases have "negotiated env conf hs c1 d"
  proof (elim disjE conjE)
    assume "auth_ok env conf hs b c1 = (Ok (), d)"
    then show ?thesis using p1 by (rule auth_ok_negotiated)
  next
    assume "bind_st (auth_switch z conf hs) (auth_rounds env z conf n) c1 = (Ok (), d)"
    then obtain hs' c2 where sw: "auth_switch z conf hs c1 = (Ok hs', c2)" and r: "auth_rounds env z conf n hs' c2 = (Ok (), d)"
      by (auto elim!: bind_st_Ok_E)
    have f2: "conn_frame exchange c1 c2" using withinD [OF auth_switch_within sw] .
    from Suc.IH [OF r] frame_plain [OF f2 p1] negotiated_frame [OF f2] auth_switch_hs [OF sw]
    show ?thesis by (auto simp: negotiated_hs)
  next
    assume "bind_st (conn_write z (bytes_of (Password conf))) (\<lambda>_. auth_rounds env z conf n hs) c1 = (Ok (), d)"
    then obtain u c2 where w: "conn_write z (bytes_of (Password conf)) c1 = (Ok u, c2)" and r: "auth_rounds env z conf n hs c2 = (Ok (), d)"
      by (auto elim!: bind_st_Ok_E)
    have f2: "conn_frame exchange c1 c2" using withinD [OF conn_write_within w] .
    from Suc.IH [OF r] frame_plain [OF f2 p1] negotiated_frame [OF f2] show ?thesis by blast
  qed
  with f show ?case by (rule negotiated_frame)
qed

subsection \<open>The handshake\<close>

lemma transport_plain: "\<not> ob20 (transport_packets t)" "\<not> compressed (transport_packets t)"
  by (simp_all add: transport_packets_def NewPacketConn_def)

lemma start_tls_outcome:
  assumes "start_tls net z conf hs c = (Ok (), d)" and "plain_conn c"
  shows "plain_conn d" and "tenantMode d = tenantMode c" and "TLSConfig conf \<noteq> None \<longrightarrow> capabilities hs AND ClientSSL \<noteq> 0"
    and "case TLSConfig conf of None \<Rightarrow> packets d = packets c
      | Some tc \<Rightarrow> \<exists>tr. tlsHandshake net tc (tls_server_name net conf tc) = Ok tr \<and> packets d = Some (transport_packets tr)"
proof -
  have "plain_conn d \<and> tenantMode d = tenantMode c \<and> (TLSConfig conf \<noteq> None \<longrightarrow> capabilities hs AND ClientSSL \<noteq> 0) \<and>
    (case TLSConfig conf of None \<Rightarrow> packets d = packets c
      | Some tc \<Rightarrow> \<exists>tr. tlsHandshake net tc (tls_server_name net conf tc) = Ok tr \<and> packets d = Some (transport_packets tr))"
  proof (cases "TLSConfig conf")
    case None
    with assms show ?thesis by (simp add: start_tls_def)
  next
    case (Some t)
    with assms(1) obtain u tr c1 where "capabilities hs AND ClientSSL \<noteq> 0" and
      s: "sendSSLRequest z conf (capabilities hs) c = (Ok u, c1)" and
      tr: "tlsHandshake net t (tls_server_name net conf t) = Ok tr" and
      d: "d = c1\<lparr>netConn := Some (tNet tr), packets := Some (transport_packets tr)\<rparr>"
      by (auto simp: start_tls_def lift_res_def elim!: bind_st_Ok_E split: if_splits)
    have "tenantMode c1 = tenantMode c"
      using s by (auto simp: sendSSLRequest_def conn_write_def on_packets_def elim!: bind_st_Ok_E split: option.splits prod.splits)
    with d tr Some \<open>capabilities hs AND ClientSSL \<noteq> 0\<close> show ?thesis by (simp add: plain_conn_def transport_plain)
  qed
  then show "plain_conn d" and "tenantMode d = tenantMode c" and "TLSConfig conf \<noteq> None \<longrightarrow> capabilities hs AND ClientSSL \<noteq> 0"
    and "case TLSConfig conf of None \<Rightarrow> packets d = packets c
      | Some tc \<Rightarrow> \<exists>tr. tlsHandshake net tc (tls_server_name net conf tc) = Ok tr \<and> packets d = Some (transport_packets tr)"
    by blast+
qed

text \<open>The client's part behind TLS: the response, the flags it settles, and authentication.\<close>

definition client_reply :: "client_env \<Rightarrow> zlib \<Rightarrow> config \<Rightarrow> handshake \<Rightarrow> unit cst" where
  "client_reply env z conf hs =
     bind_st (lift_res (buildAuthResponse (authPlugin hs) (Password conf) (authSeed hs))) (\<lambda>a c.
       bind_st (conn_write z (buildHandshakeResponse env conf (tenantMode c) hs a)) (\<lambda>_. handleAuthResult env z conf hs)
         (c\<lparr>deprecateEOF := bit (client_caps_for env conf (capabilities hs)) 24,
            sessionTrack := bit (client_caps_for env conf (capabilities hs)) 23 \<and> bit (capabilities hs) 23\<rparr>))"

definition default_plugin :: "handshake \<Rightarrow> handshake" where
  "default_plugin hs = (if authPlugin hs = [] then hs\<lparr>authPlugin := ''mysql_native_password''\<rparr> else hs)"

lemma conn_handshake_stages:
  "conn_handshake env net z conf =
     bind_st (on_packets (\<lambda>p. (Ok (), ResetSequence p))) (\<lambda>_.
     bind_st (conn_read z) (\<lambda>packet.
       if packet \<noteq> [] \<and> packet ! 0 = ErrPacket then fail_st (parseServerError packet)
       else
         bind_st (lift_res (parseHandshake (spareCap env packet) packet)) (\<lambda>hs.
         bind_st (\<lambda>c. (Ok (), c\<lparr>tenantMode := tenantModeFromHandshake (status hs) (Some conf)\<rparr>)) (\<lambda>_.
         bind_st (start_tls net z conf hs) (\<lambda>_. client_reply env z conf (default_plugin hs))))))"
  unfolding conn_handshake_def client_reply_def default_plugin_def Let_def
  by (simp only: response_caps flags_bits not_not)

lemma client_reply_negotiated:
  assumes "client_reply env z conf hs c = (Ok (), d)" and "plain_conn c"
  shows "\<exists>e. deprecateEOF e = bit (client_caps_for env conf (capabilities hs)) 24 \<and>
    sessionTrack e = (bit (client_caps_for env conf (capabilities hs)) 23 \<and> bit (capabilities hs) 23) \<and>
    tenantMode e = tenantMode c \<and> packets e = packets c \<and> negotiated env conf hs e d"
proof -
  define e where "e = c\<lparr>deprecateEOF := bit (client_caps_for env conf (capabilities hs)) 24,
    sessionTrack := bit (client_caps_for env conf (capabilities hs)) 23 \<and> bit (capabilities hs) 23\<rparr>"
  from assms(1) obtain a u c1 where
    w: "conn_write z (buildHandshakeResponse env conf (tenantMode c) hs a) e = (Ok u, c1)"
    and auth: "auth_rounds env z conf maxAuthRounds hs c1 = (Ok (), d)"
    by (auto simp: client_reply_def handleAuthResult_def lift_res_def e_def elim!: bind_st_Ok_E)
  have f: "conn_frame exchange e c1" using withinD [OF conn_write_within w] .
  have "plain_conn e" using assms(2) by (simp add: e_def plain_conn_def)
  with auth_rounds_negotiated [OF auth] frame_plain [OF f] negotiated_frame [OF f] have "negotiated env conf hs e d" by blast
  then show ?thesis by (intro exI [of _ e]) (simp add: e_def)
qed

lemma handshake_negotiated:
  assumes run: "conn_handshake env net z conf c = (Ok (), d)" and "packets c = Some p" and "\<not> ob20 p" and "\<not> compressed p"
  shows "\<exists>greeting hs p' e. ReadPacket (zlibOpen z) (ResetSequence p) = (Ok greeting, p') \<and>
    parseHandshake (spareCap env greeting) greeting = Ok hs \<and>
    (TLSConfig conf \<noteq> None \<longrightarrow> capabilities hs AND ClientSSL \<noteq> 0) \<and>
    deprecateEOF e = bit (client_caps_for env conf (capabilities hs)) 24 \<and>
    sessionTrack e = (bit (client_caps_for env conf (capabilities hs)) 23 \<and> bit (capabilities hs) 23) \<and>
    tenantMode e = tenantModeFromHandshake (status hs) (Some conf) \<and> negotiated env conf hs e d \<and>
    (\<exists>pe k. packets e = Some pe \<and>
       (case TLSConfig conf of None \<Rightarrow> rx pe = drop k (rx p)
        | Some tc \<Rightarrow> \<exists>tr. tlsHandshake net tc (tls_server_name net conf tc) = Ok tr \<and> rx pe = tRx tr))"
proof -
  from run assms(2) obtain greeting c1 hs c3 where
    r: "conn_read z (c\<lparr>packets := Some (ResetSequence p)\<rparr>) = (Ok greeting, c1)"
    and hs: "parseHandshake (spareCap env greeting) greeting = Ok hs"
    and tls: "start_tls net z conf hs (c1\<lparr>tenantMode := tenantModeFromHandshake (status hs) (Some conf)\<rparr>) = (Ok (), c3)"
    and reply: "client_reply env z conf (default_plugin hs) c3 = (Ok (), d)"
    unfolding conn_handshake_stages
    by (auto simp: on_packets_def lift_res_def elim!: bind_st_Ok_E split: if_splits)
  obtain p' where p': "ReadPacket (zlibOpen z) (ResetSequence p) = (Ok greeting, p')"
    using r by (auto simp: conn_read_def on_packets_def split: prod.splits)
  have "plain_conn (c\<lparr>packets := Some (ResetSequence p)\<rparr>)" using assms(3,4) by (simp add: plain_conn_def ResetSequence_def)
  then have "plain_conn (c1\<lparr>tenantMode := tenantModeFromHandshake (status hs) (Some conf)\<rparr>)"
    using frame_plain [OF withinD [OF xc.conn_read_within r]] by (simp add: plain_conn_def)
  note tls = start_tls_outcome [OF tls this]
  obtain p1 k where "packets c1 = Some p1" "rx p1 = drop k (rx p)"
    using withinD [OF xc.conn_read_within r]
    by (cases "packets c1") (auto simp: conn_frame_def exchange_def ResetSequence_def)
  with tls(4) have "\<exists>pe k. packets c3 = Some pe \<and>
      (case TLSConfig conf of None \<Rightarrow> rx pe = drop k (rx p)
       | Some tc \<Rightarrow> \<exists>tr. tlsHandshake net tc (tls_server_name net conf tc) = Ok tr \<and> rx pe = tRx tr)"
    by (cases "TLSConfig conf") (auto simp: transport_packets_def NewPacketConn_def)
  moreover have "capabilities (default_plugin hs) = capabilities hs"
    "negotiated env conf (default_plugin hs) = negotiated env conf hs"
    by (simp_all add: default_plugin_def negotiated_hs fun_eq_iff)
  ultimately show ?thesis using client_reply_negotiated [OF reply tls(1)] tls(2,3) p' hs by fastforce
qed

text \<open>
  C8: What a handshake that succeeds has settled, for every greeting and whatever authentication rounds
  follow.  The driver expects OK instead of EOF packets, and session tracking, exactly when the server
  offered the capability and the configuration does not drop it.  It frames packets as OceanBase 2.0
  exactly when that is configured and the server confirmed it.  It compresses exactly when that is
  configured, the server offered it and \<open>OB_USE_COMPRESSION\<close> does not close it; the client then has
  announced the capability, even when the configuration drops that bit (\<open>cap.drop\<close>), which is applied
  before compression is added.  With TLS configured the server has offered it, the TLS handshake was
  made, and what the connection reads from then on comes from the TLS transport, not from the plain
  one; without TLS it comes from the plain one.  The tenant mode is the one the greeting and the
  configuration give.
\<close>

theorem handshake_negotiation:
  assumes "conn_handshake env net z conf (new_conn t conf) = (Ok (), c)"
  shows "\<exists>greeting p' hs q. ReadPacket (zlibOpen z) (transport_packets t) = (Ok greeting, p') \<and>
    parseHandshake (spareCap env greeting) greeting = Ok hs \<and> packets c = Some q \<and>
    (deprecateEOF c \<longleftrightarrow> capabilities hs AND ClientDeprecateEOF \<noteq> 0 \<and> CapabilityDrop conf AND ClientDeprecateEOF = 0) \<and>
    (sessionTrack c \<longleftrightarrow> capabilities hs AND ClientSessionTrack \<noteq> 0 \<and> CapabilityDrop conf AND ClientSessionTrack = 0) \<and>
    (ob20 q \<longleftrightarrow> ProtocolV2 conf \<and> ob20Confirmed c) \<and> (ob20 q \<longrightarrow> connectionID q = hsConnectionID hs) \<and>
    (compressed q \<longleftrightarrow> UseCompression conf \<and> capabilities hs AND ClientCompress \<noteq> 0 \<and>
       ToLower (Getenv (hostEnv env) ''OB_USE_COMPRESSION'') \<notin> {''0'', ''false'', ''off'', ''no''}) \<and>
    (compressed q \<longrightarrow> client_caps_for env conf (capabilities hs) AND ClientCompress \<noteq> 0) \<and>
    (TLSConfig conf \<noteq> None \<longrightarrow> capabilities hs AND ClientSSL \<noteq> 0) \<and>
    (\<exists>tr k. rx q = drop k (tRx tr) \<and>
       (case TLSConfig conf of None \<Rightarrow> tr = t
        | Some tc \<Rightarrow> tlsHandshake net tc (tls_server_name net conf tc) = Ok tr)) \<and>
    tenantMode c = tenantModeFromHandshake (status hs) (Some conf)"
proof -
  have pk: "packets (new_conn t conf) = Some (transport_packets t)" by (simp add: new_conn_def)
  have rs: "ResetSequence (transport_packets t) = transport_packets t"
    by (simp add: ResetSequence_def transport_packets_def NewPacketConn_def)
  have cp: "NegotiateCompression (UseCompression conf) server v \<longleftrightarrow>
      UseCompression conf \<and> server AND ClientCompress \<noteq> 0 \<and> ToLower v \<notin> {''0'', ''false'', ''off'', ''no''}" for server v
    by (auto simp: NegotiateCompression_def Let_def ToLower_def)
  from handshake_negotiated [OF assms pk transport_plain, unfolded rs] obtain greeting hs p' e pe k0 where
    r: "ReadPacket (zlibOpen z) (transport_packets t) = (Ok greeting, p')"
      "parseHandshake (spareCap env greeting) greeting = Ok hs"
      "TLSConfig conf \<noteq> None \<longrightarrow> capabilities hs AND ClientSSL \<noteq> 0"
    and e: "deprecateEOF e = bit (client_caps_for env conf (capabilities hs)) 24"
      "sessionTrack e = (bit (client_caps_for env conf (capabilities hs)) 23 \<and> bit (capabilities hs) 23)"
      "tenantMode e = tenantModeFromHandshake (status hs) (Some conf)"
    and n: "negotiated env conf hs e c" and pe: "packets e = Some pe"
    and tls: "case TLSConfig conf of None \<Rightarrow> rx pe = drop k0 (rx (transport_packets t))
        | Some tc \<Rightarrow> \<exists>tr. tlsHandshake net tc (tls_server_name net conf tc) = Ok tr \<and> rx pe = tRx tr" by blast
  from n pe obtain q k1 where q: "packets c = Some q" "ob20 q \<longleftrightarrow> ProtocolV2 conf \<and> ob20Confirmed c"
    "ob20 q \<longrightarrow> connectionID q = hsConnectionID hs" and rx: "rx q = drop k1 (rx pe)"
    and k: "compressed q \<longleftrightarrow>
      NegotiateCompression (UseCompression conf) (capabilities hs) (Getenv (hostEnv env) ''OB_USE_COMPRESSION'')"
    and d: "deprecateEOF c = deprecateEOF e" "sessionTrack c = sessionTrack e" "tenantMode c = tenantMode e"
    unfolding negotiated_def by (elim conjE exE) simp
  have "compressed q \<longrightarrow> client_caps_for env conf (capabilities hs) AND ClientCompress \<noteq> 0"
    using k by (simp add: client_caps_for_def Let_def ClientCompress_def)
  moreover have "\<exists>tr k. rx q = drop k (tRx tr) \<and> (case TLSConfig conf of None \<Rightarrow> tr = t
      | Some tc \<Rightarrow> tlsHandshake net tc (tls_server_name net conf tc) = Ok tr)"
    using tls rx by (cases "TLSConfig conf") (auto simp: transport_packets_def NewPacketConn_def)
  moreover have "deprecateEOF c \<longleftrightarrow> capabilities hs AND ClientDeprecateEOF \<noteq> 0 \<and> CapabilityDrop conf AND ClientDeprecateEOF = 0"
    "sessionTrack c \<longleftrightarrow> capabilities hs AND ClientSessionTrack \<noteq> 0 \<and> CapabilityDrop conf AND ClientSessionTrack = 0"
    using d(1,2) e(1,2) by (auto simp: flags_bits caps_deprecate caps_track)
  moreover have "tenantMode c = tenantModeFromHandshake (status hs) (Some conf)" using d(3) e(3) by simp
  ultimately show ?thesis
    using r q k [unfolded cp]
    by (intro exI [of _ greeting] exI [of _ p'] exI [of _ hs] exI [of _ q] conjI) assumption+
qed

subsection \<open>A concrete server\<close>

definition sample_client :: client_env where
  "sample_client =
     \<lparr>hostEnv = \<lparr>Getenv = (\<lambda>_. []), ParseDuration = (\<lambda>_. None), ParseSeconds = (\<lambda>_. Err EOF), url_Parse = (\<lambda>_. Err EOF),
        ReadFile = (\<lambda>_. Err EOF), AppendCertsFromPEM = (\<lambda>_. False), LoadX509KeyPair = (\<lambda>_ _. Err EOF)\<rparr>,
      GOOS = ''linux'', GOARCH = ''amd64'', spareCap = (\<lambda>_. [])\<rparr>"

definition sample_greeting :: bytes where
  "sample_greeting =
     [10, 53, 0, 7, 0, 0, 0, 1, 2, 3, 4, 5, 6, 7, 8, 0, 0, 2, 33, 2, 0, 0x80, 1, 21, 0, 0, 0, 0, 0, 0, 0, 0, 0, 0,
      9, 10, 11, 12, 13, 14, 15, 16, 17, 18, 19, 20, 0]"

definition sample_hs :: handshake where
  "sample_hs = \<lparr>serverVersion = ''5'', hsConnectionID = 7, capabilities = 0x1800200, authPlugin = [],
     authSeed = [1, 2, 3, 4, 5, 6, 7, 8, 9, 10, 11, 12, 13, 14, 15, 16, 17, 18, 19, 20], status = 2\<rparr>"

definition sample_config :: config where
  "sample_config = zero_config\<lparr>Addrs := [''h:1''], CapabilityDrop := ClientConnectAttrs\<rparr>"

definition sample_transport :: transport where
  "sample_transport =
     \<lparr>tNet = \<lparr>deadlineErrs = [], closeErr = None\<rparr>,
      tRx = plain_frames 0 sample_greeting @ plain_frames 2 (ok_packet OKPacket 0 0 2 0 []), tRxEnd = EOF, tTxFail = []\<rparr>"

definition sample_network :: network where
  "sample_network =
     \<lparr>DialContext = (\<lambda>_ _. Ok sample_transport), tlsHandshake = (\<lambda>_ _. Err EOF), isIP = (\<lambda>_. True)\<rparr>"

lemma sample_parts:
  "parseHandshake (spareCap sample_client sample_greeting) sample_greeting = Ok sample_hs"
  "length (buildHandshakeResponse sample_client sample_config ''mysql'' (default_plugin sample_hs) []) = 56"
  "tenantModeFromHandshake (status sample_hs) (Some sample_config) = ''mysql''"
  "resolveSessionTimeZone ''mysql'' (SessionTimeZone sample_config) = Ok (UTC, [], False)"
  by code_simp+

lemma plain_read:
  assumes "packets c = Some p" and "\<not> ob20 p" and "\<not> compressed p" and "rx p = plain_frames (seq p) b @ rest"
  shows "conn_read z c = (Ok b, c\<lparr>packets := Some (p\<lparr>rx := rest, seq := seq p + word_of_nat (plain_count b)\<rparr>)\<rparr>)"
  using assms by (simp add: conn_read_def on_packets_def ReadPacket_def ReadPacket_loop_plain)

lemma plain_write:
  assumes "packets c = Some p" and "\<not> ob20 p" and "\<not> compressed p" and "txFail p = []"
  shows "\<exists>out. conn_write z b c = (Ok (), c\<lparr>packets := Some (p\<lparr>tx := out, seq := seq p + word_of_nat (plain_count b)\<rparr>)\<rparr>)"
  using assms by (auto simp: WritePacket_plain conn_write_def on_packets_def)

lemma sample_reply:
  assumes "packets c = Some p" and "\<not> ob20 p" and "\<not> compressed p" and "txFail p = []" and "seq p = 1"
    and "rx p = plain_frames 2 (ok_packet OKPacket 0 0 2 0 [])" and "tenantMode c = ''mysql''"
  shows "\<exists>q. client_reply sample_client sample_zlib sample_config (default_plugin sample_hs) c =
    (Ok (), c\<lparr>packets := Some q, deprecateEOF := True, sessionTrack := True\<rparr>) \<and> \<not> ob20 q \<and> \<not> compressed q \<and> rx q = []"
proof -
  let ?hs = "default_plugin sample_hs" and ?ok = "ok_packet OKPacket 0 0 2 0 []"
  let ?resp = "buildHandshakeResponse sample_client sample_config ''mysql'' ?hs []"
  let ?c = "c\<lparr>deprecateEOF := True, sessionTrack := True\<rparr>"
  have auth: "buildAuthResponse (authPlugin ?hs) (Password sample_config) (authSeed ?hs) = Ok []"
    by (simp add: buildAuthResponse_def default_plugin_def sample_hs_def sample_config_def zero_config_def NativePasswordAuth_def)
  have bits: "bit (client_caps_for sample_client sample_config (capabilities ?hs)) 24"
    "bit (client_caps_for sample_client sample_config (capabilities ?hs)) 23 \<and> bit (capabilities ?hs) 23"
    by (simp_all add: caps_deprecate caps_track default_plugin_def sample_hs_def sample_config_def client_caps bit_simps)
  have count: "plain_count ?resp = 1" by (simp add: plain_count_def maxPayloadLen_def sample_parts)
  have cok: "plain_count ?ok = 1" by (simp add: plain_count_def maxPayloadLen_def ok_packet_def length_PutLengthEncodedInt)
  obtain out where w: "conn_write sample_zlib ?resp ?c = (Ok (), ?c\<lparr>packets := Some (p\<lparr>tx := out, seq := 2\<rparr>)\<rparr>)"
    using plain_write [of ?c p sample_zlib ?resp] assms count by auto
  define q where "q = p\<lparr>tx := out, seq := 3, rx := []\<rparr>"
  have r: "conn_read sample_zlib (?c\<lparr>packets := Some (p\<lparr>tx := out, seq := 2\<rparr>)\<rparr>) = (Ok ?ok, ?c\<lparr>packets := Some q\<rparr>)"
    using plain_read [of "?c\<lparr>packets := Some (p\<lparr>tx := out, seq := 2\<rparr>)\<rparr>" "p\<lparr>tx := out, seq := 2\<rparr>" ?ok "[]" sample_zlib] assms cok
    by (simp add: q_def)
  have "auth_ok sample_client sample_config ?hs ?ok (?c\<lparr>packets := Some q\<rparr>) = (Ok (), ?c\<lparr>packets := Some q\<rparr>)"
    by (simp add: auth_ok_def handleOK_plain ServerSessionStateChanged_def sample_config_def zero_config_def NegotiateCompression_def)
  moreover have rounds: "maxAuthRounds = Suc 9" by (simp add: maxAuthRounds_def)
  ultimately have "handleAuthResult sample_client sample_zlib sample_config ?hs (?c\<lparr>packets := Some (p\<lparr>tx := out, seq := 2\<rparr>)\<rparr>) = (Ok (), ?c\<lparr>packets := Some q\<rparr>)"
    unfolding handleAuthResult_def rounds auth_rounds.simps using r by simp
  with w auth bits assms(2,3,7) show ?thesis
    by (intro exI [of _ q]) (simp add: client_reply_def lift_res_def q_def)
qed

lemma sample_handshake:
  "\<exists>q. conn_handshake sample_client sample_network sample_zlib sample_config (new_conn sample_transport sample_config) =
    (Ok (), (new_conn sample_transport sample_config)\<lparr>tenantMode := ''mysql'', packets := Some q, deprecateEOF := True,
       sessionTrack := True\<rparr>)"
proof -
  let ?c = "new_conn sample_transport sample_config" and ?p = "transport_packets sample_transport"
  have p: "packets ?c = Some ?p" "seq ?p = 0" "txFail ?p = []" "ResetSequence ?p = ?p"
    "rx ?p = plain_frames (seq ?p) sample_greeting @ plain_frames 2 (ok_packet OKPacket 0 0 2 0 [])"
    by (simp_all add: new_conn_def transport_packets_def sample_transport_def NewPacketConn_def ResetSequence_def)
  have n: "plain_count sample_greeting = 1" by (simp add: plain_count_def maxPayloadLen_def sample_greeting_def)
  have same: "?c\<lparr>packets := Some ?p\<rparr> = ?c" using p(1) by (cases ?c) simp
  let ?p1 = "?p\<lparr>rx := plain_frames 2 (ok_packet OKPacket 0 0 2 0 []), seq := 1\<rparr>"
  have r: "conn_read sample_zlib (?c\<lparr>packets := Some ?p\<rparr>) = (Ok sample_greeting, ?c\<lparr>packets := Some ?p1\<rparr>)"
    using plain_read [OF p(1) transport_plain p(5), of sample_zlib] n p(2) unfolding same by simp
  have g: "sample_greeting ! 0 \<noteq> ErrPacket" by (simp add: sample_greeting_def packet_bytes)
  have tls: "TLSConfig sample_config = None" by (simp add: sample_config_def zero_config_def)
  let ?c2 = "?c\<lparr>packets := Some ?p1, tenantMode := ''mysql''\<rparr>"
  have "\<exists>q. client_reply sample_client sample_zlib sample_config (default_plugin sample_hs) ?c2 =
    (Ok (), ?c2\<lparr>packets := Some q, deprecateEOF := True, sessionTrack := True\<rparr>)"
    using sample_reply [of ?c2 ?p1] p(3) transport_plain [of sample_transport] by auto
  then show ?thesis
    using p(1,4) r g
    by (auto simp: conn_handshake_stages bind_st_def on_packets_def lift_res_def sample_parts start_tls_def tls)
qed

theorem handshake_negotiation_witness:
  "\<exists>c q. conn_handshake sample_client sample_network sample_zlib sample_config (new_conn sample_transport sample_config) = (Ok (), c) \<and>
     packets c = Some q \<and> \<not> ob20 q \<and> \<not> compressed q \<and> deprecateEOF c"
proof -
  from sample_handshake obtain c where
    c: "conn_handshake sample_client sample_network sample_zlib sample_config (new_conn sample_transport sample_config) = (Ok (), c)"
    and d: "deprecateEOF c" by fastforce
  from handshake_negotiation [OF c] c d show ?thesis by (auto simp: sample_config_def zero_config_def)
qed

end
