(* ===== verification/Driver_Sessions.thy ===== *)
theory Driver_Sessions
  imports Lifecycle Negotiation
begin

text \<open>
  From opening a connection to its end: what the handshake settles, and that every connection the
  driver opens keeps the invariant of \<open>Lifecycle\<close> and the contract towards the pool.
\<close>

subsection \<open>The frame of the handshake\<close>

definition opens :: "conn \<Rightarrow> conn \<Rightarrow> bool" where
  "opens c d \<longleftrightarrow>
     (packets c \<noteq> None \<longrightarrow> packets d \<noteq> None) \<and> (netConn c \<noteq> None \<longrightarrow> netConn d \<noteq> None) \<and> cfg d = cfg c \<and>
     closed d = closed c \<and> inTx d = inTx c \<and> locked d = locked c"

interpretation op: state_frame opens
  by unfold_locales (auto simp: opens_def)

lemma conn_frame_opens: "conn_frame P c d \<Longrightarrow> opens c d"
  by (cases "packets c"; cases "packets d") (auto simp: conn_frame_def opens_def)

lemma within_opens: "within (conn_frame P) m \<Longrightarrow> within opens m"
  unfolding within_def using conn_frame_opens by blast

lemma on_packets_opens: "within opens (on_packets m)"
  by (auto simp: within_def on_packets_def opens_def split: option.splits prod.splits)

lemma update_opens:
  "within opens (\<lambda>c. (f c, c\<lparr>tenantMode := t\<rparr>))"
  "within opens (\<lambda>c. (f c, c\<lparr>netConn := Some n, packets := Some p\<rparr>))"
  "opens c (c\<lparr>deprecateEOF := a, sessionTrack := b\<rparr>)"
  by (auto simp: within_def opens_def)

lemmas opens_intros = op.within_bind op.within_if op.within_return op.within_fail op.within_const on_packets_opens
  within_opens [OF un.handleOK_within] within_opens [OF un.lift_res_within] update_opens(1,2)

lemma conn_io_opens: "within opens (conn_read z)" "within opens (conn_write z b)"
  by (simp_all add: conn_read_def conn_write_def on_packets_opens)

lemma auth_ok_opens: "within opens (auth_ok env conf hs b)"
  unfolding auth_ok_def by (intro opens_intros within_if_state)

lemma auth_switch_opens: "within opens (auth_switch z conf hs)"
  unfolding auth_switch_def readAuthSwitchData_def Let_def
  by (intro op.within_bind) (auto intro!: opens_intros conn_io_opens split: prod.splits)

lemma auth_rounds_opens: "within opens (auth_rounds env z conf n hs)"
proof (induction n arbitrary: hs)
  case 0
  then show ?case by simp
next
  case (Suc n)
  then show ?case
    unfolding auth_rounds.simps
    by (intro opens_intros conn_io_opens auth_ok_opens auth_switch_opens)
qed

lemma start_tls_opens: "within opens (start_tls net z conf hs)"
  unfolding start_tls_def sendSSLRequest_def
  by (auto intro!: opens_intros conn_io_opens split: option.splits)

text \<open>Setting the negotiated flags on the way into a call stays in the frame.\<close>

lemma flags_opens:
  assumes "\<And>c. within opens (m c)"
  shows "within opens (\<lambda>c. m c (c\<lparr>deprecateEOF := f c, sessionTrack := g c\<rparr>))"
proof (rule withinI)
  fix c r d
  assume "m c (c\<lparr>deprecateEOF := f c, sessionTrack := g c\<rparr>) = (r, d)"
  from withinD [OF assms this] show "opens c d" by (simp add: opens_def)
qed

lemma conn_handshake_opens: "within opens (conn_handshake env net z conf)"
proof -
  have reply: "within opens (\<lambda>c. let response = resp c; clientCaps = (le_word (take 4 response) :: u32)
      in bind_st (conn_write z response) (\<lambda>_. handleAuthResult env z conf hs)
           (c\<lparr>deprecateEOF := clientCaps AND ClientDeprecateEOF \<noteq> 0,
              sessionTrack := clientCaps AND ClientSessionTrack \<noteq> 0 \<and> capabilities hs AND ClientSessionTrack \<noteq> 0\<rparr>))" for resp hs
    unfolding Let_def handleAuthResult_def
    by (rule flags_opens [where m = "\<lambda>c. bind_st (conn_write z (resp c)) (\<lambda>_. auth_rounds env z conf maxAuthRounds hs)"])
      (intro op.within_bind conn_io_opens auth_rounds_opens)
  show ?thesis
    unfolding conn_handshake_def
    by (subst Let_def) (intro opens_intros conn_io_opens start_tls_opens reply)
qed

lemma withDeadline_opens: "within opens m \<Longrightarrow> within opens (withDeadline ctx m)"
proof -
  assume m: "within opens m"
  have 1: "within opens (needs_deadline ctx)" by (auto simp: within_def needs_deadline_def split: option.splits)
  have 2: "within opens SetDeadline"
    by (auto simp: within_def SetDeadline_def opens_def split: option.splits list.splits)
  have 3: "within opens (\<lambda>c. case m c of
        (Err e, c') \<Rightarrow> (case ctxErr ctx of Some ctxE \<Rightarrow> (Err ctxE, c'\<lparr>bad := True\<rparr>) | None \<Rightarrow> (Err e, c'))
      | r \<Rightarrow> r)"
  proof (rule withinI)
    fix c r d
    assume run: "(case m c of
        (Err e, c') \<Rightarrow> (case ctxErr ctx of Some ctxE \<Rightarrow> (Err ctxE, c'\<lparr>bad := True\<rparr>) | None \<Rightarrow> (Err e, c'))
      | r \<Rightarrow> r) = (r, d)"
    obtain r1 c1 where m1: "m c = (r1, c1)" by fastforce
    have "opens c c1" using withinD [OF m m1] .
    with run m1 show "opens c d" by (auto simp: opens_def split: res.splits option.splits)
  qed
  show ?thesis
    unfolding withDeadline_def by (intro op.within_bind op.within_if op.within_return 1 2 3)
qed

lemma init_queries_opens: "within opens (init_queries z ctx queries)"
proof (induction queries)
  case Nil
  then show ?case by simp
next
  case (Cons q queries)
  have "within opens (\<lambda>c. case execLocked z ctx q c of
              (Ok _, c') \<Rightarrow> (Ok (), c')
            | (Err e, c') \<Rightarrow> (Err (Errorf ''init query %q failed: %w'' [AStr q, AWrap e]), c')
            | (Panic, c') \<Rightarrow> (Panic, c'))"
    using within_snd [OF within_opens [OF execLocked_within [of z ctx q]]]
    by (auto simp: within_def split: prod.splits res.splits) (metis snd_conv)+
  with Cons show ?case by (simp add: op.within_bind)
qed

lemma init_session_opens: "within opens (init_session z ctx conf)"
proof -
  have "within opens (\<lambda>c. case configureSessionTimeZone z ctx c of
         (Err e, c') \<Rightarrow> (Err (Errorf ''configure session time zone failed: %w'' [AWrap e]), c')
       | r \<Rightarrow> r)"
    using within_snd [OF within_opens [OF configure_within [of z ctx]]]
    by (auto simp: within_def split: prod.splits res.splits) (metis snd_conv)+
  then show ?thesis unfolding init_session_def by (intro op.within_bind init_queries_opens)
qed

subsection \<open>An opened connection\<close>

definition fresh_session :: "conn \<Rightarrow> session" where
  "fresh_session c = \<lparr>sConn = c, sRows = None, sTx = None\<rparr>"

lemma dial_loop_opens:
  "dial_loop env net z ctx conf i addrs lastErr = Ok (Some c) \<Longrightarrow> \<exists>t. opens (new_conn t conf) c"
proof (induction addrs arbitrary: i lastErr)
  case Nil
  then show ?case by (simp split: option.splits)
next
  case (Cons addr addrs)
  show ?case
  proof (cases "DialContext net i addr")
    case (Ok t)
    obtain r1 c1 where hs: "withDeadline ctx (conn_handshake env net z conf) (new_conn t conf) = (r1, c1)" by fastforce
    obtain r2 c2 where init: "init_session z ctx conf c1 = (r2, c2)" by fastforce
    show ?thesis
    proof (cases r1)
      case (Ok u)
      with Cons.prems \<open>DialContext net i addr = Ok t\<close> hs init have "c = c2" by (auto split: res.splits)
      with withinD [OF withDeadline_opens [OF conn_handshake_opens] hs] withinD [OF init_session_opens init] op.trans
      show ?thesis by blast
    qed (use Cons hs \<open>DialContext net i addr = Ok t\<close> in auto)
  qed (use Cons in auto)
qed

lemma dialled_ok:
  assumes "dialAndHandshake env net z ctx conf = Ok (Some c)"
  shows "session_ok (fresh_session c)" and "\<not> inTx c" and "\<not> closed c" and "cfg c = Some conf"
proof -
  obtain t where "opens (new_conn t conf) c" using assms dial_loop_opens unfolding dialAndHandshake_def by blast
  then show "session_ok (fresh_session c)" and "\<not> inTx c" and "\<not> closed c" and "cfg c = Some conf"
    by (auto simp: opens_def new_conn_def session_ok_def fresh_session_def holds_lock_def)
qed

subsection \<open>Runs\<close>

inductive runs :: "calls_env \<Rightarrow> session \<Rightarrow> request list \<Rightarrow> session \<Rightarrow> bool" for E s0 where
  none: "runs E s0 [] s0"
| more: "runs E s0 qs s \<Longrightarrow> step E s q s' \<Longrightarrow> runs E s0 (qs @ [q]) s'"

inductive contract :: "spec \<Rightarrow> request list \<Rightarrow> spec \<Rightarrow> bool" for a0 where
  begins: "contract a0 [] a0"
| continues: "contract a0 qs a \<Longrightarrow> allowed q a a' \<Longrightarrow> contract a0 (qs @ [q]) a'"

lemma runs_contract:
  assumes "runs E s0 qs s" and "session_ok s0"
  shows "session_ok s \<and> contract (abs_session s0) qs (abs_session s)"
  using assms
proof (induction rule: runs.induct)
  case none
  then show ?case by (simp add: contract.begins)
next
  case (more qs s q s')
  then show ?case using step_allowed [of E s q s'] contract.continues by blast
qed

text \<open>The abstract contract already forbids that a retired or ended connection comes back.\<close>

lemma allowed_retired: "allowed q a a' \<Longrightarrow> spRetired a \<Longrightarrow> spRetired a'"
  by (cases q) (auto simp: sp_query_def sp_usable_def sp_end_tx_def sp_command_def sp_retiring_def split: if_splits)

lemma allowed_ended: "allowed q a a' \<Longrightarrow> spPhase a = Ended \<Longrightarrow> spPhase a' = Ended"
  by (cases q)
    (auto simp: sp_query_def sp_usable_def sp_end_tx_def sp_command_def sp_retiring_def split: if_splits,
     (metis spec.select_convs(1) spec.surjective spec.update_convs(2))+)

lemma contract_final: "contract a qs a' \<Longrightarrow> (spRetired a \<longrightarrow> spRetired a') \<and> (spPhase a = Ended \<longrightarrow> spPhase a' = Ended)"
  by (induction rule: contract.induct) (blast intro: allowed_retired allowed_ended)+

subsection \<open>Reading to the end\<close>

lemma end_frees_lock:
  assumes "session_ok s" and "sRows s = Some r" and run: "Rows_Next z pf (r, sConn s) = (Err e, (r', c'))"
  shows "\<not> locked c'"
proof (cases "rStreaming r")
  case True
  then have "nextStreaming z pf (r, sConn s) = (Err e, (r', c'))" using run by (simp add: Rows_Next_def)
  then show ?thesis
  proof (cases rule: nextStreaming_cases)
    case stay
    with assms(1,2) show ?thesis by (auto simp: session_ok_def holds_lock_def rows_ok_def conn_frame_def)
  next
    case (finished e c1)
    with assms(1,2) show ?thesis by (auto simp: session_ok_def holds_lock_def conn_frame_def split: if_splits)
  qed
next
  case False
  with assms show ?thesis
    by (auto simp: Rows_Next_def session_ok_def holds_lock_def rows_ok_def split: if_splits)
qed

lemma fetch_frees_lock:
  assumes "session_ok s" and "sRows s = Some r" and "fetch z pf (r, sConn s) = ((rows, Some e), (r', c'))"
  shows "\<not> locked c' \<and> session_ok (s\<lparr>sConn := c', sRows := Some r'\<rparr>)"
  using assms
proof (induction rows arbitrary: s r)
  case Nil
  obtain res rc1 where n: "Rows_Next z pf (r, sConn s) = (res, rc1)" by (metis surj_pair)
  with Nil.prems(3) have "res = Err e" and "rc1 = (r', c')"
    by (auto simp: fetch.simps [of z pf "(r, sConn s)"] split: res.splits prod.splits)
  with n end_frees_lock [OF Nil.prems(1,2)] next_step [OF Nil.prems(1,2)] show ?case by blast
next
  case (Cons row rows)
  obtain res r1 c1 where n: "Rows_Next z pf (r, sConn s) = (res, (r1, c1))" by (metis surj_pair)
  let ?s = "s\<lparr>sConn := c1, sRows := Some r1\<rparr>"
  from n Cons.prems(3) have f: "fetch z pf (r1, sConn ?s) = ((rows, Some e), (r', c'))"
    by (auto simp: fetch.simps [of z pf "(r, sConn s)"] split: res.splits prod.splits)
  have "session_ok ?s" using next_step [OF Cons.prems(1,2) n] by blast
  from Cons.IH [OF this _ f] show ?case by simp
qed

text \<open>Every packet of the plain protocol takes at least its header off the stream.\<close>

lemma length_plain_frames: "4 \<le> length (plain_frames s b)"
  by (subst plain_frames.simps) simp

lemma read_marked_plain:
  assumes "read_marked z c = (Ok b, c')" and "packets c = Some p" and "\<not> ob20 p" and "\<not> compressed p"
  shows "\<exists>q. packets c' = Some q \<and> \<not> ob20 q \<and> \<not> compressed q \<and> 4 + length (rx q) \<le> length (rx p)"
proof -
  from assms(1,2) obtain q where q: "ReadPacket (zlibOpen z) p = (Ok b, q)" "packets c' = Some q"
    by (auto simp: read_marked_def on_error_Ok conn_read_def on_packets_def split: prod.splits)
  then have "rx p = plain_frames (seq p) b @ rx q"
    using ReadPacket_loop_plain_Ok [OF assms(3,4), of "zlibOpen z" "[]"] by (auto simp: ReadPacket_def)
  then have "4 + length (rx q) \<le> length (rx p)" using length_plain_frames [of "seq p" b] by simp
  moreover have "same_mode p q" using withinD [OF ReadPacket_read_only q(1)] by (simp add: read_only_def)
  ultimately show ?thesis using q(2) assms(3,4) by (simp add: same_mode_def)
qed

lemma fetch_bound:
  assumes "rStreaming r" and "packets c = Some p" and "\<not> ob20 p" and "\<not> compressed p"
    and "fetch z pf (r, c) = ((rows, e), rc')"
  shows "4 * length rows \<le> length (rx p)"
  using assms
proof (induction rows arbitrary: c p)
  case Nil
  then show ?case by simp
next
  case (Cons row rows)
  obtain res r1 c1 where n: "Rows_Next z pf (r, c) = (res, (r1, c1))" by (metis surj_pair)
  from n Cons.prems(5) have res: "res = Ok row" and f: "fetch z pf (r1, c1) = ((rows, e), rc')"
    by (auto simp: fetch.simps [of z pf "(r, c)"] split: res.splits prod.splits)
  have "nextStreaming z pf (r, c) = (Ok row, (r1, c1))" using n res Cons.prems(1) by (simp add: Rows_Next_def)
  then obtain b where b: "read_marked z c = (Ok b, c1)" and "r1 = r"
    by (auto simp: nextStreaming_def split: if_splits prod.splits res.splits)
  from read_marked_plain [OF b Cons.prems(2-4)] obtain q where
    q: "packets c1 = Some q" "\<not> ob20 q" "\<not> compressed q" "4 + length (rx q) \<le> length (rx p)" by blast
  have "4 * length rows \<le> length (rx q)" by (rule Cons.IH) (use Cons.prems(1) q f \<open>r1 = r\<close> in auto)
  with q(4) show ?case by simp
qed

subsection \<open>Properties\<close>

lemma sample_dial:
  "\<exists>c. dialAndHandshake sample_client sample_network sample_zlib Background sample_config = Ok (Some c) \<and> \<not> bad c"
proof -
  let ?c0 = "new_conn sample_transport sample_config"
  from sample_handshake obtain q where
    h: "conn_handshake sample_client sample_network sample_zlib sample_config ?c0 =
      (Ok (), ?c0\<lparr>tenantMode := ''mysql'', packets := Some q, deprecateEOF := True, sessionTrack := True\<rparr>)" ..
  let ?c1 = "?c0\<lparr>tenantMode := ''mysql'', packets := Some q, deprecateEOF := True, sessionTrack := True\<rparr>"
  have conf: "Addrs sample_config = [''h:1'']" "InitSQL sample_config = []" "Timeout sample_config = 0"
    by (simp_all add: sample_config_def zero_config_def)
  have net: "DialContext sample_network i a = Ok sample_transport" for i a by (simp add: sample_network_def)
  have c0: "cfg ?c0 = Some sample_config" "\<not> bad ?c0" by (simp_all add: new_conn_def)
  have "needs_deadline Background ?c0 = (Ok False, ?c0)" by (simp add: needs_deadline_def Background_def c0 conf)
  then have "withDeadline Background (conn_handshake sample_client sample_network sample_zlib sample_config) ?c0 = (Ok (), ?c1)"
    using h by (simp add: withDeadline_def bind_st_def)
  moreover have "init_session sample_zlib Background sample_config ?c1 = (Ok (), ?c1\<lparr>sessionLocation := Some UTC\<rparr>)"
    by (simp add: init_session_def conf configureSessionTimeZone_def c0 sample_parts lift_res_def)
  ultimately show ?thesis by (simp add: dialAndHandshake_def conf net c0)
qed

text \<open>The session after \<open>BeginTx\<close> on a connection just opened.\<close>

definition begun :: "conn \<Rightarrow> session" where
  "begun c = \<lparr>sConn = c\<lparr>inTx := True\<rparr>, sRows = None, sTx = Some \<lparr>txDone = False\<rparr>\<rparr>"

lemma begin_step:
  assumes "dialAndHandshake env net z ctx conf = Ok (Some c)"
  shows "step E (fresh_session c) (BeginR 0 False) (begun c)"
proof (rule step.intros [where r = "Ok ()"])
  have "\<not> locked c" and "\<not> inTx c" using dialled_ok [OF assms] by (auto simp: session_ok_def fresh_session_def holds_lock_def)
  then show "enabled (BeginR 0 False) (fresh_session c)" "run E (BeginR 0 False) (fresh_session c) = (Ok (), begun c)"
    by (simp_all add: fresh_session_def begun_def BeginTx_def)
qed simp

text \<open>
  C3: Every connection the driver opens keeps its invariant for life, whatever calls follow, in any
  order the lock admits, and whatever the server sends: it is closed exactly when its socket and its
  packet layer are gone, the lock is held exactly while a result set is streaming on it, a closed
  connection is not locked; and the configuration, the tenant mode, the negotiated flags and the
  framing are those the handshake settled, while a connection marked bad or closed stays so.
\<close>

theorem opened_sessions_invariant:
  assumes "dialAndHandshake env net z ctx conf = Ok (Some c)" and "reachable E (fresh_session c) s"
  shows "session_ok s \<and> kept c (sConn s)"
  using reachable_invariant [OF assms(2) dialled_ok(1) [OF assms(1)]] by (simp add: fresh_session_def)

theorem opened_sessions_invariant_witness:
  "\<exists>c. dialAndHandshake sample_client sample_network sample_zlib Background sample_config = Ok (Some c) \<and>
     (\<forall>E. \<exists>s. reachable E (fresh_session c) s \<and> inTx (sConn s) \<and> session_ok s \<and> kept c (sConn s))"
proof -
  from sample_dial obtain c where c: "dialAndHandshake sample_client sample_network sample_zlib Background sample_config = Ok (Some c)" by blast
  have "\<exists>s. reachable E (fresh_session c) s \<and> inTx (sConn s) \<and> session_ok s \<and> kept c (sConn s)" for E
  proof -
    have r: "reachable E (fresh_session c) (begun c)" by (rule reachable.later [OF reachable.start begin_step [OF c]])
    from opened_sessions_invariant [OF c r] r show ?thesis by (intro exI [of _ "begun c"]) (simp add: begun_def)
  qed
  with c show ?thesis by blast
qed

text \<open>
  C4: The driver refines its contract towards the connection pool: any sequence of calls that runs on
  an opened connection is a run of the abstract machine with three pieces of state, the phase (idle,
  streaming, ended), whether the connection is retired, and whether it is in a transaction.  So no
  call can revive a retired or ended connection, only a query starts streaming and no command runs
  while one streams, a reset leaves a transaction only by ending it or retiring the connection.
\<close>

theorem sessions_refine_contract:
  assumes "dialAndHandshake env net z ctx conf = Ok (Some c)" and "runs E (fresh_session c) qs s"
  shows "contract \<lparr>spPhase = Idle, spRetired = bad c, spInTx = False\<rparr> qs (abs_session s) \<and>
    (bad c \<longrightarrow> \<not> IsValid (sConn s)) \<and> (IsValid (sConn s) \<longleftrightarrow> sp_usable (abs_session s))"
proof -
  have ok: "session_ok (fresh_session c)" "\<not> inTx c" "\<not> closed c" using dialled_ok [OF assms(1)] by auto
  then have "abs_session (fresh_session c) = \<lparr>spPhase = Idle, spRetired = bad c, spInTx = False\<rparr>"
    by (simp add: abs_session_def fresh_session_def session_ok_def holds_lock_def)
  with runs_contract [OF assms(2) ok(1)] have run: "contract \<lparr>spPhase = Idle, spRetired = bad c, spInTx = False\<rparr> qs (abs_session s)"
    by simp
  with contract_final [OF run] show ?thesis by (auto simp: usable_abs IsValid_def)
qed

theorem sessions_refine_contract_witness:
  "\<exists>c s. dialAndHandshake sample_client sample_network sample_zlib Background sample_config = Ok (Some c) \<and>
     contract \<lparr>spPhase = Idle, spRetired = False, spInTx = False\<rparr> [BeginR 0 False] (abs_session s) \<and> spInTx (abs_session s) \<and> IsValid (sConn s)"
proof -
  from sample_dial obtain c where c: "dialAndHandshake sample_client sample_network sample_zlib Background sample_config = Ok (Some c)"
    and good: "\<not> bad c" by blast
  have "runs E (fresh_session c) [BeginR 0 False] (begun c)" for E
    using runs.more [OF runs.none begin_step [OF c]] by simp
  from sessions_refine_contract [OF c this] c good dialled_ok(3) [OF c] show ?thesis
    by (intro exI [of _ c] exI [of _ "begun c"]) (simp add: IsValid_def begun_def)
qed

text \<open>
  C16: Reading a result set ends: the client's loop over \<open>Next\<close> is a total function, and when it ends
  with an error of any kind (\<open>io.EOF\<close> among them) the connection's lock is free and the session
  well-formed, so that the next command can run.
\<close>

theorem reading_frees_lock:
  assumes "session_ok s" and "sRows s = Some r" and "fetch z pf (r, sConn s) = ((rows, Some e), (r', c'))"
  shows "\<not> locked c' \<and> session_ok (s\<lparr>sConn := c', sRows := Some r'\<rparr>) \<and> enabled (PingR Background) (s\<lparr>sConn := c'\<rparr>)"
  using fetch_frees_lock [OF assms] by simp

text \<open>
  C17: How long reading takes: over plain packets the loop over \<open>Next\<close> returns after at most a quarter
  as many rows as there are bytes to be read, however the server fills them.
\<close>

theorem reading_is_bounded:
  assumes "rStreaming r" and "packets c = Some p" and "\<not> ob20 p" and "\<not> compressed p"
  shows "\<exists>rows e rc'. fetch z pf (r, c) = ((rows, e), rc') \<and> 4 * length rows \<le> length (rx p)"
  using fetch_bound [OF assms] by (metis surj_pair)

definition sample_rows :: rows where
  "sample_rows = zero_rows\<lparr>rConn := True, rStreaming := True, rRelease := True\<rparr>"

lemma sample_fetch:
  "\<exists>e r' c'. fetch sample_zlib (\<lambda>_. None) (sample_rows, (sample_conn (NewPacketConn [] EOF))\<lparr>locked := True\<rparr>) = (([], Some e), (r', c'))"
proof -
  have "ReadPacket (\<lambda>_. Err EOF) (NewPacketConn [] EOF) = (Err EOF, NewPacketConn [] EOF)"
    by (simp add: ReadPacket_def ReadPacket_loop.simps readPlainFrame_def readFull_def read_full_src_def NewPacketConn_def bind_st_def)
  then show ?thesis
    by (auto simp: fetch.simps Rows_Next_def nextStreaming_def sample_rows_def zero_rows_def read_marked_def on_error_def conn_read_def
        on_packets_def sample_conn_def sample_zlib_def split: prod.splits)
qed

theorem reading_frees_lock_witness:
  "\<exists>e r' c'. fetch sample_zlib (\<lambda>_. None) (sample_rows, (sample_conn (NewPacketConn [] EOF))\<lparr>locked := True\<rparr>) = (([], Some e), (r', c')) \<and>
     \<not> locked c'"
proof -
  let ?c = "(sample_conn (NewPacketConn [] EOF))\<lparr>locked := True\<rparr>"
  let ?s = "\<lparr>sConn = ?c, sRows = Some sample_rows, sTx = None\<rparr>"
  have ok: "session_ok ?s"
    by (simp add: session_ok_def holds_lock_def rows_ok_def sample_conn_def sample_rows_def zero_rows_def)
  from sample_fetch obtain e r' c' where f: "fetch sample_zlib (\<lambda>_. None) (sample_rows, sConn ?s) = (([], Some e), (r', c'))" by auto
  from reading_frees_lock [OF ok _ f] f show ?thesis by auto
qed

theorem reading_is_bounded_witness:
  "\<exists>rows e rc'. fetch sample_zlib (\<lambda>_. None) (sample_rows, sample_conn (NewPacketConn [1, 0, 0, 0, 0xFB, 9, 9, 9] EOF)) = ((rows, e), rc') \<and>
     length rows \<le> 2"
proof -
  let ?p = "NewPacketConn [1, 0, 0, 0, 0xFB, 9, 9, 9] EOF"
  have "rStreaming sample_rows" "packets (sample_conn ?p) = Some ?p" "\<not> ob20 ?p" "\<not> compressed ?p" "length (rx ?p) = 8"
    by (simp_all add: sample_rows_def sample_conn_def NewPacketConn_def)
  with reading_is_bounded [of sample_rows "sample_conn ?p" ?p sample_zlib "\<lambda>_. None"] show ?thesis by fastforce
qed

end
