(* ===== verification/Row_Types.thy ===== *)
theory Row_Types
  imports Exchanges
begin

text \<open>
  The types of the values a result set delivers, in the text and in the binary protocol, against what
  the column metadata announces.
\<close>

subsection \<open>Types of values\<close>

fun has_type :: "gval \<Rightarrow> scan_type \<Rightarrow> bool" where
  "has_type (VInt i) T = (T = TInt64 \<and> int64 i)"
| "has_type (VFloat f) T = (T = TFloat64)"
| "has_type (VTime t) T = (T = TTime)"
| "has_type (VBytes b) T = (T = TBytes)"
| "has_type (VString s) T = (T = TString)"
| "has_type _ T = False"

text \<open>
  The type of the values a decoder delivers for a column: the one \<open>scanType\<close> announces, with four
  exceptions.  \<open>YEAR\<close> announces a string and delivers integers; \<open>BIT\<close> announces a string and
  delivers bytes; \<open>GEOMETRY\<close> announces bytes and delivers a string; and the binary protocol
  delivers every column that announces bytes as a string.
\<close>

definition delivered :: "bool \<Rightarrow> byte \<Rightarrow> scan_type" where
  "delivered binary ty =
     (if ty = ColumnTypeYear then TInt64
      else if ty = ColumnTypeBit then TBytes
      else if ty = ColumnTypeGeometry then TString
      else if binary \<and> scanType ty = TBytes then TString
      else scanType ty)"

text \<open>Whether a text of the text protocol is one the decoder of the column's type can read.\<close>

definition readable :: "(string \<Rightarrow> u64 option) \<Rightarrow> byte \<Rightarrow> string \<Rightarrow> bool" where
  "readable pf ty s =
     (case delivered False ty of
        TInt64 \<Rightarrow> ParseInt s \<noteq> None
      | TFloat64 \<Rightarrow> pf s \<noteq> None
      | TTime \<Rightarrow> IsOracleTimeType ty \<or> try_formats [DateTimeLayout, DateTimeLayout, DateLayout] s \<noteq> None
      | _ \<Rightarrow> True)"

text \<open>
  The value of a column against what was sent for it.  In the text protocol a NULL cell gives
  NULL, a readable text a value of the type delivered, and an unreadable text is itself.
\<close>

definition typed_text :: "(string \<Rightarrow> u64 option) \<Rightarrow> bytes option \<Rightarrow> byte \<Rightarrow> gval \<Rightarrow> bool" where
  "typed_text pf cell ty v =
     (case cell of
        None \<Rightarrow> v = VNil
      | Some raw \<Rightarrow>
          if readable pf ty (string_of raw) then has_type v (delivered False ty)
          else v = VString (string_of raw))"

definition typed_binary :: "byte \<Rightarrow> gval \<Rightarrow> bool" where
  "typed_binary ty v \<longleftrightarrow> v = VNil \<or> has_type v (delivered True ty)"

text \<open>The cells of a row of the text protocol, as length-encoded strings; \<open>None\<close> is NULL.\<close>

fun text_cells :: "nat \<Rightarrow> bytes \<Rightarrow> bytes option list" where
  "text_cells 0 rest = []"
| "text_cells (Suc n) rest =
     (if rest \<noteq> [] \<and> hd rest = NullColumn then None # text_cells n (tl rest)
      else case ReadLengthEncodedString rest of
        Ok (raw, used, _) \<Rightarrow> Some raw # text_cells n (drop used rest)
      | _ \<Rightarrow> [])"

subsection \<open>The decoders\<close>

lemma ParseInt_int64: "ParseInt s = Some v \<Longrightarrow> int64 v"
  by (auto simp: ParseInt_def Let_def int64_def split: if_splits)

lemma textValue_delivered:
  assumes "\<not> IsOracleTimeType ty"
  shows "textValue pf raw ty =
    (case delivered False ty of
       TInt64 \<Rightarrow> int_or_string (string_of raw)
     | TFloat64 \<Rightarrow> (case pf (string_of raw) of Some v \<Rightarrow> VFloat v | None \<Rightarrow> VString (string_of raw))
     | TTime \<Rightarrow> (case try_formats [DateTimeLayout, DateTimeLayout, DateLayout] (string_of raw) of
                  Some t \<Rightarrow> VTime t | None \<Rightarrow> VString (string_of raw))
     | TBytes \<Rightarrow> VBytes raw
     | TString \<Rightarrow> VString (string_of raw))"
  using assms
  by (auto simp: textValue_def Let_def IsOracleTimeType_def delivered_def scanType_def column_types
      simp del: try_formats.simps)

lemma textValue_typed:
  assumes "textValueInLocation pf raw ty l = Ok v"
  shows "typed_text pf (Some raw) ty v"
proof (cases "IsOracleTimeType ty")
  case True
  with assms obtain t where "v = VTime t" by (auto simp: textValueInLocation_def)
  moreover have "delivered False ty = TTime"
    using True by (auto simp: IsOracleTimeType_def delivered_def scanType_def column_types)
  ultimately show ?thesis using True by (simp add: typed_text_def readable_def)
next
  case False
  with assms have "v = textValue pf raw ty" by (simp add: textValueInLocation_def)
  with False show ?thesis
    by (simp add: textValue_delivered typed_text_def readable_def int_or_string_def ParseInt_int64
        split: scan_type.splits option.splits del: try_formats.simps)
qed

lemma sint_int64:
  "int64 (sint (w8 :: byte))" "int64 (sint (w16 :: u16))" "int64 (sint (w32 :: u32))" "int64 (sint (w64 :: u64))"
  using sint_range_size [of w8] sint_range_size [of w16] sint_range_size [of w32] sint_range_size [of w64]
  by (auto simp: int64_def word_size)

lemma ParseBinaryTime_typed: "ParseBinaryTime data = Ok (v, used) \<Longrightarrow> \<exists>t. v = VTime t"
  by (auto simp: ParseBinaryTime_def Let_def split: if_splits)

lemma binaryValue_typed: "ParseBinaryValueInLocation data ty l = Ok (v, used) \<Longrightarrow> typed_binary ty v"
  by (auto simp: ParseBinaryValueInLocation_def typed_binary_def delivered_def scanType_def string_types_def column_types
      sint_int64 split: if_splits dest!: ParseBinaryTime_typed)

lemma text_columns_typed:
  "text_columns pf types l n rest = Ok (row, rest') \<Longrightarrow> length types = n \<Longrightarrow>
   length (text_cells n rest) = n \<and> length row = n \<and>
   (\<forall>i < n. typed_text pf (text_cells n rest ! i) (types ! i) (row ! i))"
proof (induction n arbitrary: types rest row rest')
  case 0
  then show ?case by simp
next
  case (Suc n)
  then obtain ty types' where types: "types = ty # types'" "length types' = n" by (cases types) auto
  with Suc.prems(1) obtain v row' rest1 cell where row: "row = v # row'"
    and v: "typed_text pf cell ty v" and cells: "text_cells (Suc n) rest = cell # text_cells n rest1"
    and later: "text_columns pf types' l n rest1 = Ok (row', rest')"
    by (cases rest) (auto split: if_splits dest: textValue_typed simp: typed_text_def [of _ None])
  from Suc.IH [OF later types(2)] show ?case
    using v by (auto simp: row cells types nth_Cons less_Suc_eq_0_disj simp del: text_cells.simps)
qed

lemma binary_columns_typed:
  "binary_columns bm types l i n rest row = Ok (row', rest') \<Longrightarrow> list_all2 typed_binary (take i types) row \<Longrightarrow>
   i + n = length types \<Longrightarrow> list_all2 typed_binary types row'"
proof (induction n arbitrary: i rest row)
  case 0
  then show ?case by simp
next
  case (Suc n)
  have i: "i < length types" using Suc.prems(3) by simp
  have app: "list_all2 typed_binary (take (Suc i) types) (row @ [v])" if "typed_binary (types ! i) v" for v
    using that Suc.prems(2) i by (simp add: take_Suc_conv_app_nth list_all2_appendI)
  show ?case
  proof (cases "bit (bm ! ((i + 2) div 8)) ((i + 2) mod 8)")
    case True
    with Suc.prems have "binary_columns bm types l (Suc i) n rest (row @ [VNil]) = Ok (row', rest')" by simp
    from Suc.IH [OF this app] Suc.prems(3) show ?thesis by (simp add: typed_binary_def)
  next
    case False
    with Suc.prems i obtain v used where "ParseBinaryValueInLocation rest (types ! i) l = Ok (v, used)"
      and "binary_columns bm types l (Suc i) n (drop used rest) (row @ [v]) = Ok (row', rest')"
      by (auto)
    from Suc.IH [OF this(2) app [OF binaryValue_typed [OF this(1)]]] Suc.prems(3) show ?thesis by simp
  qed
qed

lemma parse_row_typed:
  assumes "parse_row pf r packet = Ok row" and "length (rColumns r) = length (rTypes r)"
  shows "if rBinary r then list_all2 typed_binary (rTypes r) row
    else length row = length (rTypes r) \<and> length (text_cells (length row) packet) = length row \<and>
      (\<forall>i < length row. typed_text pf (text_cells (length row) packet ! i) (rTypes r ! i) (row ! i))"
proof (cases "rBinary r")
  case True
  with assms show ?thesis
    by (auto simp: parse_row_def ParseBinaryRowInLocation_def Let_def split: if_splits prod.splits
        intro: binary_columns_typed [where row = "[]" and i = 0])
next
  case False
  with assms obtain rest' where "text_columns pf (rTypes r) (rSessionLocation r) (length (rTypes r)) packet = Ok (row, rest')"
    by (auto simp: parse_row_def parseTextRowInLocation_def split: if_splits prod.splits)
  from text_columns_typed [OF this] False show ?thesis by simp
qed

text \<open>
  C18: Whatever the server sends, a row that \<open>Next\<close> delivers from a streaming result set has exactly
  one value per column, of a type fixed by the column.  In the text protocol a NULL cell gives NULL
  and a text that the column's type can read gives a value of that type; only a text that an integer,
  float or date column cannot read is delivered as that text.  In the binary protocol a value is NULL
  or of the column's type.  The type is the one that \<open>ColumnTypeScanType\<close> announces, with the four
  exceptions of \<open>delivered\<close>: \<open>YEAR\<close> (integers for an announced string), \<open>BIT\<close> (bytes for an
  announced string), \<open>GEOMETRY\<close> (a string for announced bytes), and in the binary protocol every
  column that announces bytes (a string).
\<close>

theorem rows_are_typed:
  assumes "Rows_Next z pf (r, c) = (Ok row, rc')" and "rStreaming r" and "length (rColumns r) = length (rTypes r)"
  shows "length row = length (rTypes r) \<and>
    (\<exists>packet. fst (read_marked z c) = Ok packet \<and>
      (rBinary r \<or> length (text_cells (length row) packet) = length row) \<and>
      (\<forall>i < length row.
         if rBinary r then typed_binary (rTypes r ! i) (row ! i)
         else typed_text pf (text_cells (length row) packet ! i) (rTypes r ! i) (row ! i))) \<and>
    (\<forall>i < length row. \<forall>binary.
       delivered binary (rTypes r ! i) \<noteq> ColumnTypeScanType r (int i) \<longleftrightarrow>
       rTypes r ! i \<in> {ColumnTypeYear, ColumnTypeBit, ColumnTypeGeometry} \<or>
       binary \<and> ColumnTypeScanType r (int i) = TBytes)"
proof -
  obtain packet where packet: "fst (read_marked z c) = Ok packet" "parse_row pf r packet = Ok row"
    using assms(1,2)
    by (auto simp: Rows_Next_def nextStreaming_def split: if_splits prod.splits res.splits)
  note row = parse_row_typed [OF packet(2) assms(3)]
  then have len: "length row = length (rTypes r)" by (auto split: if_splits dest: list_all2_lengthD)
  have "delivered binary ty \<noteq> scanType ty \<longleftrightarrow>
      ty \<in> {ColumnTypeYear, ColumnTypeBit, ColumnTypeGeometry} \<or> binary \<and> scanType ty = TBytes" for binary ty
    by (auto simp: delivered_def scanType_def column_types)
  then have "\<forall>i < length row. \<forall>binary. delivered binary (rTypes r ! i) \<noteq> ColumnTypeScanType r (int i) \<longleftrightarrow>
       rTypes r ! i \<in> {ColumnTypeYear, ColumnTypeBit, ColumnTypeGeometry} \<or>
       binary \<and> ColumnTypeScanType r (int i) = TBytes"
    by (simp add: ColumnTypeScanType_def len)
  moreover have "rBinary r \<or> length (text_cells (length row) packet) = length row"
    using row by (auto split: if_splits)
  moreover have "\<forall>i < length row. if rBinary r then typed_binary (rTypes r ! i) (row ! i)
         else typed_text pf (text_cells (length row) packet ! i) (rTypes r ! i) (row ! i)"
    using row by (auto simp: list_all2_conv_all_nth split: if_splits)
  ultimately show ?thesis using len packet(1) by blast
qed

theorem rows_are_typed_witness:
  "let r = zero_rows\<lparr>rStreaming := True, rColumns := [''a'', ''b''], rTypes := [ColumnTypeLong, ColumnTypeBlob]\<rparr>;
       p = NewPacketConn (plain_stream 0 [text_row [VInt 7, VBytes [1, 2]]]) EOF
   in \<exists>row rc' packet. Rows_Next sample_zlib (\<lambda>_. None) (r, sample_conn p) = (Ok row, rc') \<and>
        row = [VInt 7, VBytes [1, 2]] \<and> typed_text (\<lambda>_. None) (text_cells 2 packet ! 0) ColumnTypeLong (row ! 0)"
proof -
  let ?r = "zero_rows\<lparr>rStreaming := True, rColumns := [''a'', ''b''], rTypes := [ColumnTypeLong, ColumnTypeBlob]\<rparr>"
    and ?row = "[VInt 7, VBytes [1, 2]]"
  let ?p = "NewPacketConn (plain_stream 0 [text_row ?row]) EOF"
  have "sv.awaits (sample_conn ?p) [text_row ?row] []"
    by (simp add: sv.awaits_def sample_conn_def server_sends_def plain_sends_def NewPacketConn_def)
  from sv.read_next [OF this, of sample_zlib] obtain c' where rd: "read_marked sample_zlib (sample_conn ?p) = (Ok (text_row ?row), c')"
    by (rule sv.answersE)
  have "valid_row [ColumnTypeLong, ColumnTypeBlob] ?row"
    by (simp add: valid_row_def column_groups int64_def FormatInt_def dec.simps [of 7])
  note valid_row_data [OF this] valid_row_parses [OF this]
  then have n: "Rows_Next sample_zlib (\<lambda>_. None) (?r, sample_conn ?p) = (Ok ?row, (?r, c'))"
    using rd
    by (simp add: Rows_Next_def nextStreaming_def zero_rows_def isResultSetTerminator_def isResultSetTerminatorForMode_def parse_row_def
        numeral_2_eq_2)
  have "\<not> rBinary ?r" by (simp add: zero_rows_def)
  with rows_are_typed [OF n] obtain packet where
    "\<forall>i < length ?row. typed_text (\<lambda>_. None) (text_cells (length ?row) packet ! i) (rTypes ?r ! i) (?row ! i)"
    by auto
  from this [rule_format, of 0]
  have "typed_text (\<lambda>_. None) (text_cells 2 packet ! 0) ColumnTypeLong (?row ! 0)" by (simp add: numeral_2_eq_2)
  with n show ?thesis unfolding Let_def by blast
qed

end
