(* ===== verification/Prepared.thy ===== *)
theory Prepared
  imports Exchanges
begin

text \<open>
  Prepared statements end to end: what a server reads from the execute request and from the bulk
  request, and a query with binary rows.
\<close>

subsection \<open>The execute request, as a server reads it\<close>

text \<open>
  Behind the command byte come the statement's id, a flag byte, the iteration count and, with parameters,
  the NULL bitmap, a byte announcing types, two bytes of type per parameter and the values.  The
  result holds the bytes left over.
\<close>

fun read_params :: "bytes \<Rightarrow> bytes \<Rightarrow> nat \<Rightarrow> nat \<Rightarrow> bytes \<Rightarrow> (gval list \<times> bytes) res" where
  "read_params bm types i 0 data = Ok ([], data)"
| "read_params bm types i (Suc n) data =
     (if bit (bm ! (i div 8)) (i mod 8) then
        bind_res (read_params bm types (i + 1) n data) (\<lambda>(vs, rest). Ok (VNil # vs, rest))
      else
        bind_res (ParseBinaryValueInLocation data (types ! (2 * i)) None) (\<lambda>(v, used).
          bind_res (read_params bm types (i + 1) n (drop used data)) (\<lambda>(vs, rest). Ok (v # vs, rest))))"

definition read_execute :: "nat \<Rightarrow> bytes \<Rightarrow> (u32 \<times> gval list \<times> bytes) res" where
  "read_execute n packet =
     (let stmtID = le_word (subslice 1 5 packet); pos = 10 + (n + 7) div 8
      in if length packet < 10 \<or> packet ! 0 \<noteq> ComStmtExecute then Err (OtherError ''not an execute request'')
         else if n = 0 then Ok (stmtID, [], drop 10 packet)
         else if packet ! pos \<noteq> 1 then Err (OtherError ''parameter types missing'')
         else
           bind_res (read_params (subslice 10 pos packet) (subslice (pos + 1) (pos + 1 + 2 * n) packet) 0 n
               (drop (pos + 1 + 2 * n) packet)) (\<lambda>(vs, rest). Ok (stmtID, vs, rest)))"

definition arg_values :: "named_value list \<Rightarrow> gval list" where
  "arg_values args = map (unwrapOutParam \<circ> nvValue) args"

definition param_types :: "gval list \<Rightarrow> bytes" where
  "param_types vs = concat (map (\<lambda>v. [GetBinaryParamType v, 0]) vs)"

lemma length_param_types [simp]: "length (param_types vs) = 2 * length vs"
  by (induction vs) (simp_all add: param_types_def)

lemma param_types_nth: "k < length vs \<Longrightarrow> param_types vs ! (2 * k) = GetBinaryParamType (vs ! k)"
proof (induction vs arbitrary: k)
  case (Cons v vs)
  then show ?case by (cases k) (simp_all add: param_types_def)
qed simp

subsection \<open>What the loop over the arguments builds\<close>

lemma set_null_bit:
  assumes "i < 8 * length bm" and "j < 8 * length bm"
  shows "bit (bm[i div 8 := bm ! (i div 8) OR push_bit (i mod 8) 1] ! (j div 8)) (j mod 8) \<longleftrightarrow>
    bit ((bm :: bytes) ! (j div 8)) (j mod 8) \<or> j = i"
proof (cases "j div 8 = i div 8")
  case True
  moreover have "i div 8 < length bm" using assms(1) by (simp add: div_less_iff_less_mult mult.commute)
  moreover have "j mod 8 = i mod 8 \<longleftrightarrow> j = i" using True by (metis div_mult_mod_eq)
  ultimately show ?thesis by (auto simp: bit_or_iff bit_exp_iff)
next
  case False
  then show ?thesis by auto
qed

lemma execute_params_ok:
  assumes "list_all (\<lambda>v. v = VNil \<or> valid_param v) (arg_values args)"
    and "i + length args \<le> 8 * length bm" and "length types = 2 * (i + length args)"
  shows "\<exists>bm'. execute_params i args (bm, types, buf) =
      Ok (bm', take (2 * i) types @ param_types (arg_values args), buf @ row_bytes (arg_values args)) \<and> length bm' = length bm \<and>
    (\<forall>j < 8 * length bm. bit (bm' ! (j div 8)) (j mod 8) \<longleftrightarrow>
       bit (bm ! (j div 8)) (j mod 8) \<or> i \<le> j \<and> j < i + length args \<and> arg_values args ! (j - i) = VNil)"
  using assms
proof (induction args arbitrary: i bm types buf)
  case Nil
  then show ?case by (auto simp: arg_values_def param_types_def row_bytes_def)
next
  case (Cons arg args)
  define v where "v = unwrapOutParam (nvValue arg)"
  let ?vs = "arg_values args"
  define bm1 where "bm1 = (if v = VNil then bm[i div 8 := bm ! (i div 8) OR push_bit (i mod 8) 1] else bm)"
  define types1 where "types1 = types[i * 2 := GetBinaryParamType v, i * 2 + 1 := 0]"
  define buf1 where "buf1 = buf @ (if v = VNil then [] else param_bytes v)"
  have vs: "arg_values (arg # args) = v # ?vs" by (simp add: arg_values_def v_def)
  then have "v = VNil \<or> valid_param v" using Cons.prems(1) by simp
  then have app: "AppendBinaryParam buf (GetBinaryParamType v) v = Ok buf1"
    by (auto simp: buf1_def AppendBinaryParam_append) (simp add: AppendBinaryParam_def)
  have len: "length bm1 = length bm" "length types1 = length types" by (simp_all add: bm1_def types1_def)
  have "\<exists>bm'. execute_params (i + 1) args (bm1, types1, buf1) =
      Ok (bm', take (2 * (i + 1)) types1 @ param_types ?vs, buf1 @ row_bytes ?vs) \<and> length bm' = length bm1 \<and>
    (\<forall>j < 8 * length bm1. bit (bm' ! (j div 8)) (j mod 8) \<longleftrightarrow>
       bit (bm1 ! (j div 8)) (j mod 8) \<or> i + 1 \<le> j \<and> j < i + 1 + length args \<and> ?vs ! (j - (i + 1)) = VNil)"
    by (rule Cons.IH) (use Cons.prems vs len in auto)
  then obtain bm' where bm': "execute_params (i + 1) args (bm1, types1, buf1) =
      Ok (bm', take (2 * (i + 1)) types1 @ param_types ?vs, buf1 @ row_bytes ?vs)" "length bm' = length bm"
    and bits: "\<And>j. j < 8 * length bm \<Longrightarrow> bit (bm' ! (j div 8)) (j mod 8) \<longleftrightarrow>
       bit (bm1 ! (j div 8)) (j mod 8) \<or> i + 1 \<le> j \<and> j < i + 1 + length args \<and> ?vs ! (j - (i + 1)) = VNil"
    using len by auto
  have "execute_params i (arg # args) (bm, types, buf) = execute_params (i + 1) args (bm1, types1, buf1)"
    using app by (simp add: Let_def v_def [symmetric] bm1_def types1_def)
  moreover have "take (2 * (i + 1)) types1 @ param_types ?vs = take (2 * i) types @ param_types (v # ?vs)"
  proof -
    have i: "2 * i + 1 < length types" using Cons.prems(3) by simp
    then have "take (2 * (i + 1)) types1 = take (2 * i) types1 @ [types1 ! (2 * i), types1 ! (2 * i + 1)]"
      by (simp add: len take_Suc_conv_app_nth)
    also have "take (2 * i) types1 = take (2 * i) types" by (simp add: types1_def mult.commute)
    finally show ?thesis using i by (simp add: types1_def mult.commute param_types_def)
  qed
  moreover have "bit (bm1 ! (j div 8)) (j mod 8) \<longleftrightarrow> bit (bm ! (j div 8)) (j mod 8) \<or> j = i \<and> v = VNil" if "j < 8 * length bm" for j
    using set_null_bit [of i bm j] that Cons.prems(2) by (auto simp: bm1_def)
  moreover have "buf1 @ row_bytes ?vs = buf @ row_bytes (v # ?vs)" by (simp add: buf1_def row_bytes_def)
  moreover have "i \<le> j \<and> j < i + length (arg # args) \<and> (v # ?vs) ! (j - i) = VNil \<longleftrightarrow>
      j = i \<and> v = VNil \<or> i + 1 \<le> j \<and> j < i + 1 + length args \<and> ?vs ! (j - (i + 1)) = VNil" for j
    by (cases "j = i") (auto simp: nth_Cons' le_Suc_eq)
  ultimately show ?case
    using bm' bits unfolding vs by auto
qed

lemma read_params_encoded:
  assumes "list_all (\<lambda>v. v = VNil \<or> valid_param v) vs"
    and "\<And>k. k < length vs \<Longrightarrow> bit (bm ! ((i + k) div 8)) ((i + k) mod 8) \<longleftrightarrow> vs ! k = VNil"
    and "\<And>k. k < length vs \<Longrightarrow> types ! (2 * (i + k)) = GetBinaryParamType (vs ! k)"
  shows "read_params bm types i (length vs) (row_bytes vs @ rest) = Ok (decoded_row vs, rest)"
  using assms
proof (induction vs arbitrary: i)
  case (Cons v vs)
  have null: "bit (bm ! (i div 8)) (i mod 8) \<longleftrightarrow> v = VNil" and ty: "types ! (2 * i) = GetBinaryParamType v"
    using Cons.prems(2,3) [of 0] by simp_all
  have IH: "read_params bm types (i + 1) (length vs) (row_bytes vs @ rest) = Ok (decoded_row vs, rest)"
  proof (rule Cons.IH)
    show "list_all (\<lambda>v. v = VNil \<or> valid_param v) vs" using Cons.prems(1) by simp
    show "bit (bm ! ((i + 1 + k) div 8)) ((i + 1 + k) mod 8) \<longleftrightarrow> vs ! k = VNil" if "k < length vs" for k
      using Cons.prems(2) [of "Suc k"] that by simp
    show "types ! (2 * (i + 1 + k)) = GetBinaryParamType (vs ! k)" if "k < length vs" for k
      using Cons.prems(3) [of "Suc k"] that by simp
  qed
  show ?case
  proof (cases "v = VNil")
    case True
    then show ?thesis using null IH by (simp add: row_bytes_def decoded_row_def)
  next
    case False
    then have "valid_param v" using Cons.prems(1) by simp
    with False null ty IH show ?thesis
      by (simp add: row_bytes_def decoded_row_def ParseBinaryValue_param)
  qed
qed (simp add: row_bytes_def decoded_row_def)

text \<open>
  C13: A server that reads the execute request by the layout of the binary protocol recovers what the
  caller passed: the statement's id and every argument in order (OUT parameters by the value they
  hold), NULLs where the caller passed nil, each value with the type sent along, and no byte is left
  over.  The encoding never fails for the values \<open>database/sql\<close> hands to a driver.
\<close>

theorem execute_request_roundtrip:
  assumes "list_all (\<lambda>v. v = VNil \<or> valid_param v) (arg_values args)"
  shows "\<exists>payload. execute_payload stmtID args = Ok payload \<and>
    read_execute (length args) payload = Ok (stmtID, decoded_row (arg_values args), [])"
proof (cases "args = []")
  case True
  then show ?thesis
    by (simp add: execute_payload_def read_execute_def arg_values_def decoded_row_def subslice_def le_bytes_numerals)
      (use le_word_le_bytes_id [of 4 stmtID] in \<open>simp add: le_bytes_numerals\<close>)
next
  case False
  let ?n = "length args" and ?vs = "arg_values args"
  let ?nb = "(?n + 7) div 8" and ?head = "[ComStmtExecute] @ le_bytes 4 stmtID @ [0] @ le_bytes 4 (1 :: u32)"
  have fits: "?n \<le> 8 * ?nb" by simp
  from fits execute_params_ok [OF assms, of 0 "replicate ?nb 0" "replicate (?n * 2) 0" "[]"] obtain bm where
    run: "execute_params 0 args (replicate ?nb 0, replicate (?n * 2) 0, []) = Ok (bm, param_types ?vs, row_bytes ?vs)"
    and len: "length bm = ?nb" and bits: "\<And>j. j < 8 * ?nb \<Longrightarrow>
      bit (bm ! (j div 8)) (j mod 8) \<longleftrightarrow> j < ?n \<and> ?vs ! j = VNil"
    by (auto simp: div_less_iff_less_mult mult.commute)
  define payload where "payload = ?head @ bm @ [1] @ param_types ?vs @ row_bytes ?vs"
  have n: "length ?vs = ?n" by (simp add: arg_values_def)
  have head: "length ?head = 10" by simp
  have parts: "10 \<le> length payload" "payload ! 0 = ComStmtExecute" "subslice 1 5 payload = le_bytes 4 stmtID"
    "payload ! (10 + ?nb) = 1" "subslice 10 (10 + ?nb) payload = bm"
    using len n by (simp_all add: payload_def subslice_def nth_append le_bytes_numerals)
  define front where "front = ?head @ bm @ [1]"
  have "payload = front @ param_types ?vs @ row_bytes ?vs" "10 + ?nb + 1 = length front"
    using len by (simp_all add: payload_def front_def)
  then have tail: "subslice (10 + ?nb + 1) (10 + ?nb + 1 + 2 * ?n) payload = param_types ?vs"
    "drop (10 + ?nb + 1 + 2 * ?n) payload = row_bytes ?vs"
    using n by (simp_all only: subslice_def) simp_all
  have "read_params bm (param_types ?vs) 0 ?n (row_bytes ?vs @ []) = Ok (decoded_row ?vs, [])"
    unfolding n [symmetric]
    by (rule read_params_encoded [OF assms]) (use bits fits n param_types_nth in auto)
  with parts tail False le_word_le_bytes_id [of 4 stmtID] have "read_execute ?n payload = Ok (stmtID, decoded_row ?vs, [])"
    by (simp add: read_execute_def Let_def)
  moreover have "execute_payload stmtID args = Ok payload"
    using False run by (simp add: execute_payload_def payload_def)
  ultimately show ?thesis by blast
qed

theorem execute_request_roundtrip_witness:
  "\<exists>payload. execute_payload 7 (valuesToNamed [VInt (- 1), VNil, VString ''x'']) = Ok payload \<and>
     read_execute 3 payload = Ok (7, [VInt (- 1), VNil, VString ''x''], [])"
proof -
  let ?args = "valuesToNamed [VInt (- 1), VNil, VString ''x'']"
  have "arg_values ?args = [VInt (- 1), VNil, VString ''x'']" "length ?args = 3" by code_simp+
  with execute_request_roundtrip [of ?args 7] show ?thesis by (simp add: int64_def go_len_def decoded_row_def numeral_3_eq_3)
qed

subsection \<open>Queries\<close>

lemma stmt_query_exchange:
  assumes "ready c p" and "\<not> stClosed s" and "keeps_zone c (stQuery s)" and "execute_payload (stID s) args = Ok payload"
    and "valid_columns cols"
    and "WritePacket (zlibDeflate z) payload (NextRequest (ResetSequence (extra_for ctx p))) = (Ok (), p')"
    and "server_sends p' (header_packets (deprecateEOF c) cols st @ bs) rest"
  shows "\<exists>d. Stmt_QueryContext z s ctx args c =
        (Ok ((sv.text_rows c cols)\<lparr>rBinary := True, rRelease := True\<rparr>), d\<lparr>locked := True\<rparr>) \<and>
      sv.awaits d bs rest \<and> same_session c d"
proof -
  have c: "packets c = Some p" "IsValid c" using assms(1) by (simp_all add: ready_def)
  have "\<exists>d. stmtQueryLocked z ctx (stID s) args c = (Ok ((sv.text_rows c cols)\<lparr>rBinary := True\<rparr>), d) \<and>
      (sv.awaits d bs rest \<and> same_session c d)"
    unfolding stmtQueryLocked_def
  proof (rule withDeadline_ready [OF assms(1)])
    fix n
    let ?c = "c\<lparr>netConn := Some n, packets := Some p'\<rparr>"
    have w: "setupExtraInfo ctx (c\<lparr>netConn := Some n\<rparr>) = (Ok (), c\<lparr>netConn := Some n, packets := Some (extra_for ctx p)\<rparr>)"
      "writeExecute z (stID s) args (c\<lparr>netConn := Some n, packets := Some (extra_for ctx p)\<rparr>) = (Ok (), ?c)"
      using c assms(4,6)
      by (simp_all add: setupExtraInfo_eq writeExecute_def new_command_def conn_write_def on_packets_def lift_res_def)
    have same: "same_session c ?c" by (rule same_sessionI) (rule HOL.refl)
    have "sv.awaits ?c (header_packets (deprecateEOF ?c) cols st @ bs) rest" using assms(7) by (simp add: sv.awaits_def)
    from sv.result_read [OF assms(5) this] obtain d where d: "readQueryResult z ?c = (Ok (sv.text_rows ?c cols), d)"
      "sv.awaits d bs rest" "only_read ?c d" by (rule sv.answersE)
    have "same_session c d" using same only_read_session [OF d(3)] by (rule same_session_trans)
    moreover have "sv.text_rows ?c cols = sv.text_rows c cols" by (simp add: sv.text_rows_def)
    ultimately show "\<exists>d. bind_st (setupExtraInfo ctx) (\<lambda>_. bind_st (writeExecute z (stID s) args) (\<lambda>_.
        bind_st (readQueryResult z) (\<lambda>r. return_st (r\<lparr>rBinary := True\<rparr>)))) (c\<lparr>netConn := Some n\<rparr>) =
      (Ok ((sv.text_rows c cols)\<lparr>rBinary := True\<rparr>), d) \<and> (sv.awaits d bs rest \<and> same_session c d)"
      using w d by simp
  qed
  then obtain d where d: "stmtQueryLocked z ctx (stID s) args c = (Ok ((sv.text_rows c cols)\<lparr>rBinary := True\<rparr>), d)"
    "sv.awaits d bs rest" "same_session c d" by blast
  have "updateSessionTimeZoneFromQuery (stQuery s) args d = (Ok (), d)"
    by (rule keeps_zone_update [OF assms(3) same_session_fields(4) [OF d(3)]])
  moreover have "rStreaming (sv.text_rows c cols)" by (simp add: sv.text_rows_def)
  ultimately have "Stmt_QueryContext z s ctx args c =
      (Ok ((sv.text_rows c cols)\<lparr>rBinary := True, rRelease := True\<rparr>), d\<lparr>locked := True\<rparr>)"
    using c assms(2) d(1)
    by (simp add: Stmt_QueryContext_def checkUsableLocked_def IsValid_def on_error_def hand_over_lock_def)
  with d show ?thesis by blast
qed

text \<open>
  C2: A prepared query end to end, over plain packets or OceanBase 2.0 frames, with or without
  \<open>CLIENT_DEPRECATE_EOF\<close>: the execute request goes out, the result set that comes back has the server's
  columns and holds the connection's lock, and reading it delivers the values of the binary rows the
  server sent, NULLs included, and then \<open>io.EOF\<close>; afterwards the lock is free, the connection valid and
  the rest of the stream unread.
\<close>

theorem prepared_query_delivers_rows:
  assumes "ready c p" and "\<not> stClosed s" and "keeps_zone c (stQuery s)" and "execute_payload (stID s) args = Ok payload"
    and "valid_columns cols" and "list_all (fits_types (map (cdTyp \<circ> snd) cols)) rows" and "st AND ServerMoreResultsExists = 0"
    and "replies z ctx payload p
      (header_packets (deprecateEOF c) cols st @ map encode_binary_row rows @ [end_packet (deprecateEOF c) st]) rest"
  shows "\<exists>r d r' d' p'. Stmt_QueryContext z s ctx args c = (Ok r, d) \<and> locked d \<and>
    Rows_Columns r = map (cdName \<circ> snd) cols \<and> fetch z pf (r, d) = ((map decoded_row rows, Some EOF), (r', d')) \<and>
    IsValid d' \<and> \<not> locked d' \<and> packets d' = Some p' \<and> rx p' = rest"
proof -
  let ?tail = "map encode_binary_row rows @ [end_packet (deprecateEOF c) st]"
  from assms(8) obtain p' where w: "WritePacket (zlibDeflate z) payload (NextRequest (ResetSequence (extra_for ctx p))) = (Ok (), p')"
    and s: "server_sends p' (header_packets (deprecateEOF c) cols st @ ?tail) rest"
    by (auto simp: replies_def)
  let ?r = "(sv.text_rows c cols)\<lparr>rBinary := True, rRelease := True\<rparr>"
  from stmt_query_exchange [OF assms(1-5) w s] obtain d where
    d: "Stmt_QueryContext z s ctx args c = (Ok ?r, d\<lparr>locked := True\<rparr>)" "sv.awaits d ?tail rest" "same_session c d" by blast
  have "sv.awaits (d\<lparr>locked := True\<rparr>) (map encode_binary_row rows @ end_packet (rResultSetOK ?r) st # []) rest"
    using d(2) by (simp add: sv.awaits_def sv.text_rows_def)
  from sv.fetch_binary_rows [OF _ _ _ _ _ assms(7) this, of z pf] assms(6) obtain d' where
    d': "fetch z pf (?r, d\<lparr>locked := True\<rparr>) = ((map decoded_row rows, Some EOF), rows_finish (?r, d'))" "sv.awaits d' [] rest"
    "only_read (d\<lparr>locked := True\<rparr>) d'"
    by (auto simp: sv.text_rows_def zero_rows_def)
  have "IsValid d'" using only_read_fields [OF d'(3)] same_session_fields [OF d(3)] assms(1) by (simp add: ready_def IsValid_def)
  with d d' show ?thesis
    by (auto simp: sv.awaits_def Rows_Columns_def sv.text_rows_def IsValid_def dest!: server_sends_Nil)
qed

theorem prepared_query_delivers_rows_witness:
  "let cols = [(replicate 5 [], \<lparr>cdName = ''a'', cdTyp = ColumnTypeLongLong, cdFlags = 0, cdDecimals = 0, cdColumnLength = 20, cdCharset = 63\<rparr>)];
       rows = [[VInt 7], [VNil]]; s = \<lparr>stQuery = ''select ?'', stID = 9, stParamCount = 1, stColumnCount = 1, stClosed = False\<rparr>;
       p = NewPacketConn (plain_stream 1 (header_packets False cols 2 @ map encode_binary_row rows @ [end_packet False 2])) EOF
   in \<exists>r d r' d'. Stmt_QueryContext sample_zlib s Background (valuesToNamed [VInt 5]) (sample_conn p) = (Ok r, d) \<and>
        Rows_Columns r = [''a''] \<and> fetch sample_zlib (\<lambda>_. None) (r, d) = ((rows, Some EOF), (r', d')) \<and> IsValid d' \<and> \<not> locked d'"
proof -
  let ?cols = "[(replicate 5 [], \<lparr>cdName = ''a'', cdTyp = ColumnTypeLongLong, cdFlags = 0, cdDecimals = 0, cdColumnLength = 20, cdCharset = 63\<rparr>)]"
    and ?rows = "[[VInt 7], [VNil]]" and ?args = "valuesToNamed [VInt 5]"
    and ?s = "\<lparr>stQuery = ''select ?'', stID = 9, stParamCount = 1, stColumnCount = 1, stClosed = False\<rparr>"
  let ?bs = "header_packets False ?cols 2 @ map encode_binary_row ?rows @ [end_packet False 2]"
  let ?p = "NewPacketConn (plain_stream 1 ?bs) EOF"
  obtain payload where pl: "execute_payload (stID ?s) ?args = Ok payload" "length payload = 22"
    by (simp add: execute_payload_def valuesToNamed_def AppendBinaryParam_def le_bytes_numerals)
  have cols: "valid_columns ?cols"
    by (simp add: valid_columns_def valid_column_def maxResultColumns_def go_len_def bytes_of_def list_all_iff)
  have rows: "list_all (fits_types (map (cdTyp \<circ> snd) ?cols)) ?rows"
    by (simp add: fits_types_def GetBinaryParamType_def int64_def)
  have n: "plain_count payload = 1" by (simp add: plain_count_def maxPayloadLen_def pl(2))
  have "replies sample_zlib Background payload ?p ?bs []"
    unfolding replies_def server_sends_def plain_sends_def
    by (subst WritePacket_plain)
      (simp_all add: n extra_for_def Background_def ClearExtraInfo_def NextRequest_def ResetSequence_def NewPacketConn_def Let_def)
  with prepared_query_delivers_rows [OF sample_conn_ready(1) _ sample_conn_ready(2) pl(1) cols rows, where st = 2 and z = sample_zlib
      and ctx = Background and rest = "[]" and pf = "\<lambda>_. None"]
  show ?thesis unfolding Let_def
    by (fastforce simp: sample_conn_def ServerMoreResultsExists_def ServerSessionStateChanged_def decoded_row_def)
qed

subsection \<open>The bulk request, as a server reads it\<close>

text \<open>
  Behind the command byte, the statement's id and the flags come two bytes of type per parameter, once
  for all rows, and then the rows: per parameter an indicator (1 for NULL) and, unless NULL, the value.
\<close>

fun read_bulk_row :: "byte list \<Rightarrow> bytes \<Rightarrow> (gval list \<times> bytes) res" where
  "read_bulk_row [] data = Ok ([], data)"
| "read_bulk_row (t # types) data =
     (if data = [] then Err UnexpectedEOF
      else if hd data = 1 then
        bind_res (read_bulk_row types (tl data)) (\<lambda>(vs, rest). Ok (VNil # vs, rest))
      else
        bind_res (ParseBinaryValueInLocation (tl data) t None) (\<lambda>(v, used).
          bind_res (read_bulk_row types (drop used (tl data))) (\<lambda>(vs, rest). Ok (v # vs, rest))))"

fun read_bulk_rows :: "byte list \<Rightarrow> nat \<Rightarrow> bytes \<Rightarrow> (gval list list \<times> bytes) res" where
  "read_bulk_rows types 0 data = Ok ([], data)"
| "read_bulk_rows types (Suc k) data =
     bind_res (read_bulk_row types data) (\<lambda>(row, rest).
       bind_res (read_bulk_rows types k rest) (\<lambda>(rows, rest'). Ok (row # rows, rest')))"

definition read_bulk :: "nat \<Rightarrow> nat \<Rightarrow> bytes \<Rightarrow> (u32 \<times> gval list list \<times> bytes) res" where
  "read_bulk n k packet =
     (if length packet < 7 + 2 * n \<or> packet ! 0 \<noteq> ComStmtBulkExecute \<or> (le_word (subslice 5 7 packet) :: u16) \<noteq> 0x80 then
        Err (OtherError ''not a bulk request'')
      else
        bind_res (read_bulk_rows (map (\<lambda>i. packet ! (7 + 2 * i)) [0..<n]) k (drop (7 + 2 * n) packet))
          (\<lambda>(rows, rest). Ok (le_word (subslice 1 5 packet), rows, rest)))"

definition cell_bytes :: "gval \<Rightarrow> bytes" where
  "cell_bytes v = (if v = VNil then [1] else 0 # param_bytes v)"

lemma bulk_row_bytes:
  assumes "list_all (\<lambda>v. v = VNil \<or> valid_param v) (arg_values args)"
  shows "bulk_row args payload = Ok (payload @ concat (map cell_bytes (arg_values args)))"
  using assms
proof (induction args payload rule: bulk_row.induct)
  case (2 arg args payload)
  then show ?case by (auto simp: arg_values_def cell_bytes_def Let_def AppendBinaryParam_append)
qed (simp add: arg_values_def)

lemma bulk_rows_bytes:
  assumes "list_all (\<lambda>row. list_all (\<lambda>v. v = VNil \<or> valid_param v) (arg_values row)) argRows"
  shows "bulk_rows argRows payload = Ok (payload @ concat (map (\<lambda>row. concat (map cell_bytes (arg_values row))) argRows))"
  using assms by (induction argRows arbitrary: payload) (simp_all add: bulk_row_bytes)

lemma drop_all_append: "n = length xs \<Longrightarrow> drop n (xs @ ys) = ys"
  by simp

lemma fits_types_valid:
  assumes "fits_types types vs"
  shows "list_all (\<lambda>v. v = VNil \<or> valid_param v) vs"
  using assms unfolding fits_types_def by (induction types vs rule: list_all2_induct) auto

lemma read_bulk_row_cells:
  assumes "fits_types types vs"
  shows "read_bulk_row types (concat (map cell_bytes vs) @ rest) = Ok (decoded_row vs, rest)"
  using assms unfolding fits_types_def
  by (induction types vs rule: list_all2_induct) (auto simp: cell_bytes_def decoded_row_def ParseBinaryValue_param)

lemma read_bulk_rows_cells:
  assumes "list_all (fits_types types) rows"
  shows "read_bulk_rows types (length rows) (concat (map (\<lambda>vs. concat (map cell_bytes vs)) rows) @ rest) =
    Ok (map decoded_row rows, rest)"
  using assms by (induction rows) (simp_all add: read_bulk_row_cells)

lemma ParseBinaryValue_null: "\<exists>e. ParseBinaryValueInLocation data ColumnTypeNull loc = Err e"
  by (simp add: ParseBinaryValueInLocation_def string_types_def column_types)

lemma bulk_types_eq: "bulk_types args = param_types (arg_values args)"
proof (induction args)
  case (Cons arg args)
  have "le_bytes 2 (ucast (t :: byte) :: u16) = [t, 0]" for t
  proof -
    have "(ucast (ucast t :: u16) :: byte) = t" by (rule bit_word_eqI) (auto simp: bit_simps)
    moreover have "drop_bit 8 (ucast t :: u16) = 0" by (rule bit_word_eqI) (auto simp: bit_simps dest: bit_imp_le_length)
    ultimately show ?thesis by (simp add: le_bytes_numerals)
  qed
  with Cons show ?case by (simp add: arg_values_def param_types_def)
qed (simp add: arg_values_def param_types_def)

lemma bulk_null_first:
  "\<exists>payload. bulk_payload stmtID [valuesToNamed [VNil], valuesToNamed [VInt 1]] = Ok payload \<and>
    (\<exists>e. read_bulk 1 2 payload = Err e)"
proof -
  let ?v = "param_bytes (VInt 1)"
  define payload where
    "payload = ComStmtBulkExecute # le_bytes 4 stmtID @ le_bytes 2 (0x80 :: u16) @ [ColumnTypeNull, 0, 1, 0] @ ?v"
  have args: "arg_values (valuesToNamed [v]) = [unwrapOutParam v]" for v
    by (simp add: arg_values_def valuesToNamed_def)
  have "bulk_payload stmtID [valuesToNamed [VNil], valuesToNamed [VInt 1]] = Ok payload"
    by (simp add: bulk_payload_def bulk_types_eq bulk_row_bytes args param_types_def cell_bytes_def payload_def
        GetBinaryParamType_def int64_def)
  moreover obtain e where "ParseBinaryValueInLocation ?v ColumnTypeNull None = Err e"
    using ParseBinaryValue_null by blast
  then have "read_bulk_rows [ColumnTypeNull] 2 ([1, 0] @ ?v) = Err e" by (simp add: numeral_2_eq_2)
  then have "read_bulk 1 2 payload = Err e"
    by (simp add: payload_def read_bulk_def subslice_def le_bytes_numerals le_word.simps)
  ultimately show ?thesis by blast
qed

text \<open>
  C14: A server that reads the native bulk request recovers the statement's id and every row of
  arguments in order, NULLs included, with no byte left over, provided that the values of each column
  have the type of the value in the first row.  The code sends the types of the first row only: when
  that row has NULL where a later one has an integer, the request announces the type NULL and its reading
  fails at the integer.
\<close>

theorem bulk_request_roundtrip:
  assumes "argRows \<noteq> []" and "list_all (\<lambda>row. fits_types (map GetBinaryParamType (arg_values (hd argRows))) (arg_values row)) argRows"
  shows "(\<exists>payload. bulk_payload stmtID argRows = Ok payload \<and>
      read_bulk (length (hd argRows)) (length argRows) payload = Ok (stmtID, map (decoded_row \<circ> arg_values) argRows, [])) \<and>
    (\<exists>payload. bulk_payload stmtID [valuesToNamed [VNil], valuesToNamed [VInt 1]] = Ok payload \<and>
      (\<exists>e. read_bulk 1 2 payload = Err e))"
proof
  let ?n = "length (hd argRows)" and ?vs = "arg_values (hd argRows)"
  let ?types = "map GetBinaryParamType ?vs" and ?head = "[ComStmtBulkExecute] @ le_bytes 4 stmtID @ le_bytes 2 (0x80 :: u16)"
  let ?data = "concat (map (\<lambda>vs. concat (map cell_bytes vs)) (map arg_values argRows))"
  have n: "length ?vs = ?n" by (simp add: arg_values_def)
  define payload where "payload = ?head @ param_types ?vs @ ?data"
  have "list_all (\<lambda>row. list_all (\<lambda>v. v = VNil \<or> valid_param v) (arg_values row)) argRows"
    using assms(2) by (rule list.pred_mono_strong) (rule fits_types_valid)
  then have build: "bulk_payload stmtID argRows = Ok payload"
    by (simp add: bulk_payload_def bulk_rows_bytes bulk_types_eq payload_def comp_def)
  have "drop (7 + 2 * ?n) payload = ?data"
    using n unfolding payload_def append_assoc [symmetric] by (intro drop_all_append) simp
  moreover have "payload ! (7 + 2 * i) = GetBinaryParamType (?vs ! i)" if "i < ?n" for i
    using that n param_types_nth [of i ?vs] by (simp add: payload_def le_bytes_numerals nth_append)
  then have "map (\<lambda>i. payload ! (7 + 2 * i)) [0..<?n] = ?types"
    using n by (intro nth_equalityI) simp_all
  moreover have "subslice 1 5 payload = le_bytes 4 stmtID" "subslice 5 7 payload = le_bytes 2 (0x80 :: u16)"
    "payload ! 0 = ComStmtBulkExecute" "7 + 2 * ?n \<le> length payload"
    using n by (simp_all add: payload_def subslice_def le_bytes_numerals)
  moreover have "read_bulk_rows ?types (length argRows) ?data = Ok (map (decoded_row \<circ> arg_values) argRows, [])"
    using read_bulk_rows_cells [of ?types "map arg_values argRows" "[]"] assms(2) by (simp add: list_all_iff comp_def)
  ultimately have "read_bulk ?n (length argRows) payload = Ok (stmtID, map (decoded_row \<circ> arg_values) argRows, [])"
    by (simp add: read_bulk_def le_word_le_bytes_id)
  with build show "\<exists>payload. bulk_payload stmtID argRows = Ok payload \<and>
      read_bulk ?n (length argRows) payload = Ok (stmtID, map (decoded_row \<circ> arg_values) argRows, [])" by blast
next
  show "\<exists>payload. bulk_payload stmtID [valuesToNamed [VNil], valuesToNamed [VInt 1]] = Ok payload \<and>
      (\<exists>e. read_bulk 1 2 payload = Err e)"
    by (rule bulk_null_first)
qed

theorem bulk_request_roundtrip_witness:
  "\<exists>payload. bulk_payload 7 [valuesToNamed [VInt 1], valuesToNamed [VNil]] = Ok payload \<and>
    read_bulk 1 2 payload = Ok (7, [[VInt 1], [VNil]], [])"
proof -
  let ?rows = "[valuesToNamed [VInt 1], valuesToNamed [VNil]]"
  have "arg_values (valuesToNamed [v]) = [unwrapOutParam v]" for v by (simp add: arg_values_def valuesToNamed_def)
  moreover have "length (valuesToNamed [VInt 1]) = 1" by (simp add: valuesToNamed_def)
  ultimately show ?thesis
    using bulk_request_roundtrip [of ?rows 7] by (simp add: fits_types_def GetBinaryParamType_def int64_def decoded_row_def numeral_2_eq_2)
qed

end
