(* ===== verification/Url_Values.thy ===== *)
theory Url_Values
  imports Config "HOL-Library.Char_ord" "HOL-Library.List_Lexorder"
begin

text \<open>
  \<open>url.Values\<close> and its encoding, as \<open>net/url\<close> has them: what \<open>QueryEscape\<close> and \<open>Encode\<close> write, the
  \<open>QueryUnescape\<close> and \<open>ParseQuery\<close> of \<open>config.go\<close> read back.
\<close>

subsection \<open>url.Values\<close>

definition upper_hex :: "nat \<Rightarrow> char" where
  "upper_hex n = (if n < 10 then char_of (48 + n) else char_of (55 + n))"

definition unreserved :: "char \<Rightarrow> bool" where
  "unreserved c \<longleftrightarrow> is_upper c \<or> is_lower c \<or> is_digit c \<or> c \<in> {CHR ''-'', CHR ''_'', CHR ''.'', CHR ''~''}"

definition escape_char :: "char \<Rightarrow> string" where
  "escape_char c =
     (if unreserved c then [c]
      else if c = CHR '' '' then ''+''
      else [CHR ''%'', upper_hex (of_char c div 16), upper_hex (of_char c mod 16)])"

definition QueryEscape :: "string \<Rightarrow> string" where
  "QueryEscape s = concat (map escape_char s)"

definition values_set :: "string \<Rightarrow> string \<Rightarrow> url_values \<Rightarrow> url_values" where
  "values_set key value m = AList.update key [value] m"

definition sorted_values :: "url_values \<Rightarrow> url_values" where
  "sorted_values m = map (\<lambda>k. (k, the (map_of m k))) (sort (map fst m))"

definition values_Encode :: "url_values \<Rightarrow> string" where
  "values_Encode m =
     Join (concat (map (\<lambda>(k, vs). map (\<lambda>v. QueryEscape k @ ''='' @ QueryEscape v) vs) (sorted_values m))) ''&''"

subsection \<open>Escaping\<close>

lemma hex_value_upper: "n < 16 \<Longrightarrow> hex_value (upper_hex n) = Some n \<and> unreserved (upper_hex n)"
proof -
  assume "n < 16"
  then have "n \<in> set [0..<16]" by simp
  moreover have "list_all (\<lambda>n. hex_value (upper_hex n) = Some n \<and> unreserved (upper_hex n)) [0..<16]" by code_simp
  ultimately show ?thesis by (auto simp: list_all_iff)
qed

lemma unreserved_specials:
  "\<not> unreserved (CHR ''%'')" "\<not> unreserved (CHR ''+'')" "\<not> unreserved (CHR ''&'')" "\<not> unreserved (CHR ''='')"
  "\<not> unreserved (CHR '';'')" "\<not> unreserved (CHR ''?'')" "\<not> unreserved (CHR '':'')" "\<not> unreserved (CHR ''@'')"
  "\<not> unreserved (CHR ''/'')"
  by code_simp+

lemma nibbles: "(of_char c :: nat) div 16 < 16" "(of_char c :: nat) mod 16 < 16"
proof -
  have "of_char c < (256 :: nat)" by simp
  then show "(of_char c :: nat) div 16 < 16" by (simp add: div_less_iff_less_mult)
qed simp

lemma unescape_escape_char:
  "unescape True (escape_char c @ s) = bind_res (unescape True s) (\<lambda>t. Ok (c # t))"
proof -
  note hex = nibbles [of c, THEN hex_value_upper]
  show ?thesis
    by (cases "unreserved c \<or> c = CHR '' ''")
      (use hex in \<open>auto simp: escape_char_def unreserved_specials split: if_splits\<close>)
qed

lemma QueryUnescape_Escape [simp]: "QueryUnescape (QueryEscape s) = Ok s"
  unfolding QueryUnescape_def QueryEscape_def
  by (induction s) (simp_all add: unescape_escape_char)

lemma escape_char_safe: "x \<in> set (escape_char c) \<Longrightarrow> unreserved x \<or> x = CHR ''+'' \<or> x = CHR ''%''"
proof -
  assume x: "x \<in> set (escape_char c)"
  from nibbles [of c, THEN hex_value_upper] x show ?thesis by (auto simp: escape_char_def split: if_splits)
qed

lemma QueryEscape_safe:
  assumes "x \<in> {CHR ''&'', CHR ''='', CHR '';'', CHR ''?'', CHR '':'', CHR ''@'', CHR ''/''}"
  shows "x \<notin> set (QueryEscape s)"
  using assms escape_char_safe unreserved_specials by (fastforce simp: QueryEscape_def)

subsection \<open>Reading the query back\<close>

text \<open>All values of a key, in the order given.\<close>

definition lookup_all :: "url_values \<Rightarrow> string \<Rightarrow> string list" where
  "lookup_all m k = (case map_of m k of Some vs \<Rightarrow> vs | None \<Rightarrow> [])"

definition pairs_of :: "url_values \<Rightarrow> (string \<times> string) list" where
  "pairs_of m = concat (map (\<lambda>(k, vs). map (Pair k) vs) m)"

definition encode_pair :: "string \<times> string \<Rightarrow> string" where
  "encode_pair p = QueryEscape (fst p) @ ''='' @ QueryEscape (snd p)"

lemma values_Encode_pairs: "values_Encode m = Join (map encode_pair (pairs_of (sorted_values m))) ''&''"
  by (simp add: values_Encode_def pairs_of_def encode_pair_def map_concat comp_def case_prod_unfold)

lemma SplitByte_nonempty: "SplitByte s c \<noteq> []"
  by (induction s) (auto split: list.splits)

lemma SplitByte_plain: "c \<notin> set s \<Longrightarrow> SplitByte s c = [s]"
  by (induction s) auto

lemma SplitByte_append: "SplitByte (s @ c # t) c = SplitByte s c @ SplitByte t c"
  by (induction s) (auto simp: SplitByte_nonempty split: list.splits)

lemma SplitByte_Join:
  assumes "\<forall>p\<in>set ps. c \<notin> set p" and "ps \<noteq> []"
  shows "SplitByte (Join ps [c]) c = ps"
  using assms by (induction ps "[c]" rule: Join.induct) (auto simp: SplitByte_plain SplitByte_append)

lemma Cut_first: "c \<notin> set s \<Longrightarrow> Cut (s @ c # t) [c] = (s, t, True)"
  by (induction s) (auto simp: HasPrefix_def)

lemma Cut_none: "Cut s [c] = (a, b, False) \<Longrightarrow> a = s \<and> b = [] \<and> c \<notin> set s"
  by (induction s arbitrary: a b) (auto simp: HasPrefix_def split: prod.splits if_splits)

lemma Cut_some: "Cut s [c] = (a, b, True) \<Longrightarrow> s = a @ c # b \<and> c \<notin> set a"
  by (induction s arbitrary: a b) (auto simp: HasPrefix_def split: prod.splits if_splits)

lemma query_pairs_encoded:
  "query_pairs (map encode_pair ps @ rest) m e = query_pairs rest (fold (\<lambda>(k, v). add_value k v) ps m) e"
proof (induction ps arbitrary: m)
  case (Cons p ps)
  have "\<not> Contains (encode_pair p) '';''" by (simp add: encode_pair_def Contains_char QueryEscape_safe)
  moreover have "Cut (encode_pair p) ''='' = (QueryEscape (fst p), QueryEscape (snd p), True)"
    by (simp add: encode_pair_def Cut_first QueryEscape_safe)
  moreover have "encode_pair p \<noteq> []" by (simp add: encode_pair_def)
  ultimately show ?case using Cons.IH by (simp add: case_prod_beta)
qed simp

lemma query_pairs_Encode:
  "query_pairs (SplitByte (values_Encode v) (CHR ''&'')) m e =
     (fold (\<lambda>(k, v). add_value k v) (pairs_of (sorted_values v)) m, e)"
proof (cases "pairs_of (sorted_values v) = []")
  case True
  then show ?thesis by (simp add: values_Encode_pairs)
next
  case False
  have "\<forall>p\<in>set (map encode_pair (pairs_of (sorted_values v))). CHR ''&'' \<notin> set p"
    by (auto simp: encode_pair_def QueryEscape_safe)
  with False have "SplitByte (values_Encode v) (CHR ''&'') = map encode_pair (pairs_of (sorted_values v))"
    by (simp add: values_Encode_pairs SplitByte_Join)
  then show ?thesis using query_pairs_encoded [of _ "[]"] by simp
qed

lemma query_pairs_append:
  "query_pairs (xs @ ys) m e = (case query_pairs xs m e of (m', e') \<Rightarrow> query_pairs ys m' e')"
  by (induction xs m e rule: query_pairs.induct) (auto simp: Let_def split: prod.splits res.splits)

lemma lookup_add_value: "lookup_all (add_value k v m) k' = lookup_all m k' @ (if k = k' then [v] else [])"
  by (simp add: lookup_all_def add_value_def update_conv')

lemma lookup_fold:
  "lookup_all (fold (\<lambda>(k, v). add_value k v) ps m) k = lookup_all m k @ map snd (filter (\<lambda>p. fst p = k) ps)"
  by (induction ps arbitrary: m) (auto simp: lookup_add_value)

lemma pairs_of_key:
  "distinct (map fst m) \<Longrightarrow> map snd (filter (\<lambda>p. fst p = k) (pairs_of m)) = lookup_all m k"
proof (induction m)
  case (Cons e m)
  obtain k' vs where e: "e = (k', vs)" by (cases e)
  have none: "lookup_all m k = []" if "k' = k"
    using that Cons.prems e by (auto simp: lookup_all_def dest: map_of_SomeD split: option.splits; force dest: map_of_SomeD)
  have "filter (\<lambda>p. fst p = k) (map (Pair k') vs) = (if k' = k then map (Pair k') vs else [])"
    by (induction vs) auto
  with Cons none show ?case
    by (auto simp: e pairs_of_def lookup_all_def comp_def)
qed (simp add: pairs_of_def lookup_all_def)

lemma sorted_values_lookup:
  assumes "distinct (map fst m)"
  shows "distinct (map fst (sorted_values m))" "lookup_all (sorted_values m) k = lookup_all m k"
proof -
  show "distinct (map fst (sorted_values m))" using assms by (simp add: sorted_values_def comp_def)
  have "map_of (map (\<lambda>k. (k, the (map_of m k))) (sort (map fst m))) k = map_of m k"
    by (cases "map_of m k")
      (auto simp: map_of_map_restrict restrict_map_def map_of_eq_None_iff [symmetric])
  then show "lookup_all (sorted_values m) k = lookup_all m k"
    by (simp add: sorted_values_def lookup_all_def)
qed

lemma append_lookup:
  assumes "distinct (map fst v)" and "ParseQuery q = Ok m"
  shows "\<exists>m'. ParseQuery (q @ ''&'' @ values_Encode v) = Ok m' \<and> (\<forall>k. lookup_all m' k = lookup_all m k @ lookup_all v k)"
    and "\<exists>m'. ParseQuery (values_Encode v) = Ok m' \<and> (\<forall>k. lookup_all m' k = lookup_all v k)"
proof -
  have "query_pairs (SplitByte q (CHR ''&'')) [] None = (m, None)"
    using assms(2) by (auto simp: ParseQuery_def split: prod.splits option.splits)
  then show "\<exists>m'. ParseQuery (q @ ''&'' @ values_Encode v) = Ok m' \<and> (\<forall>k. lookup_all m' k = lookup_all m k @ lookup_all v k)"
    by (simp add: ParseQuery_def SplitByte_append query_pairs_append query_pairs_Encode lookup_fold pairs_of_key
        sorted_values_lookup [OF assms(1)])
  show "\<exists>m'. ParseQuery (values_Encode v) = Ok m' \<and> (\<forall>k. lookup_all m' k = lookup_all v k)"
    by (simp add: ParseQuery_def query_pairs_Encode lookup_fold pairs_of_key sorted_values_lookup [OF assms(1)])
      (simp add: lookup_all_def)
qed

text \<open>The keys of the values read are distinct, as those of a map are.\<close>

lemma distinct_add_value: "distinct (map fst m) \<Longrightarrow> distinct (map fst (add_value k v m))"
  by (simp add: add_value_def distinct_update)

lemma distinct_fold: "distinct (map fst m) \<Longrightarrow> distinct (map fst (fold (\<lambda>(k, v). add_value k v) ps m))"
  by (induction ps arbitrary: m) (auto simp: distinct_add_value)

lemma keys_fold: "fst ` set (fold (\<lambda>(k, v). add_value k v) ps m) = fst ` set m \<union> fst ` set ps"
proof (induction ps arbitrary: m)
  case (Cons p ps)
  have "set (map fst (add_value (fst p) (snd p) m)) = insert (fst p) (set (map fst m))"
    by (auto simp: add_value_def update_keys)
  with Cons show ?case by (simp add: case_prod_unfold)
qed simp

lemma ParseQuery_Encode:
  assumes "distinct (map fst v)"
  shows "\<exists>m. ParseQuery (values_Encode v) = Ok m \<and> distinct (map fst m) \<and> fst ` set m \<subseteq> fst ` set v \<and>
    (\<forall>k. lookup_all m k = lookup_all v k)"
proof -
  let ?m = "fold (\<lambda>(k, v). add_value k v) (pairs_of (sorted_values v)) []"
  have "ParseQuery (values_Encode v) = Ok ?m" by (simp add: ParseQuery_def query_pairs_Encode)
  moreover have "lookup_all ?m k = lookup_all v k" for k
    by (simp add: lookup_fold pairs_of_key sorted_values_lookup [OF assms]) (simp add: lookup_all_def)
  moreover have "fst ` set ?m \<subseteq> fst ` set v"
    by (auto simp: keys_fold pairs_of_def sorted_values_def intro: rev_image_eqI)
  ultimately show ?thesis using distinct_fold [of "[]"] by auto
qed

text \<open>A key looked up exactly: the last of its values counts.\<close>

lemma getQueryValue_last: "lookup_all m k \<noteq> [] \<Longrightarrow> getQueryValue m (k # names) = last (lookup_all m k)"
  by (auto simp: lookup_all_def split: option.splits list.splits)

end
