(* ===== verification/Dsn.thy ===== *)
theory Dsn
  imports Url_Values
begin

text \<open>
  Writing a DSN and reading it: what \<open>ParseDSN\<close> makes of an opaque DSN whose parts are escaped the way
  \<open>url.QueryEscape\<close> escapes them.
\<close>

definition opaque_dsn :: "bool \<Rightarrow> string \<Rightarrow> string \<Rightarrow> string \<Rightarrow> string \<Rightarrow> url_values \<Rightarrow> string" where
  "opaque_dsn oracle user password addr database v =
     (if oracle then ''oboracle'' else ''oceanbase'') @ '':'' @ QueryEscape user @ '':'' @ QueryEscape password @
     ''@'' @ addr @ ''/'' @ QueryEscape database @ ''?'' @ values_Encode v"

subsection \<open>Parameters that are not options\<close>

text \<open>Every option's names, in the order \<open>applyQuery\<close> looks for them; none begins like \<open>attr.\<close> or \<open>init\<close>.\<close>

definition option_names :: "string list" where
  "option_names =
     [''timeout'', ''TIMEOUT'', ''CONNECT TIMEOUT'', ''connect timeout'', ''trace'', ''cap.add'', ''cap.drop'', ''collation'',
      ''preset'', ''oracleMode'', ''oracle_mode'', ''sessionTimeZone'', ''session_timezone'', ''ob20'', ''protocol.v2'',
      ''ob20.magic'', ''ob20.disableChecksum'', ''useCompression'', ''compress'', ''use_compression'', ''tls'', ''tls.ca'',
      ''tls_ca'', ''tls.cert'', ''tls_cert'']"

definition extra_key :: "string \<Rightarrow> bool" where
  "extra_key k \<longleftrightarrow> HasPrefix k ''attr.'' \<or> k = ''init''"

lemma HasPrefix_append: "HasPrefix s p \<longleftrightarrow> (\<exists>t. s = p @ t)"
  by (auto simp: HasPrefix_def) (metis append_take_drop_id)

lemma extra_key_first: "extra_key k \<Longrightarrow> \<exists>c s. ToLower k = c # s \<and> (c = CHR ''a'' \<or> c = CHR ''i'')"
proof -
  have "to_lower (CHR ''a'') = CHR ''a''" "to_lower (CHR ''i'') = CHR ''i''" by code_simp+
  then show "extra_key k \<Longrightarrow> ?thesis" by (auto simp: extra_key_def HasPrefix_append ToLower_def)
qed

lemma option_first: "n \<in> set option_names \<Longrightarrow> \<exists>c s. ToLower n = c # s \<and> c \<noteq> CHR ''a'' \<and> c \<noteq> CHR ''i''"
proof -
  assume n: "n \<in> set option_names"
  have "list_all (\<lambda>n. case ToLower n of [] \<Rightarrow> False | c # s \<Rightarrow> c \<noteq> CHR ''a'' \<and> c \<noteq> CHR ''i'') option_names" by code_simp
  with n show ?thesis by (cases "ToLower n") (auto simp: list_all_iff)
qed

lemma not_option: "extra_key k \<Longrightarrow> n \<in> set option_names \<Longrightarrow> \<not> EqualFold k n"
  using extra_key_first [of k] option_first [of n] by (auto simp: EqualFold_def)

lemma getQueryValue_absent:
  assumes "\<forall>e\<in>set m. extra_key (fst e)" and "set names \<subseteq> set option_names"
  shows "getQueryValue m names = []"
  using assms(2)
proof (induction names)
  case (Cons n names)
  then have "\<forall>e\<in>set m. \<not> EqualFold (fst e) n" using assms(1) not_option by auto
  then have "map_of m n = None" and "find (\<lambda>(key, vals). EqualFold key n \<and> vals \<noteq> []) m = None"
    by (auto simp: map_of_eq_None_iff EqualFold_def find_None_iff)
  with Cons show ?case by simp
qed simp

lemma opt_step_absent:
  "\<forall>e\<in>set m. extra_key (fst e) \<Longrightarrow> set names \<subseteq> set option_names \<Longrightarrow> opt_step m names f cfg = Ok cfg"
  by (simp add: opt_step_def getQueryValue_absent)

lemma applyQuery_extra:
  assumes "\<forall>e\<in>set m. extra_key (fst e)"
  shows "applyQuery env cfg m = set_attrs m (cfg\<lparr>InitSQL := InitSQL cfg @ lookup_all m ''init''\<rparr>)"
  by (simp add: applyQuery_def opt_step_absent [OF assms] option_names_def lookup_all_def)

lemma add_attrs_lookup:
  assumes "distinct (map fst m)"
  shows "map_of (add_attrs m attrs) k =
    (if lookup_all m (''attr.'' @ k) = [] then map_of attrs k else Some (last (lookup_all m (''attr.'' @ k))))"
  using assms
proof (induction m arbitrary: attrs)
  case (Cons e m)
  obtain key vals where e: "e = (key, vals)" by (cases e)
  have none: "lookup_all m key = []"
    using Cons.prems e by (auto simp: lookup_all_def dest!: map_of_SomeD split: option.splits; force)
  show ?case
  proof (cases "key = ''attr.'' @ k")
    case True
    with Cons none e show ?thesis
      by (auto simp: lookup_all_def HasPrefix_append TrimPrefix_def update_conv')
  next
    case False
    then have "TrimPrefix key ''attr.'' \<noteq> k" if "HasPrefix key ''attr.''"
      using that by (auto simp: HasPrefix_append TrimPrefix_def)
    with False Cons e show ?thesis by (auto simp: lookup_all_def update_conv')
  qed
qed (simp add: lookup_all_def)

subsection \<open>Normalising what was parsed\<close>

lemma default_timeout_only: "\<exists>t. default_timeout env c = c\<lparr>Timeout := t\<rparr>"
proof -
  have "\<exists>t. c = c\<lparr>Timeout := t\<rparr>" by (rule exI [of _ "Timeout c"]) simp
  then show ?thesis unfolding default_timeout_def Let_def by (auto split: res.splits)
qed

lemma normalized_plain:
  assumes "Addrs c = [] \<and> addrs = [Addr c] \<or> Addrs c = addrs \<and> addrs \<noteq> []" and "Addr c \<noteq> []"
    and "each_res normalize_addr addrs = Ok as" and "User c \<noteq> []"
    and "OracleMode c = []" and "SessionTimeZone c = []" and "Attributes c = Some attrs"
  shows "\<exists>c'. normalized env c = Ok c' \<and> User c' = User c \<and> Password c' = Password c \<and> Database c' = Database c \<and>
    Addr c' = as ! 0 \<and> Addrs c' = as \<and> Attributes c' = Some attrs \<and> InitSQL c' = InitSQL c \<and>
    Preset c' = (if Preset c = [] then ''default'' else Preset c)"
proof -
  have mode: "normalizeOracleMode [] = Ok ''auto''" by code_simp
  have "default_addrs c = c\<lparr>Addrs := addrs\<rparr>" using assms(1,2) by (auto simp: default_addrs_def)
  with assms(3) have n: "normalize env c = normalize_options env (c\<lparr>Addrs := as, Addr := as ! 0\<rparr>)"
    by (simp add: normalize_def)
  obtain t where t: "default_timeout env (c\<lparr>Addrs := as, Addr := as ! 0\<rparr>) = c\<lparr>Addrs := as, Addr := as ! 0, Timeout := t\<rparr>"
    using default_timeout_only [of env "c\<lparr>Addrs := as, Addr := as ! 0\<rparr>"] by auto
  show ?thesis
    unfolding normalized_def n using assms mode
    by (simp add: normalize_options_def t default_fields_def Let_def check_session_zone_def default_trace_def bind_st_def)
qed

text \<open>The address part of a DSN: one address, or several with commas between them.\<close>

definition plain_addrs :: "string list \<Rightarrow> bool" where
  "plain_addrs addrs \<longleftrightarrow>
     addrs \<noteq> [] \<and>
     (\<forall>a \<in> set addrs. a \<noteq> [] \<and> set a \<inter> {CHR ''@'', CHR ''/'', CHR ''?'', CHR '','', CHR '')''} = {})"

lemma addrs_of_dsn:
  assumes "plain_addrs addrs" and "Addr c = Join addrs '',''" and "Addrs c = (if length addrs = 1 then [] else addrs)"
  shows "Addrs c = [] \<and> addrs = [Addr c] \<or> Addrs c = addrs \<and> addrs \<noteq> []"
  using assms by (cases addrs rule: remdups_adj.cases) (auto simp: plain_addrs_def)

lemma set_Join: "set (Join ps sep) \<subseteq> (\<Union>p \<in> set ps. set p) \<union> set sep"
  by (induction ps sep rule: Join.induct) auto

lemma plain_addrs_Join:
  assumes "plain_addrs addrs"
  shows "set (Join addrs '','') \<inter> {CHR ''@'', CHR ''/'', CHR ''?'', CHR '')''} = {}" "Join addrs '','' \<noteq> []"
    "SplitByte (Join addrs '','') (CHR '','') = addrs"
    "Contains (Join addrs '','') '','' \<longleftrightarrow> length addrs \<noteq> 1"
proof -
  show "set (Join addrs '','') \<inter> {CHR ''@'', CHR ''/'', CHR ''?'', CHR '')''} = {}"
    using assms set_Join [of addrs "'',''"] by (auto simp: plain_addrs_def)
  show ne: "Join addrs '','' \<noteq> []" using assms by (cases addrs rule: remdups_adj.cases) (auto simp: plain_addrs_def)
  show split: "SplitByte (Join addrs '','') (CHR '','') = addrs"
    using assms SplitByte_Join [of addrs "CHR '',''"] by (auto simp: plain_addrs_def)
  show "Contains (Join addrs '','') '','' \<longleftrightarrow> length addrs \<noteq> 1"
    using assms by (cases addrs rule: remdups_adj.cases) (auto simp: plain_addrs_def Contains_char)
qed

subsection \<open>The round trip\<close>

lemma Contains_split: "Contains s p \<Longrightarrow> \<exists>a b. s = a @ p @ b"
proof (induction s)
  case (Cons c s)
  then show ?case by (auto simp: HasPrefix_append) (metis append_Cons append_Nil)+
qed simp

lemma slash_not_encoded: "CHR ''/'' \<notin> set (values_Encode v)"
proof -
  have "CHR ''/'' \<notin> set (Join ps ''&'')" if "\<forall>p\<in>set ps. CHR ''/'' \<notin> set p" for ps
    using that by (induction ps "''&''" rule: Join.induct) auto
  then show ?thesis by (simp add: values_Encode_pairs encode_pair_def QueryEscape_safe)
qed

lemma opaque_dsn_no_url:
  assumes "CHR ''/'' \<notin> set addr"
  shows "\<not> Contains (opaque_dsn oracle user password addr database v) ''://''"
proof
  let ?s = "opaque_dsn oracle user password addr database v"
  assume "Contains ?s ''://''"
  then obtain a b where "?s = a @ ''://'' @ b" using Contains_split by blast
  then have "2 \<le> count_list ?s (CHR ''/'')" by (simp add: count_list_append)
  moreover have "count_list ?s (CHR ''/'') = 1"
    using assms by (simp add: opaque_dsn_def count_list_append count_notin slash_not_encoded QueryEscape_safe)
  ultimately show False by simp
qed

text \<open>The parts of the DSN, as \<open>parseOpaqueDSN\<close> cuts them.\<close>

lemma opaque_dsn_parts:
  assumes "set addr \<inter> {CHR ''@'', CHR ''/'', CHR ''?''} = {}"
  shows "parseOpaqueDSN env (opaque_dsn oracle user password addr database v) =
    (let cfg = zero_config\<lparr>Addr := addr, User := user, Password := password, Database := database,
                 Attributes := Some [], UseCompression := False\<rparr>;
         cfg = (if Contains addr '','' then cfg\<lparr>Addrs := SplitByte addr (CHR '','')\<rparr> else cfg);
         cfg = (if oracle then cfg\<lparr>Preset := ''oboracle''\<rparr> else cfg)
     in bind_res (if values_Encode v \<noteq> [] then bind_res (ParseQuery (values_Encode v)) (applyQuery env cfg) else Ok cfg) (\<lambda>cfg.
          normalized env (if oracle then cfg\<lparr>Preset := ''oboracle''\<rparr> else cfg)))"
proof -
  let ?s = "opaque_dsn oracle user password addr database v"
  let ?info = "QueryEscape user @ CHR '':'' # QueryEscape password"
  let ?main = "?info @ CHR ''@'' # addr @ CHR ''/'' # QueryEscape database"
  have scheme: "CHR '':'' \<notin> set (if oracle then ''oboracle'' else ''oceanbase'')" by simp
  have "Cut ?s '':'' = (if oracle then ''oboracle'' else ''oceanbase'', ?main @ CHR ''?'' # values_Encode v, True)"
    using Cut_first [OF scheme] by (simp add: opaque_dsn_def)
  moreover have "CHR ''?'' \<notin> set ?main" using assms by (auto simp: QueryEscape_safe)
  then have "Cut (?main @ CHR ''?'' # values_Encode v) ''?'' = (?main, values_Encode v, True)" by (rule Cut_first)
  moreover have "CHR ''@'' \<notin> set ?info" by (simp add: QueryEscape_safe)
  then have "Cut ?main ''@'' = (?info, addr @ CHR ''/'' # QueryEscape database, True)" by (rule Cut_first)
  moreover have "Cut ?info '':'' = (QueryEscape user, QueryEscape password, True)"
    by (rule Cut_first) (simp add: QueryEscape_safe)
  moreover have "Cut (addr @ CHR ''/'' # QueryEscape database) ''/'' = (addr, QueryEscape database, True)"
    by (rule Cut_first) (use assms in auto)
  moreover have "HasPrefix ?s ''oboracle:'' \<longleftrightarrow> oracle" by (auto simp: opaque_dsn_def HasPrefix_append)
  ultimately show ?thesis by (simp add: parseOpaqueDSN_def wrap_error_def Let_def)
qed

lemma opaque_dsn_read:
  assumes "user \<noteq> []" and addrs: "plain_addrs addrs" "each_res normalize_addr addrs = Ok as"
    and v: "distinct (map fst v)" "\<forall>e\<in>set v. extra_key (fst e)"
  shows "\<exists>c attrs. ParseDSN env (opaque_dsn oracle user password (Join addrs '','') database v) = Ok c \<and>
    User c = user \<and> Password c = password \<and> Database c = database \<and> Addr c = as ! 0 \<and> Addrs c = as \<and>
    Attributes c = Some attrs \<and>
    (\<forall>k. map_of attrs k = (case lookup_all v (''attr.'' @ k) of [] \<Rightarrow> None | vs \<Rightarrow> Some (last vs))) \<and>
    InitSQL c = lookup_all v ''init'' \<and> Preset c = (if oracle then ''oboracle'' else ''default'')"
proof -
  define addr where "addr = Join addrs '',''"
  let ?s = "opaque_dsn oracle user password addr database v"
  let ?cfg = "zero_config\<lparr>Addr := addr, Addrs := (if length addrs = 1 then [] else addrs), User := user,
    Password := password, Database := database, Attributes := Some [], UseCompression := False,
    Preset := (if oracle then ''oboracle'' else [])\<rparr>"
  from ParseQuery_Encode [OF v(1)] obtain m where m: "ParseQuery (values_Encode v) = Ok m" "distinct (map fst m)"
    "fst ` set m \<subseteq> fst ` set v" and same: "\<And>k. lookup_all m k = lookup_all v k" by blast
  define attrs where "attrs = add_attrs m []"
  note a = plain_addrs_Join [OF addrs(1), folded addr_def]
  have addr: "set addr \<inter> {CHR ''@'', CHR ''/'', CHR ''?''} = {}" "CHR ''/'' \<notin> set addr" using a(1) by auto
  have keys: "\<forall>e\<in>set m. extra_key (fst e)" using m(3) v(2) by fastforce
  have parsed: "parseOpaqueDSN env ?s = normalized env (?cfg\<lparr>InitSQL := lookup_all v ''init'', Attributes := Some attrs\<rparr>)"
  proof (cases "values_Encode v = []")
    case True
    with m(1) have "m = []" by (simp add: ParseQuery_def)
    with same [of "''init''"] True a opaque_dsn_parts [OF addr(1), of env "oracle" user password database v] show ?thesis
      by (simp add: attrs_def lookup_all_def zero_config_def)
  next
    case False
    with m(1) a opaque_dsn_parts [OF addr(1), of env "oracle" user password database v] same [of "''init''"] show ?thesis
      by (simp add: attrs_def applyQuery_extra [OF keys] set_attrs_def zero_config_def)
  qed
  have "HasPrefix ?s ''oceanbase:'' \<or> HasPrefix ?s ''oboracle:''" by (auto simp: opaque_dsn_def HasPrefix_append)
  then have opaque: "ParseDSN env ?s = parseOpaqueDSN env ?s"
    using opaque_dsn_no_url [of addr "oracle" user password database v] addr by (auto simp: ParseDSN_def)
  have found: "map_of attrs k = (case lookup_all v (''attr.'' @ k) of [] \<Rightarrow> None | vs \<Rightarrow> Some (last vs))" for k
    by (simp add: attrs_def add_attrs_lookup [OF m(2)] same split: list.split)
  define d where "d = ?cfg\<lparr>InitSQL := lookup_all v ''init'', Attributes := Some attrs\<rparr>"
  have d: "Addr d = addr" "Addrs d = (if length addrs = 1 then [] else addrs)" "User d = user" "Password d = password"
    "Database d = database" "Attributes d = Some attrs" "InitSQL d = lookup_all v ''init''"
    "Preset d = (if oracle then ''oboracle'' else [])" "OracleMode d = []" "SessionTimeZone d = []"
    by (simp_all add: d_def zero_config_def)
  obtain c where "normalized env d = Ok c" "User c = User d"
    "Password c = Password d" "Database c = Database d" "Addr c = as ! 0" "Addrs c = as" "Attributes c = Some attrs"
    "InitSQL c = InitSQL d" "Preset c = (if Preset d = [] then ''default'' else Preset d)"
    using normalized_plain [OF addrs_of_dsn [OF addrs(1) d(1,2) [unfolded addr_def]] _ addrs(2), of attrs env] assms(1) a(2)
    by (auto simp: d)
  with opaque parsed found show ?thesis unfolding addr_def [symmetric] d_def [symmetric]
    by (intro exI [of _ c] exI [of _ attrs] conjI allI) (simp_all add: d)
qed

text \<open>The legacy form, with the parts escaped in the same way.\<close>

definition legacy_dsn :: "string \<Rightarrow> string \<Rightarrow> string \<Rightarrow> string \<Rightarrow> string" where
  "legacy_dsn user password addr database =
     QueryEscape user @ '':'' @ QueryEscape password @ ''@tcp('' @ addr @ '')/'' @ QueryEscape database"

lemma Cut_absent: "c \<notin> set s \<Longrightarrow> Cut s [c] = (s, [], False)"
  by (induction s) (auto simp: HasPrefix_def)

lemma Cut_tcp: "CHR ''@'' \<notin> set s \<Longrightarrow> Cut (s @ ''@tcp('' @ t) ''@tcp('' = (s, t, True)"
  by (induction s) (auto simp: HasPrefix_def)

text \<open>A user called like a scheme turns the legacy form into the opaque one; every other does not.\<close>

lemma legacy_dsn_form:
  assumes "CHR ''/'' \<notin> set addr" and "user \<notin> {''oceanbase'', ''oboracle''}"
  shows "ParseDSN env (legacy_dsn user password addr database) = parseLegacyDSN env (legacy_dsn user password addr database)"
proof -
  let ?s = "legacy_dsn user password addr database"
  have "\<not> Contains ?s ''://''"
  proof
    assume "Contains ?s ''://''"
    then obtain a b where "?s = a @ ''://'' @ b" using Contains_split by blast
    then have "2 \<le> count_list ?s (CHR ''/'')" by (simp add: count_list_append)
    moreover have "count_list ?s (CHR ''/'') = 1"
      using assms(1) by (simp add: legacy_dsn_def count_list_append count_notin QueryEscape_safe)
    ultimately show False by simp
  qed
  moreover have "\<not> HasPrefix ?s (p @ '':'')" if "p \<in> {''oceanbase'', ''oboracle''}" for p
  proof
    assume "HasPrefix ?s (p @ '':'')"
    then obtain t where t: "?s = p @ CHR '':'' # t" by (auto simp: HasPrefix_append)
    have "Cut ?s '':'' = (QueryEscape user, QueryEscape password @ ''@tcp('' @ addr @ '')/'' @ QueryEscape database, True)"
      unfolding legacy_dsn_def using Cut_first [of "CHR '':''" "QueryEscape user"] by (simp add: QueryEscape_safe)
    moreover have "CHR '':'' \<notin> set p" using that by auto
    then have "Cut ?s '':'' = (p, t, True)" unfolding t by (rule Cut_first)
    ultimately have "QueryEscape user = p" by simp
    moreover have "QueryUnescape p = Ok p" using that by (elim insertE emptyE) (code_simp; simp)+
    ultimately have "user = p" using QueryUnescape_Escape [of user] by simp
    with that assms(2) show False by simp
  qed
  from this [of "''oceanbase''"] this [of "''oboracle''"]
  have "\<not> HasPrefix ?s ''oceanbase:''" "\<not> HasPrefix ?s ''oboracle:''" by simp_all
  ultimately show ?thesis by (simp add: ParseDSN_def)
qed

lemma legacy_dsn_read:
  assumes "user \<noteq> []" and addrs: "plain_addrs addrs" "each_res normalize_addr addrs = Ok as"
    and "user \<notin> {''oceanbase'', ''oboracle''}"
  shows "\<exists>c. ParseDSN env (legacy_dsn user password (Join addrs '','') database) = Ok c \<and>
    User c = user \<and> Password c = password \<and> Database c = QueryEscape database \<and> Addr c = as ! 0 \<and> Addrs c = as"
proof -
  define addr where "addr = Join addrs '',''"
  let ?s = "legacy_dsn user password addr database"
  let ?cfg = "zero_config\<lparr>Addr := addr, Addrs := (if length addrs = 1 then [] else addrs), User := user,
    Password := password, Database := QueryEscape database, Attributes := Some [], UseCompression := False\<rparr>"
  note a = plain_addrs_Join [OF addrs(1), folded addr_def]
  have addr: "CHR '')'' \<notin> set addr" "CHR ''/'' \<notin> set addr" using a(1) by auto
  let ?info = "QueryEscape user @ CHR '':'' # QueryEscape password"
  have "Cut ?s ''@tcp('' = (?info, addr @ CHR '')'' # CHR ''/'' # QueryEscape database, True)"
    using Cut_tcp [of ?info "addr @ CHR '')'' # CHR ''/'' # QueryEscape database"] by (simp add: legacy_dsn_def QueryEscape_safe)
  moreover have "Cut ?info '':'' = (QueryEscape user, QueryEscape password, True)"
    by (rule Cut_first) (simp add: QueryEscape_safe)
  moreover have "Cut (addr @ CHR '')'' # CHR ''/'' # QueryEscape database) '')'' = (addr, CHR ''/'' # QueryEscape database, True)"
    using addr by (intro Cut_first)
  moreover have "HasPrefix (CHR ''/'' # QueryEscape database) ''/''"
    "TrimPrefix (CHR ''/'' # QueryEscape database) ''/'' = QueryEscape database"
    by (simp_all add: HasPrefix_append TrimPrefix_def)
  moreover have "Cut (QueryEscape database) ''?'' = (QueryEscape database, [], False)"
    by (rule Cut_absent) (simp add: QueryEscape_safe)
  ultimately have "parseLegacyDSN env ?s = normalized env ?cfg"
    using a by (simp add: parseLegacyDSN_def Let_def unescape_or_def zero_config_def)
  moreover have cfg: "Addr ?cfg = addr" "Addrs ?cfg = (if length addrs = 1 then [] else addrs)" by simp_all
  have "\<exists>c. normalized env ?cfg = Ok c \<and> User c = user \<and> Password c = password \<and> Database c = QueryEscape database \<and>
      Addr c = as ! 0 \<and> Addrs c = as"
    using normalized_plain [OF addrs_of_dsn [OF addrs(1) cfg [unfolded addr_def]] _ addrs(2), of "[]" env] assms(1) a(2)
    by (auto simp: zero_config_def addr_def)
  ultimately show ?thesis
    using legacy_dsn_form [OF addr(2) assms(4), of env password database] unfolding addr_def by simp
qed


definition sample_values :: url_values where
  "sample_values = [(''init'', [''set a = 1'', ''set b = 2'']), (''attr.app'', [''x'', ''y & z''])]"


end
