(* ===== verification/Obping.thy ===== *)
theory Obping
  imports Url_Values
begin

text \<open>
  The command-line tool \<open>cmd/obping/main.go\<close>, first part: how its flags become the query
  parameters of a DSN.  What it then does with the database is in \<open>Obping_Check\<close>.  \<open>url.Parse\<close> and
  \<open>URL.String\<close> are parameters.
\<close>

subsection \<open>Flags\<close>

record obping_flags =
  fTrace :: bool
  fCapAdd :: string
  fCapDrop :: string
  fCollation :: string
  fPreset :: string
  fOb20 :: bool
  fOracleMode :: bool
  fCompress :: bool
  fCharset :: string
  fOb20Magic :: string
  fAttrs :: "string list"
  fInitSQL :: "string list"

definition charsetMap :: "(string \<times> string) list" where
  "charsetMap =
     [(''big5'', ''1''), (''latin1'', ''5''), (''ascii'', ''11''), (''gbk'', ''28''), (''utf8'', ''33''), (''utf8mb4'', ''45''),
      (''binary'', ''63''), (''latin2'', ''2''), (''gb2312'', ''24''), (''gb18030'', ''248''), (''euckr'', ''19''), (''sjis'', ''13''),
      (''ujis'', ''12''), (''utf16'', ''54''), (''utf32'', ''60'')]"

definition resolveCharset :: "string \<Rightarrow> string" where
  "resolveCharset name = (case map_of charsetMap (ToLower name) of Some i \<Rightarrow> i | None \<Rightarrow> [])"

text \<open>\<open>repeatedFlag\<close>: a flag that may be given more than once.\<close>

definition repeatedFlag_String :: "string list option \<Rightarrow> string" where
  "repeatedFlag_String f = (case f of None \<Rightarrow> [] | Some vs \<Rightarrow> Join vs '','')"

definition repeatedFlag_Set :: "string \<Rightarrow> string list \<Rightarrow> string list" where
  "repeatedFlag_Set value f = f @ [value]"

definition set_if :: "bool \<Rightarrow> string \<Rightarrow> string \<Rightarrow> url_values \<Rightarrow> url_values" where
  "set_if b key value m = (if b then values_set key value m else m)"

text \<open>The loop over \<open>-attr\<close>: a malformed attribute is reported and ignored.\<close>

fun attr_values :: "string list \<Rightarrow> url_values \<Rightarrow> url_values" where
  "attr_values [] m = m"
| "attr_values (attr # attrs) m =
     (case Cut attr ''='' of
        (key, value, ok) \<Rightarrow> attr_values attrs (if \<not> ok \<or> key = [] then m else values_set (''attr.'' @ key) value m))"

definition experimentValues :: "obping_flags \<Rightarrow> url_values \<times> bool" where
  "experimentValues f =
     (let m = set_if (fOracleMode f) ''preset'' ''oboracle'' [];
          m = set_if (fTrace f) ''trace'' ''true'' m;
          m = set_if (fOb20 f) ''ob20'' ''true'' m;
          m = set_if (fCapAdd f \<noteq> []) ''cap.add'' (fCapAdd f) m;
          m = set_if (fCapDrop f \<noteq> []) ''cap.drop'' (fCapDrop f) m;
          m = set_if (fCollation f \<noteq> []) ''collation'' (fCollation f) m;
          m = set_if (fPreset f \<noteq> []) ''preset'' (fPreset f) m;
          m = set_if (fCompress f) ''compress'' ''true'' m;
          m = set_if (fCharset f \<noteq> []) ''collation''
                (if resolveCharset (fCharset f) \<noteq> [] then resolveCharset (fCharset f) else fCharset f) m;
          m = set_if (fOb20Magic f \<noteq> []) ''ob20.magic'' (fOb20Magic f) m;
          m = attr_values (fAttrs f) m;
          m = fold (add_value ''init'') (fInitSQL f) m
      in (m, 0 < length m))"

definition appendRawQuery :: "string \<Rightarrow> url_values \<Rightarrow> string" where
  "appendRawQuery dsn values = dsn @ (if Contains dsn ''?'' then ''&'' else ''?'') @ values_Encode values"

text \<open>\<open>url.Values\<close> of a parsed URL, as \<open>URL.Query\<close> returns it: errors are dropped.\<close>

definition url_Query :: "parsed_url \<Rightarrow> url_values" where
  "url_Query u = fst (query_pairs (SplitByte (urlRawQuery u) (CHR ''&'')) [] None)"

definition add_all :: "url_values \<Rightarrow> url_values \<Rightarrow> url_values" where
  "add_all values existing = fold (\<lambda>(key, vals) m. fold (add_value key) vals m) values existing"

text \<open>
  The URL \<open>buildDSN\<close> fills in, for \<open>URL.String\<close> to print: the path is the plain one, not the escaped
  path the driver reads.
\<close>

record built_url =
  bScheme :: string
  bUser :: string
  bPassword :: string
  bHost :: string
  bPath :: string
  bRawQuery :: string

definition buildDSN ::
  "(built_url \<Rightarrow> string) \<Rightarrow> (int \<Rightarrow> string) \<Rightarrow> string \<Rightarrow> string \<Rightarrow> string \<Rightarrow> string \<Rightarrow> string \<Rightarrow> int \<Rightarrow> string \<Rightarrow> obping_flags \<Rightarrow> string" where
  "buildDSN url_String duration_String user password host port database timeout addrs f =
     (let hostPart = (if addrs \<noteq> [] then addrs else JoinHostPort host port);
          values = values_set ''timeout'' (duration_String timeout) (fst (experimentValues f))
      in url_String \<lparr>bScheme = ''oceanbase'', bUser = user, bPassword = password, bHost = hostPart,
           bPath = database, bRawQuery = values_Encode values\<rparr>)"

text \<open>
  \<open>with_query dsn q\<close> stands for \<open>u.RawQuery = q; u.String()\<close> on the URL that \<open>url.Parse\<close> makes of \<open>dsn\<close>.
\<close>

definition applyExperimentParams ::
  "host_env \<Rightarrow> (string \<Rightarrow> string \<Rightarrow> string) \<Rightarrow> string \<Rightarrow> obping_flags \<Rightarrow> string res" where
  "applyExperimentParams env with_query dsn f =
     (case experimentValues f of (values, changed) \<Rightarrow>
        if \<not> Contains dsn ''://'' then
          (if HasPrefix dsn ''oceanbase:'' \<or> HasPrefix dsn ''oboracle:'' then
             (if \<not> changed then Ok dsn else Ok (appendRawQuery dsn values))
           else if changed then
             Err (Errorf ''experiment flags with -dsn require URL-style or oceanbase: DSN'' [])
           else Ok dsn)
        else
          bind_res (url_Parse env dsn) (\<lambda>u.
            Ok (with_query dsn (values_Encode (add_all values (url_Query u))))))"

text \<open>The flags \<open>main\<close> applies to any form of DSN.\<close>

record extra_flags =
  xTls :: bool
  xTlsCA :: string
  xTlsCert :: string
  xTlsKey :: string
  xMysqlMode :: bool
  xTraceID :: string
  xSpanID :: string
  xPartID :: string

definition extra_params :: "extra_flags \<Rightarrow> url_values option" where
  "extra_params x =
     (let m = set_if (xTls x) ''tls'' ''true'' [];
          m = set_if (xTlsCA x \<noteq> []) ''tls.ca'' (xTlsCA x) m;
          m = set_if (xTlsCert x \<noteq> []) ''tls.cert'' (xTlsCert x) m;
          m = set_if (xTlsKey x \<noteq> []) ''tls.key'' (xTlsKey x) m;
          m = set_if (xMysqlMode x) ''oracleMode'' ''false'' m;
          m = set_if (xTraceID x \<noteq> []) ''attr._ob_trace_id'' (xTraceID x) m;
          m = set_if (xSpanID x \<noteq> []) ''attr._ob_span_id'' (xSpanID x) m;
          m = set_if (xPartID x \<noteq> []) ''attr._ob_partition_id'' (xPartID x) m
      in if xTls x \<or> xTlsCA x \<noteq> [] \<or> xTlsCert x \<noteq> [] \<or> xTlsKey x \<noteq> [] \<or> xMysqlMode x \<or> xTraceID x \<noteq> [] \<or>
            xSpanID x \<noteq> [] \<or> xPartID x \<noteq> []
         then Some m else None)"

definition apply_extra :: "extra_flags \<Rightarrow> string \<Rightarrow> string" where
  "apply_extra x connString = (case extra_params x of Some m \<Rightarrow> appendRawQuery connString m | None \<Rightarrow> connString)"

lemma appendRawQuery_read:
  assumes "Cut dsn ''?'' = (base, q, found)" and "ParseQuery q = Ok m" and "distinct (map fst v)"
  shows "\<exists>q' m'. Cut (appendRawQuery dsn v) ''?'' = (base, q', True) \<and> ParseQuery q' = Ok m' \<and>
           (\<forall>k. lookup_all m' k = lookup_all m k @ lookup_all v k)"
proof (cases found)
  case True
  with assms(1) have "dsn = base @ CHR ''?'' # q" "CHR ''?'' \<notin> set base" by (auto dest: Cut_some)
  then have "Cut (appendRawQuery dsn v) ''?'' = (base, q @ ''&'' @ values_Encode v, True)"
    by (simp add: appendRawQuery_def Contains_char Cut_first)
  with append_lookup(1) [OF assms(3,2)] show ?thesis by auto
next
  case False
  with assms(1) have dsn: "dsn = base" "q = []" "CHR ''?'' \<notin> set base" by (auto dest: Cut_none)
  then have "Cut (appendRawQuery dsn v) ''?'' = (base, values_Encode v, True)"
    by (simp add: appendRawQuery_def Contains_char Cut_first)
  moreover from assms(2) dsn have "m = []" by (simp add: ParseQuery_def)
  ultimately show ?thesis using append_lookup(2) [OF assms(3,2)] by (auto simp: lookup_all_def)
qed

subsection \<open>The values of the flags\<close>

definition extra_values :: "extra_flags \<Rightarrow> url_values" where
  "extra_values x = (case extra_params x of Some m \<Rightarrow> m | None \<Rightarrow> [])"

text \<open>What the flags give for a key.\<close>

definition flag_values :: "obping_flags \<Rightarrow> extra_flags \<Rightarrow> string \<Rightarrow> string list" where
  "flag_values f x k = lookup_all (fst (experimentValues f)) k @ lookup_all (extra_values x) k"

lemma distinct_set [simp]: "distinct (map fst m) \<Longrightarrow> distinct (map fst (values_set k v m))"
  by (simp add: values_set_def distinct_update)

lemma distinct_set_if [simp]: "distinct (map fst m) \<Longrightarrow> distinct (map fst (set_if b k v m))"
  by (simp add: set_if_def)

lemma distinct_attrs [simp]: "distinct (map fst m) \<Longrightarrow> distinct (map fst (attr_values attrs m))"
  by (induction attrs m rule: attr_values.induct) (auto split: prod.splits)

lemma distinct_init [simp]: "distinct (map fst m) \<Longrightarrow> distinct (map fst (fold (add_value k) vs m))"
  by (induction vs arbitrary: m) (simp_all add: distinct_add_value)

lemma experimentValues_distinct: "distinct (map fst (fst (experimentValues f)))"
  by (simp add: experimentValues_def Let_def)

lemma extra_values_distinct: "distinct (map fst (extra_values x))"
  by (simp add: extra_values_def extra_params_def Let_def)

lemma experimentValues_unchanged: "\<not> snd (experimentValues f) \<Longrightarrow> fst (experimentValues f) = []"
  by (auto simp: experimentValues_def Let_def)

lemma lookup_set_if: "lookup_all (set_if b k v m) k' = (if b \<and> k = k' then [v] else lookup_all m k')"
  by (simp add: set_if_def values_set_def lookup_all_def update_conv')

lemma lookup_attr_values: "\<not> HasPrefix k ''attr.'' \<Longrightarrow> lookup_all (attr_values attrs m) k = lookup_all m k"
  by (induction attrs m rule: attr_values.induct)
    (auto simp: values_set_def lookup_all_def update_conv' HasPrefix_def split: prod.splits if_splits)

lemma lookup_init: "k \<noteq> ''init'' \<Longrightarrow> lookup_all (fold (add_value ''init'') vs m) k = lookup_all m k"
  by (induction vs arbitrary: m) (simp_all add: lookup_add_value)

lemmas lookup_flags = experimentValues_def extra_values_def extra_params_def lookup_set_if lookup_attr_values lookup_init

text \<open>No flag sets \<open>useCompression\<close>, the first name under which the driver looks for compression.\<close>

lemma no_flag_useCompression:
  assumes "EqualFold k ''useCompression''"
  shows "flag_values f x k = []"
proof -
  have "ToLower ''useCompression'' = ''usecompression''" by code_simp
  with assms have k: "ToLower k = ''usecompression''" by (simp add: EqualFold_def)
  have "\<forall>c \<in> set [''preset'', ''trace'', ''ob20'', ''cap.add'', ''cap.drop'', ''collation'', ''compress'', ''ob20.magic'',
      ''init'', ''tls'', ''tls.ca'', ''tls.cert'', ''tls.key'', ''oracleMode'', ''attr._ob_trace_id'', ''attr._ob_span_id'',
      ''attr._ob_partition_id'']. ToLower c \<noteq> ''usecompression''" by code_simp
  with k have ne: "c \<noteq> k" "k \<noteq> c" if "c \<in> set [''preset'', ''trace'', ''ob20'', ''cap.add'', ''cap.drop'', ''collation'',
      ''compress'', ''ob20.magic'', ''init'', ''tls'', ''tls.ca'', ''tls.cert'', ''tls.key'', ''oracleMode'',
      ''attr._ob_trace_id'', ''attr._ob_span_id'', ''attr._ob_partition_id'']" for c
    using that by blast+
  have "to_lower (CHR ''a'') = CHR ''a''" by code_simp
  then have "\<not> HasPrefix k ''attr.''"
    using k by (cases k) (auto simp: HasPrefix_def ToLower_def)
  then show ?thesis
    by (simp add: flag_values_def lookup_flags Let_def lookup_all_def [of "[]"] ne)
qed

lemma flag_compress: "fCompress f \<Longrightarrow> flag_values f x ''compress'' = [''true'']"
  by (simp add: flag_values_def lookup_flags Let_def lookup_all_def [of "[]"] HasPrefix_def)

lemma query_pairs_distinct: "distinct (map fst m) \<Longrightarrow> distinct (map fst (fst (query_pairs parts m e)))"
  by (induction parts m e rule: query_pairs.induct)
    (auto simp: distinct_add_value split: prod.splits res.splits if_splits)

lemma ParseQuery_distinct: "ParseQuery q = Ok m \<Longrightarrow> distinct (map fst m)"
  using query_pairs_distinct [of "[]"] by (auto simp: ParseQuery_def split: prod.splits option.splits if_splits) (metis fst_conv)

lemma getQueryValue_skip:
  assumes "distinct (map fst m)" and "\<forall>k. EqualFold k name \<longrightarrow> lookup_all m k = []"
  shows "getQueryValue m (name # names) = getQueryValue m names"
proof -
  have "lookup_all m name = []" using assms(2) by (simp add: EqualFold_def)
  moreover have "find (\<lambda>(key, vals). EqualFold key name \<and> vals \<noteq> []) m = None"
    using assms by (auto simp: find_None_iff lookup_all_def dest: map_of_is_SomeI)
  ultimately show ?thesis by (auto simp: lookup_all_def split: option.splits list.splits)
qed

text \<open>The driver takes the preset of an \<open>oboracle:\<close> DSN from the scheme.\<close>

lemma normalized_preset:
  assumes "normalized env c = Ok c'" and "Preset c \<noteq> []"
  shows "Preset c' = Preset c"
proof -
  have keep: "Preset (default_addrs d) = Preset d" "Preset (default_timeout env d) = Preset d" "Preset (default_trace d) = Preset d" for d
    by (simp_all add: default_addrs_def default_timeout_def default_trace_def Let_def split: res.splits)
  have "Preset d' = Preset d" if "normalize_options env d = (Ok u, d')" and "Preset d \<noteq> []" for d d' u
    using that
    by (auto simp: normalize_options_def default_fields_def check_session_zone_def Let_def keep bind_st_def
        split: if_splits res.splits prod.splits)
  with assms show ?thesis
    by (auto simp: normalized_def normalize_def Let_def keep split: res.splits prod.splits)
qed

lemma oboracle_preset:
  assumes "HasPrefix dsn ''oboracle:''" and "parseOpaqueDSN env dsn = Ok cfg"
  shows "Preset cfg = ''oboracle''"
proof -
  from assms obtain c where "normalized env (c\<lparr>Preset := ''oboracle''\<rparr>) = Ok cfg"
    by (auto simp: parseOpaqueDSN_def Let_def case_prod_unfold split: if_splits)
  then show ?thesis using normalized_preset [of env "c\<lparr>Preset := ''oboracle''\<rparr>"] by simp
qed

lemma HasPrefix_longer: "HasPrefix s p \<Longrightarrow> HasPrefix (s @ t) p"
  by (auto simp: HasPrefix_def dest: arg_cong [where f = length])

lemma extended_prefix:
  assumes "HasPrefix dsn p" and "applyExperimentParams env wq dsn f = Ok dsn'" and "\<not> Contains dsn ''://''"
  shows "HasPrefix (apply_extra x dsn') p"
proof -
  from assms(2,3) have "\<exists>t. dsn' = dsn @ t"
    by (auto simp: applyExperimentParams_def appendRawQuery_def split: prod.splits if_splits)
  then obtain t where "dsn' = dsn @ t" ..
  then have "HasPrefix dsn' p" using HasPrefix_longer [OF assms(1)] by simp
  then show ?thesis by (auto simp: apply_extra_def appendRawQuery_def HasPrefix_longer split: option.splits)
qed


definition sample_flags :: obping_flags where
  "sample_flags = \<lparr>fTrace = True, fCapAdd = [], fCapDrop = [], fCollation = [], fPreset = [], fOb20 = False,
     fOracleMode = False, fCompress = False, fCharset = ''GBK'', fOb20Magic = [], fAttrs = [''a=b&c'', ''bad''],
     fInitSQL = [''set x = 1'', ''set y = 2'']\<rparr>"

definition sample_extra :: extra_flags where
  "sample_extra = \<lparr>xTls = True, xTlsCA = [], xTlsCert = [], xTlsKey = [], xMysqlMode = False, xTraceID = [],
     xSpanID = [], xPartID = ''7;8''\<rparr>"


end
