(* ===== verification/Obping_Check.thy ===== *)
theory Obping_Check
  imports Obping Conn
begin

text \<open>
  The rest of \<open>cmd/obping\<close>: which action \<open>main\<close> chooses, and the actions \<open>runCheck\<close>, \<open>runScalar\<close>,
  \<open>runTxTest\<close> and \<open>probePresets\<close> as programs over \<open>database/sql\<close>.  That package is a parameter, a record
  of the calls the tool makes; the state of the pool is of any type, and every call may succeed or
  fail.  What is printed to the
  standard output is a list of lines, each a format string without its newline and the arguments.
\<close>

subsection \<open>The calls of database/sql\<close>

text \<open>
  Opening a database by the driver's name and the DSN, taking a connection, the driver's connection
  that \<open>Raw\<close> passes on (none if it is not this driver's), \<open>QueryRowContext\<close> with \<open>Scan\<close> into a string,
  an integer or any value, and transactions.
\<close>

record 'p sql_api =
  sqlOpen :: "string \<Rightarrow> string \<Rightarrow> ('p, unit) st"
  dbConn :: "('p, unit) st"
  connRaw :: "('p, conn option) st"
  connClose :: "('p, unit) st"
  queryString :: "string \<Rightarrow> ('p, string) st"
  queryInt :: "string \<Rightarrow> ('p, int) st"
  queryAny :: "string \<Rightarrow> ('p, gval) st"
  dbBeginTx :: "('p, unit) st"
  txQueryInt :: "string \<Rightarrow> ('p, int) st"
  txQueryAny :: "string \<Rightarrow> ('p, gval) st"
  txCommit :: "('p, unit) st"
  txRollback :: "('p, unit) st"
  dbClose :: "('p, unit) st"

datatype printed = Printed string "fmt_arg list" | PrintedValue string "fmt_arg list" gval

record 'p run =
  pool :: 'p
  stdout :: "printed list"

definition on_pool :: "('p, 'a) st \<Rightarrow> ('p run, 'a) st" where
  "on_pool m s = (case m (pool s) of (r, p) \<Rightarrow> (r, s\<lparr>pool := p\<rparr>))"

definition print :: "string \<Rightarrow> fmt_arg list \<Rightarrow> ('p run, unit) st" where
  "print format args s = (Ok (), s\<lparr>stdout := stdout s @ [Printed format args]\<rparr>)"

definition print_value :: "string \<Rightarrow> fmt_arg list \<Rightarrow> gval \<Rightarrow> ('p run, unit) st" where
  "print_value format args v s = (Ok (), s\<lparr>stdout := stdout s @ [PrintedValue format args v]\<rparr>)"

text \<open>\<open>if err := m; err == nil \<close>\<dots>\<open> else \<close>\<dots>, and \<open>defer\<close>, whose own error is dropped.\<close>

definition catch_st :: "('s, 'a) st \<Rightarrow> ('a \<Rightarrow> ('s, 'b) st) \<Rightarrow> (go_error \<Rightarrow> ('s, 'b) st) \<Rightarrow> ('s, 'b) st" where
  "catch_st m f h s = (case m s of (Ok x, s') \<Rightarrow> f x s' | (Err e, s') \<Rightarrow> h e s' | (Panic, s') \<Rightarrow> (Panic, s'))"

definition deferred :: "('s, unit) st \<Rightarrow> ('s, 'a) st \<Rightarrow> ('s, 'a) st" where
  "deferred cleanup body s =
     (case body s of (r, s') \<Rightarrow> (case cleanup s' of (Panic, s'') \<Rightarrow> (Panic, s'') | (_, s'') \<Rightarrow> (r, s'')))"

subsection \<open>The actions\<close>

definition defaultQuery :: string where "defaultQuery = ''select 1 from dual''"

definition openDB :: "'p sql_api \<Rightarrow> string \<Rightarrow> ('p run, unit) st" where
  "openDB api connString = on_pool (sqlOpen api ''oceanbase'' connString)"

definition runScalar :: "'p sql_api \<Rightarrow> string \<Rightarrow> string \<Rightarrow> ('p run, gval) st" where
  "runScalar api connString query =
     bind_st (openDB api connString) (\<lambda>_. deferred (on_pool (dbClose api)) (on_pool (queryAny api query)))"

text \<open>\<open>runCheck\<close>, by its sections.\<close>

definition print_protocol :: "bool \<Rightarrow> u32 \<Rightarrow> ('p run, unit) st" where
  "print_protocol isOB20 connID =
     bind_st (print ''=== OceanBase Protocol Detection ==='' []) (\<lambda>_.
     bind_st (print (if isOB20 then ''Negotiated Protocol: OceanBase 2.0 (OB20)''
                     else ''Negotiated Protocol: Standard MySQL Protocol'') []) (\<lambda>_.
     bind_st (if 0 < connID then print ''Connection ID:       %d'' [AInt (uint connID)] else return_st ()) (\<lambda>_.
       print [] [])))"

definition banner_query :: string where
  "banner_query = ''select banner from v$version where rownum = 1''"

definition version_query :: string where
  "version_query = ''select version()''"

definition tenant_check :: "'p sql_api \<Rightarrow> ('p run, bool \<times> string \<times> string) st" where
  "tenant_check api =
     catch_st (on_pool (queryString api banner_query))
       (\<lambda>banner. return_st (True, ''Oracle'', banner))
       (\<lambda>_. catch_st (on_pool (queryString api version_query))
          (\<lambda>ver. return_st (False, ''MySQL'', ver))
          (\<lambda>_. return_st (False, ''Unknown'', ''Unknown'')))"

definition user_query :: "bool \<Rightarrow> string" where
  "user_query isOracle = (if \<not> isOracle then ''select user()'' else ''select user from dual'')"

definition user_check :: "'p sql_api \<Rightarrow> bool \<Rightarrow> ('p run, string) st" where
  "user_check api isOracle =
     catch_st (on_pool (queryString api (user_query isOracle)))
       return_st (\<lambda>_. return_st ''Unknown'')"

definition catalog_query :: "bool \<Rightarrow> string \<Rightarrow> string" where
  "catalog_query isOracle tbl =
     ''select count(*) from '' @ tbl @ (if isOracle then '' where rownum <= 1'' else '' limit 1'')"

definition catalog_tables :: "bool \<Rightarrow> string list" where
  "catalog_tables isOracle =
     (if isOracle then [''all_tables'', ''user_tables'', ''all_users''] else [''information_schema.tables'', ''mysql.user''])"

fun catalog_check :: "'p sql_api \<Rightarrow> bool \<Rightarrow> string list \<Rightarrow> ('p run, unit) st" where
  "catalog_check api isOracle [] = return_st ()"
| "catalog_check api isOracle (tbl # tables) =
     bind_st
       (catch_st (on_pool (queryInt api (catalog_query isOracle tbl)))
          (\<lambda>_. print ''Access to %s: SUCCESS'' [AStr tbl])
          (\<lambda>e. print ''Access to %s: FAILED (%v)'' [AStr tbl, AErr e]))
       (\<lambda>_. catalog_check api isOracle tables)"

definition tx_query :: "bool \<Rightarrow> string" where
  "tx_query isOracle = (if \<not> isOracle then ''select 1'' else ''select 1 from dual'')"

definition tx_check :: "'p sql_api \<Rightarrow> bool \<Rightarrow> ('p run, unit) st" where
  "tx_check api isOracle =
     catch_st (on_pool (dbBeginTx api))
       (\<lambda>_. catch_st (on_pool (txQueryInt api (tx_query isOracle)))
          (\<lambda>_. catch_st (on_pool (txCommit api))
             (\<lambda>_. print ''Transaction Smoke: SUCCESS'' [])
             (\<lambda>e. print ''Transaction Commit: FAILED (%v)'' [AErr e]))
          (\<lambda>e. bind_st (print ''Transaction Query: FAILED (%v)'' [AErr e]) (\<lambda>_.
               catch_st (on_pool (txRollback api)) return_st (\<lambda>_. return_st ()))))
       (\<lambda>e. print ''Transaction Begin: FAILED (%v)'' [AErr e])"

definition dialect_checks :: "'p sql_api \<Rightarrow> bool \<Rightarrow> string \<Rightarrow> string \<Rightarrow> ('p run, unit) st" where
  "dialect_checks api isOracle mode dbVersion =
     bind_st (user_check api isOracle) (\<lambda>currentUser.
     bind_st (print ''Tenant Mode:  %s'' [AStr mode]) (\<lambda>_.
     bind_st (print ''Current User: %s'' [AStr currentUser]) (\<lambda>_.
     bind_st (print ''DB Version:   %s'' [AStr dbVersion]) (\<lambda>_.
     bind_st (print [] []) (\<lambda>_.
     bind_st (print ''=== System Catalog / Dictionary Access Check ==='' []) (\<lambda>_.
     bind_st (catalog_check api isOracle (catalog_tables isOracle)) (\<lambda>_.
     bind_st (print [] []) (\<lambda>_.
     bind_st (print ''=== Transaction Support Check ==='' []) (\<lambda>_.
     bind_st (tx_check api isOracle) (\<lambda>_.
     bind_st (print [] []) (\<lambda>_.
       print ''All checks completed.'' [])))))))))))"

definition sql_checks :: "'p sql_api \<Rightarrow> ('p run, unit) st" where
  "sql_checks api =
     bind_st (print ''=== OceanBase SQL & Tenant Checks ==='' []) (\<lambda>_.
     bind_st (tenant_check api) (\<lambda>(isOracle, mode, dbVersion). dialect_checks api isOracle mode dbVersion))"

definition check_body :: "'p sql_api \<Rightarrow> ('p run, unit) st" where
  "check_body api =
     catch_st (on_pool (connRaw api))
       (\<lambda>driverConn.
          bind_st (case driverConn of
                     Some conn \<Rightarrow> print_protocol (IsOB20 conn) (Conn.ConnectionID conn)
                   | None \<Rightarrow> print_protocol False 0)
            (\<lambda>_. sql_checks api))
       (\<lambda>e. fail_st (Errorf ''failed to check raw connection: %w'' [AWrap e]))"

definition runCheck :: "'p sql_api \<Rightarrow> string \<Rightarrow> ('p run, unit) st" where
  "runCheck api connString =
     bind_st (openDB api connString) (\<lambda>_.
       deferred (on_pool (dbClose api))
         (catch_st (on_pool (dbConn api))
            (\<lambda>_. deferred (on_pool (connClose api)) (check_body api))
            (\<lambda>e. fail_st (Errorf ''failed to establish connection: %w'' [AWrap e]))))"

definition runTxTest :: "'p sql_api \<Rightarrow> string \<Rightarrow> ('p run, unit) st" where
  "runTxTest api connString =
     bind_st (openDB api connString) (\<lambda>_.
       deferred (on_pool (dbClose api))
         (bind_st (on_pool (dbBeginTx api)) (\<lambda>_.
            catch_st (on_pool (txQueryAny api defaultQuery))
              (\<lambda>v. bind_st (on_pool (txCommit api)) (\<lambda>_. print_value ''ok: tx %s => %v'' [AStr defaultQuery] v))
              (\<lambda>e. catch_st (on_pool (txRollback api)) (\<lambda>_. fail_st e) (\<lambda>_. fail_st e)))))"

definition no_experiment :: obping_flags where
  "no_experiment = \<lparr>fTrace = False, fCapAdd = [], fCapDrop = [], fCollation = [], fPreset = [], fOb20 = False,
     fOracleMode = False, fCompress = False, fCharset = [], fOb20Magic = [], fAttrs = [], fInitSQL = []\<rparr>"

definition probe_presets :: "string list" where
  "probe_presets = [''default'', ''oboracle'', ''obclient'', ''libobclient'', ''connector-c'', ''connector-j'']"

text \<open>The loop of \<open>probePresets\<close>; after the last preset the last error is returned.\<close>

fun probe_loop ::
  "'p sql_api \<Rightarrow> host_env \<Rightarrow> (string \<Rightarrow> string \<Rightarrow> string) \<Rightarrow> string \<Rightarrow> string list \<Rightarrow> go_error option \<Rightarrow> ('p run, unit) st" where
  "probe_loop api env with_query baseDSN [] lastErr =
     (case lastErr of None \<Rightarrow> return_st () | Some e \<Rightarrow> fail_st e)"
| "probe_loop api env with_query baseDSN (preset # presets) lastErr =
     (case applyExperimentParams env with_query baseDSN (no_experiment\<lparr>fPreset := preset\<rparr>) of
        Err e \<Rightarrow> fail_st e
      | Panic \<Rightarrow> (\<lambda>s. (Panic, s))
      | Ok dsn \<Rightarrow>
          catch_st (runScalar api dsn defaultQuery)
            (\<lambda>v. print_value ''ok: preset=%s select 1 from dual => %v'' [AStr preset] v)
            (\<lambda>e. probe_loop api env with_query baseDSN presets (Some e)))"

definition probePresets :: "'p sql_api \<Rightarrow> host_env \<Rightarrow> (string \<Rightarrow> string \<Rightarrow> string) \<Rightarrow> string \<Rightarrow> ('p run, unit) st" where
  "probePresets api env with_query baseDSN = probe_loop api env with_query baseDSN probe_presets None"

subsection \<open>The choice of an action\<close>

text \<open>
  The flags of \<open>main\<close> with their defaults; those that only end up in the DSN are grouped as
  \<open>obping_flags\<close> and \<open>extra_flags\<close>.  The timeout is in nanoseconds.
\<close>

record main_flags =
  mDsn :: string
  mUser :: string
  mPassword :: string
  mHost :: string
  mPort :: string
  mDatabase :: string
  mTimeout :: int
  mAddrs :: string
  mExperiment :: obping_flags
  mExtra :: extra_flags
  mProbe :: bool
  mQuery :: string
  mMaxRows :: int
  mTxTest :: bool
  mExecTest :: bool
  mExecTable :: string
  mParamTest :: bool
  mPoolTest :: bool
  mBulkTest :: bool
  mFullTest :: bool
  mCheck :: bool

definition default_flags :: main_flags where
  "default_flags =
     \<lparr>mDsn = [], mUser = [], mPassword = [], mHost = ''127.0.0.1'', mPort = ''2881'', mDatabase = [], mTimeout = 10 * 10 ^ 9,
      mAddrs = [], mExperiment = no_experiment,
      mExtra = \<lparr>xTls = False, xTlsCA = [], xTlsCert = [], xTlsKey = [], xMysqlMode = False, xTraceID = [], xSpanID = [], xPartID = []\<rparr>,
      mProbe = False, mQuery = defaultQuery, mMaxRows = 20, mTxTest = False, mExecTest = False, mExecTable = [],
      mParamTest = False, mPoolTest = False, mBulkTest = False, mFullTest = False, mCheck = False\<rparr>"

text \<open>
  What \<open>main\<close> does once the flags are parsed: leave with status 2 for want of a user, leave with an
  error, or run one of the actions on the connection string.
\<close>

datatype obping_action =
    MissingUser
  | ExitErr go_error
  | RunCheck string
  | ProbePresets string
  | RunTxTest string
  | RunExecTest string string
  | RunParamTest string string
  | RunPoolTest string
  | RunBulkTest string string
  | RunFullTest string
  | RunScalar string string
  | RunQuery string string int

definition main_dispatch :: "main_flags \<Rightarrow> string \<Rightarrow> obping_action" where
  "main_dispatch m connString =
     (if mCheck m then RunCheck connString
      else if mProbe m then ProbePresets connString
      else if mTxTest m then RunTxTest connString
      else if mExecTest m then RunExecTest connString (mExecTable m)
      else if mParamTest m then RunParamTest connString (mExecTable m)
      else if mPoolTest m then RunPoolTest connString
      else if mBulkTest m then RunBulkTest connString (mExecTable m)
      else if mFullTest m then RunFullTest connString
      else if mQuery m = defaultQuery then RunScalar connString (mQuery m)
      else RunQuery connString (mQuery m) (mMaxRows m))"

definition main_action ::
  "host_env \<Rightarrow> (built_url \<Rightarrow> string) \<Rightarrow> (int \<Rightarrow> string) \<Rightarrow> (string \<Rightarrow> string \<Rightarrow> string) \<Rightarrow> main_flags \<Rightarrow> obping_action option" where
  "main_action env url_String duration_String with_query m =
     (if mDsn m = [] \<and> mUser m = [] then Some MissingUser
      else
        case (if mDsn m = []
              then Ok (buildDSN url_String duration_String (mUser m) (mPassword m) (mHost m) (mPort m) (mDatabase m)
                     (mTimeout m) (mAddrs m) (mExperiment m))
              else applyExperimentParams env with_query (mDsn m) (mExperiment m)) of
          Ok connString \<Rightarrow> Some (main_dispatch m (apply_extra (mExtra m) connString))
        | Err e \<Rightarrow> Some (ExitErr e)
        | Panic \<Rightarrow> None)"

subsection \<open>A log of the calls\<close>

datatype sql_call =
    COpen string string
  | CConn
  | CRaw
  | CConnClose
  | CQuery string
  | CBegin
  | CTxQuery string
  | CCommit
  | CRollback
  | CClose

type_synonym call_log = "(sql_call \<times> bool) list"

definition log_call :: "sql_call \<Rightarrow> ('p, 'a) st \<Rightarrow> ('p \<times> call_log, 'a) st" where
  "log_call call m = (\<lambda>(p, log). case m p of (r, p') \<Rightarrow> (r, (p', log @ [(call, is_ok r)])))"

definition logged :: "'p sql_api \<Rightarrow> ('p \<times> call_log) sql_api" where
  "logged api =
     \<lparr>sqlOpen = (\<lambda>name dsn. log_call (COpen name dsn) (sqlOpen api name dsn)), dbConn = log_call CConn (dbConn api),
      connRaw = log_call CRaw (connRaw api), connClose = log_call CConnClose (connClose api),
      queryString = (\<lambda>q. log_call (CQuery q) (queryString api q)), queryInt = (\<lambda>q. log_call (CQuery q) (queryInt api q)),
      queryAny = (\<lambda>q. log_call (CQuery q) (queryAny api q)), dbBeginTx = log_call CBegin (dbBeginTx api),
      txQueryInt = (\<lambda>q. log_call (CTxQuery q) (txQueryInt api q)),
      txQueryAny = (\<lambda>q. log_call (CTxQuery q) (txQueryAny api q)), txCommit = log_call CCommit (txCommit api),
      txRollback = log_call CRollback (txRollback api), dbClose = log_call CClose (dbClose api)\<rparr>"

text \<open>A triple: what a program adds to the log, together with its outcome.\<close>

definition emits :: "(('p \<times> call_log) run, 'a) st \<Rightarrow> ('a res \<Rightarrow> call_log \<Rightarrow> bool) \<Rightarrow> bool" where
  "emits m P \<longleftrightarrow> (\<forall>s. \<exists>c. snd (pool (snd (m s))) = snd (pool s) @ c \<and> P (fst (m s)) c)"

lemma emits_weaken: "emits m P \<Longrightarrow> (\<And>r c. P r c \<Longrightarrow> Q r c) \<Longrightarrow> emits m Q"
  unfolding emits_def by blast

lemma emits_call: "emits (on_pool (log_call call m)) (\<lambda>r c. c = [(call, is_ok r)])"
  by (simp add: emits_def on_pool_def log_call_def split: prod.split)

lemma emits_pure [simp]:
  "emits (return_st x) (\<lambda>r c. r = Ok x \<and> c = [])" "emits (fail_st e) (\<lambda>r c. r = Err e \<and> c = [])"
  "emits (print f args) (\<lambda>r c. r = Ok () \<and> c = [])" "emits (print_value f args v) (\<lambda>r c. r = Ok () \<and> c = [])"
  by (simp_all add: emits_def print_def print_value_def)

lemma emits_catch:
  assumes "emits m P" and "\<And>x. emits (f x) (Q x)" and "\<And>e. emits (h e) (Q' e)"
  shows "emits (catch_st m f h) (\<lambda>r c. (\<exists>x a b. P (Ok x) a \<and> Q x r b \<and> c = a @ b) \<or>
    (\<exists>e a b. P (Err e) a \<and> Q' e r b \<and> c = a @ b) \<or> (r = Panic \<and> P Panic c))"
  (is "emits _ ?R") unfolding emits_def
proof
  fix s
  obtain r s' where m: "m s = (r, s')" by fastforce
  from assms(1) m obtain a where a: "snd (pool s') = snd (pool s) @ a" "P r a" unfolding emits_def by (metis fst_conv snd_conv)
  show "\<exists>c. snd (pool (snd (catch_st m f h s))) = snd (pool s) @ c \<and> ?R (fst (catch_st m f h s)) c"
  proof (cases r)
    case (Ok x)
    from assms(2) [of x] obtain b where b: "snd (pool (snd (f x s'))) = snd (pool s') @ b" "Q x (fst (f x s')) b"
      unfolding emits_def by blast
    with Ok m a show ?thesis by (intro exI [of _ "a @ b"]) (simp add: catch_st_def, blast)
  next
    case (Err e)
    from assms(3) [of e] obtain b where b: "snd (pool (snd (h e s'))) = snd (pool s') @ b" "Q' e (fst (h e s')) b"
      unfolding emits_def by blast
    with Err m a show ?thesis by (intro exI [of _ "a @ b"]) (simp add: catch_st_def, blast)
  next
    case Panic
    with m a show ?thesis by (intro exI [of _ a]) (simp add: catch_st_def)
  qed
qed

lemma emits_bind:
  assumes "emits m P" and "\<And>x. emits (f x) (Q x)"
  shows "emits (bind_st m f) (\<lambda>r c. (\<exists>x a b. P (Ok x) a \<and> Q x r b \<and> c = a @ b) \<or>
    (\<exists>e. r = Err e \<and> P (Err e) c) \<or> (r = Panic \<and> P Panic c))"
proof -
  have "bind_st m f = catch_st m f (\<lambda>e. fail_st e)"
    by (auto simp: bind_st_def catch_st_def fail_st_def split: prod.split res.split)
  moreover have "emits (catch_st m f (\<lambda>e. fail_st e)) (\<lambda>r c. (\<exists>x a b. P (Ok x) a \<and> Q x r b \<and> c = a @ b) \<or>
    (\<exists>e a b. P (Err e) a \<and> (r = Err e \<and> b = []) \<and> c = a @ b) \<or> (r = Panic \<and> P Panic c))"
    using assms by (intro emits_catch emits_pure)
  ultimately show ?thesis by (auto elim: emits_weaken)
qed

lemma emits_deferred:
  assumes "emits body P"
  shows "emits (deferred (on_pool (log_call call m)) body)
    (\<lambda>r c. \<exists>r' a ok. P r' a \<and> (r = r' \<or> r = Panic) \<and> c = a @ [(call, ok)])"
  unfolding emits_def
proof
  fix s
  obtain r s' where m: "body s = (r, s')" by fastforce
  from assms m obtain a where a: "snd (pool s') = snd (pool s) @ a" "P r a" unfolding emits_def by (metis fst_conv snd_conv)
  obtain r2 p2 where "m (fst (pool s')) = (r2, p2)" by fastforce
  with m a show "\<exists>c. snd (pool (snd (deferred (on_pool (log_call call m)) body s))) = snd (pool s) @ c \<and>
      (\<exists>r' a ok. P r' a \<and> (fst (deferred (on_pool (log_call call m)) body s) = r' \<or>
        fst (deferred (on_pool (log_call call m)) body s) = Panic) \<and> c = a @ [(call, ok)])"
    by (intro exI [of _ "a @ [(call, is_ok r2)]"])
      (auto simp: deferred_def on_pool_def log_call_def case_prod_unfold split: res.split)
qed

subsection \<open>Balance\<close>

definition calls_of :: "call_log \<Rightarrow> sql_call set" where
  "calls_of c = fst ` set c"

definition succeeded :: "(sql_call \<Rightarrow> bool) \<Rightarrow> call_log \<Rightarrow> nat" where
  "succeeded p c = length (filter (\<lambda>(call, ok). p call \<and> ok) c)"

definition made :: "(sql_call \<Rightarrow> bool) \<Rightarrow> call_log \<Rightarrow> nat" where
  "made p c = length (filter (\<lambda>(call, ok). p call) c)"

fun is_open :: "sql_call \<Rightarrow> bool" where
  "is_open (COpen _ _) = True"
| "is_open _ = False"

text \<open>Every database opened and every connection taken is closed; every transaction begun is ended once.\<close>

definition released :: "call_log \<Rightarrow> bool" where
  "released c \<longleftrightarrow> succeeded is_open c = made (\<lambda>k. k = CClose) c \<and>
     succeeded (\<lambda>k. k = CConn) c = made (\<lambda>k. k = CConnClose) c"

definition tx_ended :: "call_log \<Rightarrow> bool" where
  "tx_ended c \<longleftrightarrow> succeeded (\<lambda>k. k = CBegin) c = made (\<lambda>k. k = CCommit) c + made (\<lambda>k. k = CRollback) c"

lemma log_append [simp]:
  "calls_of (c @ d) = calls_of c \<union> calls_of d" "calls_of [] = {}" "calls_of (x # c) = insert (fst x) (calls_of c)"
  "succeeded p (c @ d) = succeeded p c + succeeded p d" "succeeded p [] = 0"
  "succeeded p (x # c) = (if p (fst x) \<and> snd x then 1 else 0) + succeeded p c"
  "made p (c @ d) = made p c + made p d" "made p [] = 0" "made p (x # c) = (if p (fst x) then 1 else 0) + made p c"
  by (auto simp: calls_of_def succeeded_def made_def case_prod_beta)

lemma released_append: "released c \<Longrightarrow> released d \<Longrightarrow> released (c @ d)"
  by (simp add: released_def)

lemma logged_calls:
  "emits (on_pool (sqlOpen (logged api) name dsn)) (\<lambda>r c. c = [(COpen name dsn, is_ok r)])"
  "emits (on_pool (dbConn (logged api))) (\<lambda>r c. c = [(CConn, is_ok r)])"
  "emits (on_pool (connRaw (logged api))) (\<lambda>r c. c = [(CRaw, is_ok r)])"
  "emits (on_pool (queryString (logged api) q)) (\<lambda>r c. c = [(CQuery q, is_ok r)])"
  "emits (on_pool (queryInt (logged api) q)) (\<lambda>r c. c = [(CQuery q, is_ok r)])"
  "emits (on_pool (queryAny (logged api) q)) (\<lambda>r c. c = [(CQuery q, is_ok r)])"
  "emits (on_pool (dbBeginTx (logged api))) (\<lambda>r c. c = [(CBegin, is_ok r)])"
  "emits (on_pool (txQueryInt (logged api) q)) (\<lambda>r c. c = [(CTxQuery q, is_ok r)])"
  "emits (on_pool (txQueryAny (logged api) q)) (\<lambda>r c. c = [(CTxQuery q, is_ok r)])"
  "emits (on_pool (txCommit (logged api))) (\<lambda>r c. c = [(CCommit, is_ok r)])"
  "emits (on_pool (txRollback (logged api))) (\<lambda>r c. c = [(CRollback, is_ok r)])"
  by (simp_all add: logged_def emits_call)

lemma emits_deferred_close:
  "emits body P \<Longrightarrow> emits (deferred (on_pool (dbClose (logged api))) body)
    (\<lambda>r c. \<exists>r' a ok. P r' a \<and> (r = r' \<or> r = Panic) \<and> c = a @ [(CClose, ok)])"
  "emits body P \<Longrightarrow> emits (deferred (on_pool (connClose (logged api))) body)
    (\<lambda>r c. \<exists>r' a ok. P r' a \<and> (r = r' \<or> r = Panic) \<and> c = a @ [(CConnClose, ok)])"
  unfolding logged_def sql_api.simps by (rule emits_deferred, assumption)+

lemmas emit_rules = logged_calls emits_pure emits_deferred_close emits_catch emits_bind

lemma emits_runScalar:
  "emits (runScalar (logged api) dsn q) (\<lambda>r c. released c \<and> tx_ended c \<and> calls_of c \<subseteq> {COpen ''oceanbase'' dsn, CQuery q, CClose})"
  unfolding runScalar_def openDB_def by (rule emits_weaken, (rule emit_rules)+) (auto simp: released_def tx_ended_def)

lemma emits_runTxTest:
  "emits (runTxTest (logged api) dsn) (\<lambda>r c. released c \<and> (r \<noteq> Panic \<longrightarrow> tx_ended c))"
  unfolding runTxTest_def openDB_def by (rule emits_weaken, (rule emit_rules)+) (auto simp: released_def tx_ended_def)

lemma emits_tx_check:
  "emits (tx_check (logged api) isOracle) (\<lambda>r c. (r = Ok () \<and> tx_ended c \<or> r = Panic) \<and>
     calls_of c \<subseteq> {CBegin, CTxQuery (tx_query isOracle), CCommit, CRollback})"
  unfolding tx_check_def by (rule emits_weaken, (rule emit_rules)+) (auto simp: tx_ended_def)

lemma emits_tenant_check:
  "emits (tenant_check (logged api)) (\<lambda>r c.
     (\<exists>v. r = Ok (True, v) \<and> c = [(CQuery banner_query, True)]) \<or>
     (\<exists>v ok. (r = Ok (False, v) \<or> r = Panic) \<and>
        c = [(CQuery banner_query, False), (CQuery version_query, ok)]) \<or>
     r = Panic \<and> c = [(CQuery banner_query, False)])"
  unfolding tenant_check_def by (rule emits_weaken, (rule emit_rules)+) auto

lemma emits_user_check:
  "emits (user_check (logged api) isOracle) (\<lambda>r c. (\<forall>e. r \<noteq> Err e) \<and>
     (\<exists>ok. c = [(CQuery (user_query isOracle), ok)]))"
  unfolding user_check_def by (rule emits_weaken, (rule emit_rules)+) auto

lemma emits_catalog_check:
  "emits (catalog_check (logged api) isOracle tables) (\<lambda>r c. (\<forall>e. r \<noteq> Err e) \<and>
     calls_of c \<subseteq> CQuery ` catalog_query isOracle ` set tables \<and>
     (r \<noteq> Panic \<longrightarrow> CQuery ` catalog_query isOracle ` set tables \<subseteq> calls_of c))"
proof (induction tables)
  case Nil
  show ?case unfolding catalog_check.simps by (rule emits_weaken, rule emit_rules) auto
next
  case (Cons tbl tables)
  show ?case
    unfolding catalog_check.simps by (rule emits_weaken, (rule Cons emit_rules)+) (auto simp: image_iff)
qed

lemma emits_print_protocol: "emits (print_protocol isOB20 connID) (\<lambda>r c. r = Ok () \<and> c = [])"
proof -
  have "emits (if b then print f args else return_st ()) (\<lambda>r c. r = Ok () \<and> c = [])" for b f args by simp
  then show ?thesis unfolding print_protocol_def by - (rule emits_weaken, (rule emit_rules | assumption)+, auto)
qed

text \<open>The queries of a check that runs to its end, outside transactions and inside.\<close>

definition dialect_queries :: "bool \<Rightarrow> string set" where
  "dialect_queries isOracle = insert (user_query isOracle) (catalog_query isOracle ` set (catalog_tables isOracle))"

definition check_queries :: "bool \<Rightarrow> string set" where
  "check_queries isOracle = {banner_query} \<union> (if isOracle then {} else {version_query}) \<union> dialect_queries isOracle"

text \<open>The log of the SQL checks in the dialect that the first query detects.\<close>

definition checked :: "unit res \<Rightarrow> call_log \<Rightarrow> bool" where
  "checked r c \<longleftrightarrow>
     (let isOracle = (CQuery banner_query, True) \<in> set c
      in (r = Ok () \<or> r = Panic) \<and>
         calls_of c \<subseteq> CQuery ` check_queries isOracle \<union> {CBegin, CTxQuery (tx_query isOracle), CCommit, CRollback} \<and>
         (r \<noteq> Panic \<longrightarrow> tx_ended c \<and> CQuery ` check_queries isOracle \<subseteq> calls_of c))"

lemma other_queries: "user_query isOracle \<noteq> banner_query" "catalog_query isOracle tbl \<noteq> banner_query" "version_query \<noteq> banner_query"
  by (simp_all add: user_query_def catalog_query_def banner_query_def version_query_def)

lemma no_calls: "(\<And>k. k \<in> calls_of c \<Longrightarrow> \<not> p k) \<Longrightarrow> succeeded p c = 0" "(\<And>k. k \<in> calls_of c \<Longrightarrow> \<not> p k) \<Longrightarrow> made p c = 0"
  by (force simp: succeeded_def made_def calls_of_def filter_empty_conv)+

lemma no_tx_calls:
  assumes "calls_of c \<subseteq> range CQuery"
  shows "tx_ended (c @ d) = tx_ended d" "tx_ended c"
proof -
  have "k \<noteq> CBegin \<and> k \<noteq> CCommit \<and> k \<noteq> CRollback" if "k \<in> calls_of c" for k using assms that by auto
  then show "tx_ended (c @ d) = tx_ended d" "tx_ended c" by (simp_all add: tx_ended_def no_calls)
qed

lemma tx_ended_query: "tx_ended ((CQuery q, ok) # c) = tx_ended c"
  by (simp add: tx_ended_def)

definition dialect_log :: "bool \<Rightarrow> unit res \<Rightarrow> call_log \<Rightarrow> bool" where
  "dialect_log isOracle r c \<longleftrightarrow>
     (r = Ok () \<or> r = Panic) \<and>
     calls_of c \<subseteq> CQuery ` dialect_queries isOracle \<union> {CBegin, CTxQuery (tx_query isOracle), CCommit, CRollback} \<and>
     (r \<noteq> Panic \<longrightarrow> tx_ended c \<and> CQuery ` dialect_queries isOracle \<subseteq> calls_of c)"

lemma emits_dialect_checks: "emits (dialect_checks (logged api) isOracle mode ver) (dialect_log isOracle)"
  unfolding dialect_checks_def dialect_log_def
proof (rule emits_weaken, (rule emits_user_check emits_catalog_check emits_tx_check emit_rules)+,
    elim disjE exE conjE; clarsimp simp: dialect_queries_def)
  fix ok c d
  assume c: "calls_of c = CQuery ` catalog_query isOracle ` set (catalog_tables isOracle)"
    and d: "calls_of d \<subseteq> {CBegin, CTxQuery (tx_query isOracle), CCommit, CRollback}" and "tx_ended d"
  moreover have "tx_ended ((CQuery (user_query isOracle), ok) # c @ d) = tx_ended d"
    unfolding tx_ended_query using c by (intro no_tx_calls) auto
  ultimately show "CQuery ` catalog_query isOracle ` set (catalog_tables isOracle) \<subseteq>
      insert CBegin (insert (CTxQuery (tx_query isOracle)) (insert CCommit (insert CRollback
        (insert (CQuery (user_query isOracle)) (CQuery ` catalog_query isOracle ` set (catalog_tables isOracle)))))) \<and>
    calls_of d \<subseteq> insert CBegin (insert (CTxQuery (tx_query isOracle)) (insert CCommit (insert CRollback
        (insert (CQuery (user_query isOracle)) (CQuery ` catalog_query isOracle ` set (catalog_tables isOracle)))))) \<and>
    tx_ended ((CQuery (user_query isOracle), ok) # c @ d) \<and>
    CQuery ` catalog_query isOracle ` set (catalog_tables isOracle) \<subseteq>
      insert (CQuery (user_query isOracle)) (CQuery ` catalog_query isOracle ` set (catalog_tables isOracle) \<union> calls_of d)"
    by blast
qed blast+

lemma banner_fresh:
  assumes "dialect_log isOracle r c"
  shows "(CQuery banner_query, ok) \<notin> set c"
proof
  assume "(CQuery banner_query, ok) \<in> set c"
  then have "CQuery banner_query \<in> calls_of c" by (force simp: calls_of_def)
  with assms have "banner_query \<in> dialect_queries isOracle" unfolding dialect_log_def by blast
  then show False using other_queries(1,2) unfolding dialect_queries_def by (metis imageE insertE)
qed

lemma checked_oracle: "dialect_log True r c \<Longrightarrow> checked r ((CQuery banner_query, True) # c)"
  unfolding checked_def Let_def dialect_log_def check_queries_def by (simp add: tx_ended_query) blast

lemma checked_mysql:
  assumes "dialect_log False r c"
  shows "checked r ((CQuery banner_query, False) # (CQuery version_query, ok) # c)" (is "checked r ?c")
proof -
  have o: "((CQuery banner_query, True) \<in> set ?c) = False" using banner_fresh [OF assms] other_queries(3) by simp
  have "calls_of ?c = CQuery ` {banner_query, version_query} \<union> calls_of c" by auto
  moreover have "tx_ended ?c = tx_ended c" by (simp add: tx_ended_query)
  moreover have "CQuery ` check_queries False = CQuery ` {banner_query, version_query} \<union> CQuery ` dialect_queries False"
    by (auto simp: check_queries_def)
  ultimately show ?thesis using assms unfolding checked_def Let_def dialect_log_def o by auto
qed

lemma checked_panic:
  "checked Panic [(CQuery banner_query, False), (CQuery version_query, ok)]" "checked Panic [(CQuery banner_query, False)]"
  using other_queries(3) by (simp_all add: checked_def Let_def check_queries_def)

lemma emits_sql_checks: "emits (sql_checks (logged api)) checked"
  unfolding sql_checks_def case_prod_unfold
  by (rule emits_weaken, (rule emits_tenant_check emits_dialect_checks emit_rules)+)
    (elim disjE exE conjE; clarsimp simp: checked_oracle checked_mysql checked_panic)

lemma emits_check_body:
  "emits (check_body (logged api)) (\<lambda>r c. r \<noteq> Ok () \<and> c = [(CRaw, False)] \<or> (\<exists>d. checked r d \<and> c = (CRaw, True) # d))"
proof -
  have protocol: "emits (case dc of None \<Rightarrow> print_protocol False 0 | Some conn \<Rightarrow> print_protocol (IsOB20 conn) (Conn.ConnectionID conn))
      (\<lambda>r c. r = Ok () \<and> c = [])" for dc :: "conn option"
    by (cases dc) (simp_all add: emits_print_protocol)
  show ?thesis
    unfolding check_body_def
    by (rule emits_weaken, (rule protocol emits_sql_checks emit_rules)+) (elim disjE exE conjE; clarsimp)
qed

lemma emits_runCheck:
  "emits (runCheck (logged api) dsn) (\<lambda>r c.
     r \<noteq> Ok () \<and> c = [(COpen ''oceanbase'' dsn, False)] \<or>
     (\<exists>x. r \<noteq> Ok () \<and> c = [(COpen ''oceanbase'' dsn, True), (CConn, False), (CClose, x)]) \<or>
     (\<exists>x y. r \<noteq> Ok () \<and> c = [(COpen ''oceanbase'' dsn, True), (CConn, True), (CRaw, False), (CConnClose, x), (CClose, y)]) \<or>
     (\<exists>r' d x y. checked r' d \<and> (r = r' \<or> r = Panic) \<and>
        c = [(COpen ''oceanbase'' dsn, True), (CConn, True), (CRaw, True)] @ d @ [(CConnClose, x), (CClose, y)]))"
  unfolding runCheck_def openDB_def
  by (rule emits_weaken, (rule emits_check_body emit_rules)+) (elim disjE exE conjE; force)

lemma emits_probe_loop:
  "emits (probe_loop (logged api) env with_query dsn presets lastErr) (\<lambda>r c. released c \<and> tx_ended c)"
proof (induction presets arbitrary: lastErr)
  case Nil
  have "emits (case lastErr of None \<Rightarrow> return_st () | Some e \<Rightarrow> fail_st e) (\<lambda>r c. c = [])"
    by (cases lastErr) (auto intro: emits_weaken [OF emits_pure(1)] emits_weaken [OF emits_pure(2)])
  then show ?case unfolding probe_loop.simps by (rule emits_weaken) (auto simp: released_def tx_ended_def)
next
  case (Cons preset presets)
  let ?dsn = "applyExperimentParams env with_query dsn (no_experiment\<lparr>fPreset := preset\<rparr>)"
  have "emits (catch_st (runScalar (logged api) d defaultQuery) (\<lambda>v. print_value f args v)
      (\<lambda>e. probe_loop (logged api) env with_query dsn presets (Some e))) (\<lambda>r c. released c \<and> tx_ended c)" for d f args
    by (rule emits_weaken, (rule Cons emits_runScalar emit_rules)+) (auto simp: released_def tx_ended_def)
  moreover have "emits (fail_st e) (\<lambda>r c. released c \<and> tx_ended c)" for e
    by (rule emits_weaken [OF emits_pure(2)]) (auto simp: released_def tx_ended_def)
  moreover have "emits (\<lambda>s. (Panic, s)) (\<lambda>r c. released c \<and> tx_ended c)"
    by (auto simp: emits_def released_def tx_ended_def)
  ultimately show ?case by (auto split: res.split)
qed

lemma emitsD:
  assumes "emits m P" and "m \<lparr>pool = (p, []), stdout = out\<rparr> = (r, s)"
  shows "P r (snd (pool s))"
proof -
  have "\<exists>c. snd (pool s) = [] @ c \<and> P r c"
    using assms(1) [unfolded emits_def, THEN spec, of "\<lparr>pool = (p, []), stdout = out\<rparr>"] unfolding assms(2) by simp
  then show ?thesis by simp
qed

text \<open>The calls of the SQL checks neither open nor close anything.\<close>

lemma checked_calls:
  assumes "checked r c" and "k \<in> calls_of c"
  shows "k \<in> range CQuery \<union> range CTxQuery \<union> {CBegin, CCommit, CRollback}"
  using assms unfolding checked_def Let_def by blast

lemma checked_released:
  assumes "checked r c"
  shows "released c"
proof -
  have "\<not> is_open k \<and> k \<noteq> CClose \<and> k \<noteq> CConn \<and> k \<noteq> CConnClose" if "k \<in> calls_of c" for k
    using checked_calls [OF assms that] by auto
  then show ?thesis by (simp add: released_def no_calls)
qed

lemma checked_wrapped:
  assumes "checked r' d" and "r = r' \<or> r = Panic"
    and c: "c = [(COpen n dsn, True), (CConn, True), (CRaw, True)] @ d @ [(CConnClose, x), (CClose, y)]"
  shows "released c" and "r \<noteq> Panic \<Longrightarrow> tx_ended c \<and> r = Ok ()"
    and "r = Ok () \<Longrightarrow> {q. CQuery q \<in> calls_of c} = check_queries ((CQuery banner_query, True) \<in> set c)"
    and "{q. CTxQuery q \<in> calls_of c} \<subseteq> {tx_query ((CQuery banner_query, True) \<in> set c)}"
proof -
  have banner: "((CQuery banner_query, True) \<in> set c) = ((CQuery banner_query, True) \<in> set d)" by (auto simp: c)
  have q: "CQuery q \<in> calls_of c \<longleftrightarrow> CQuery q \<in> calls_of d" "CTxQuery q \<in> calls_of c \<longleftrightarrow> CTxQuery q \<in> calls_of d" for q
    by (auto simp: c)
  show "released c" using checked_released [OF assms(1)] by (simp add: c released_def)
  have "tx_ended c = tx_ended d" by (simp add: c tx_ended_def)
  then show "tx_ended c \<and> r = Ok ()" if "r \<noteq> Panic" using assms(1,2) that unfolding checked_def Let_def by auto
  show "{q. CQuery q \<in> calls_of c} = check_queries ((CQuery banner_query, True) \<in> set c)" if "r = Ok ()"
    using assms(1,2) that unfolding banner q checked_def Let_def by (cases "(CQuery banner_query, True) \<in> set d") auto
  show "{q. CTxQuery q \<in> calls_of c} \<subseteq> {tx_query ((CQuery banner_query, True) \<in> set c)}"
    using assms(1) unfolding banner q checked_def Let_def by (cases "(CQuery banner_query, True) \<in> set d") auto
qed

text \<open>
  C39: what the actions \<open>runCheck\<close>, \<open>runTxTest\<close>, \<open>runScalar\<close> and \<open>probePresets\<close> of \<open>obping\<close> leave behind,
  whatever \<open>database/sql\<close> answers.  \<open>runCheck\<close> opens the database first and closes it last; every
  connection it takes is given back, and every transaction it begins is ended by exactly one commit
  or rollback.  It succeeds exactly if the driver's connection was reached: a
  failure of any of the SQL checks is reported and not returned.  The queries of a check that ends
  are those of one dialect, Oracle's if and only if the banner query succeeded.  \<open>runTxTest\<close>,
  \<open>runScalar\<close> and \<open>probePresets\<close> close every database they open, and \<open>runTxTest\<close> ends its transaction
  by exactly one commit or rollback.  (The actions \<open>runQuery\<close>, \<open>runExecTest\<close>, \<open>runParamTest\<close>,
  \<open>runPoolTest\<close>, \<open>runBulkTest\<close> and \<open>runFullTest\<close> are not modelled.)
\<close>

theorem obping_releases:
  "(let (r, s) = runCheck (logged api) dsn \<lparr>pool = (p, []), stdout = []\<rparr>;
        log = snd (pool s); isOracle = ((CQuery banner_query, True) \<in> set log)
    in released log \<and> log \<noteq> [] \<and> fst (hd log) = COpen ''oceanbase'' dsn \<and> (snd (hd log) \<longrightarrow> fst (last log) = CClose) \<and>
       (r \<noteq> Panic \<longrightarrow> tx_ended log \<and> (r = Ok () \<longleftrightarrow> (CRaw, True) \<in> set log)) \<and>
       (r = Ok () \<longrightarrow> {q. CQuery q \<in> calls_of log} = check_queries isOracle) \<and>
       {q. CTxQuery q \<in> calls_of log} \<subseteq> {tx_query isOracle}) \<and>
   (let (r, s) = runTxTest (logged api) dsn \<lparr>pool = (p, []), stdout = []\<rparr>; log = snd (pool s)
    in released log \<and> (r \<noteq> Panic \<longrightarrow> tx_ended log)) \<and>
   (let (r, s) = runScalar (logged api) dsn query \<lparr>pool = (p, []), stdout = []\<rparr>
    in released (snd (pool s))) \<and>
   (let (r, s) = probePresets (logged api) env with_query dsn \<lparr>pool = (p, []), stdout = []\<rparr>
    in released (snd (pool s)))"
proof -
  obtain r s where check: "runCheck (logged api) dsn \<lparr>pool = (p, []), stdout = []\<rparr> = (r, s)" by fastforce
  from emitsD [OF emits_runCheck this] consider
      (early) "r \<noteq> Ok ()" "snd (pool s) = [(COpen ''oceanbase'' dsn, False)] \<or>
        (\<exists>x. snd (pool s) = [(COpen ''oceanbase'' dsn, True), (CConn, False), (CClose, x)]) \<or>
        (\<exists>x y. snd (pool s) = [(COpen ''oceanbase'' dsn, True), (CConn, True), (CRaw, False), (CConnClose, x), (CClose, y)])"
    | (done') r' d x y where "checked r' d" "r = r' \<or> r = Panic"
        "snd (pool s) = [(COpen ''oceanbase'' dsn, True), (CConn, True), (CRaw, True)] @ d @ [(CConnClose, x), (CClose, y)]"
    by blast
  note run = this
  obtain r1 s1 where tx: "runTxTest (logged api) dsn \<lparr>pool = (p, []), stdout = []\<rparr> = (r1, s1)" by fastforce
  obtain r3 s3 where scalar: "runScalar (logged api) dsn query \<lparr>pool = (p, []), stdout = []\<rparr> = (r3, s3)" by fastforce
  obtain r2 s2 where probe: "probePresets (logged api) env with_query dsn \<lparr>pool = (p, []), stdout = []\<rparr> = (r2, s2)" by fastforce
  have "let log = snd (pool s); isOracle = ((CQuery banner_query, True) \<in> set log)
    in released log \<and> log \<noteq> [] \<and> fst (hd log) = COpen ''oceanbase'' dsn \<and> (snd (hd log) \<longrightarrow> fst (last log) = CClose) \<and>
       (r \<noteq> Panic \<longrightarrow> tx_ended log \<and> (r = Ok () \<longleftrightarrow> (CRaw, True) \<in> set log)) \<and>
       (r = Ok () \<longrightarrow> {q. CQuery q \<in> calls_of log} = check_queries isOracle) \<and>
       {q. CTxQuery q \<in> calls_of log} \<subseteq> {tx_query isOracle}"
    using run
  proof cases
    case early
    then show ?thesis by (auto simp: Let_def released_def tx_ended_def)
  next
    case done'
    note wrapped = checked_wrapped [OF done']
    have "snd (pool s) \<noteq> []" "hd (snd (pool s)) = (COpen ''oceanbase'' dsn, True)" "fst (last (snd (pool s))) = CClose"
      "(CRaw, True) \<in> set (snd (pool s))" by (simp_all add: done'(3))
    then show ?thesis unfolding Let_def using wrapped by (intro conjI impI) (simp_all only: fst_conv snd_conv, blast+)
  qed
  moreover have "released (snd (pool s2))"
    using emitsD [OF emits_probe_loop probe [unfolded probePresets_def]] by simp
  ultimately show ?thesis
    using emitsD [OF emits_runTxTest tx] emitsD [OF emits_runScalar scalar] by (simp add: check tx scalar probe)
qed

text \<open>A MySQL tenant: everything succeeds except the banner query and the access to one table.\<close>

definition mysql_api :: "unit sql_api" where
  "mysql_api =
     \<lparr>sqlOpen = (\<lambda>_ _. return_st ()), dbConn = return_st (), connRaw = return_st None, connClose = return_st (),
      queryString = (\<lambda>q. if q = banner_query then fail_st EOF else return_st ''5.7''),
      queryInt = (\<lambda>q. if q = catalog_query False ''mysql.user'' then fail_st EOF else return_st 1),
      queryAny = (\<lambda>_. return_st (VInt 1)), dbBeginTx = return_st (), txQueryInt = (\<lambda>_. return_st 1),
      txQueryAny = (\<lambda>_. return_st (VInt 1)), txCommit = return_st (), txRollback = return_st (), dbClose = return_st ()\<rparr>"

lemma mysql_run:
  "fst (runCheck (logged mysql_api) ''dsn'' \<lparr>pool = ((), []), stdout = []\<rparr>) = Ok ()"
  "(CQuery banner_query, True) \<notin> set (snd (pool (snd (runCheck (logged mysql_api) ''dsn'' \<lparr>pool = ((), []), stdout = []\<rparr>))))"
  by code_simp+

theorem obping_releases_witness:
  "fst (runCheck (logged mysql_api) ''dsn'' \<lparr>pool = ((), []), stdout = []\<rparr>) = Ok () \<and>
   (let log = snd (pool (snd (runCheck (logged mysql_api) ''dsn'' \<lparr>pool = ((), []), stdout = []\<rparr>)))
    in released log \<and> tx_ended log \<and> {q. CQuery q \<in> calls_of log} = check_queries False)"
  using obping_releases [of mysql_api "''dsn''" "()"] mysql_run by (simp add: Let_def case_prod_unfold)

end
