(* ===== verification/Response.thy ===== *)
theory Response
  imports Connect
begin

text \<open>
  The handshake response as a server reads it.  The reader follows the layout of the protocol's
  documentation (\<open>HandshakeResponse41\<close>): the capabilities decide which fields come, and the client's
  own capabilities, which it announces in the first four bytes, have to agree with the fields it
  writes.  The last part composes the response with the check of the token, so that it states when
  a server that stores the double hash of the password lets the client in.
\<close>

subsection \<open>The server's reader\<close>

record response =
  rCaps :: u32
  rMaxPacket :: u32
  rCollation :: byte
  rProxyCaps :: u32
  rUser :: string
  rAuth :: bytes
  rDatabase :: "string option"
  rPlugin :: "string option"
  rAttrs :: "(string \<times> string) list option"

text \<open>A field that is there only if its capability is: the reader gives the field and the bytes behind it.\<close>

definition read_if :: "bool \<Rightarrow> (bytes \<Rightarrow> ('a \<times> bytes) res) \<Rightarrow> bytes \<Rightarrow> ('a option \<times> bytes) res" where
  "read_if present read data =
     (if present then bind_res (read data) (\<lambda>(x, rest). Ok (Some x, rest)) else Ok (None, data))"

definition read_nul :: "bytes \<Rightarrow> (string \<times> bytes) res" where
  "read_nul data = bind_res (readNullTerminated data) (\<lambda>(s, used). Ok (s, drop used data))"

definition read_lenenc :: "bytes \<Rightarrow> (bytes \<times> bytes) res" where
  "read_lenenc data =
     bind_res (ReadLengthEncodedString data) (\<lambda>(s, used, isNull).
       if isNull then Err (OtherError ''NULL string'') else Ok (s, drop used data))"

definition read_short :: "bytes \<Rightarrow> (bytes \<times> bytes) res" where
  "read_short data =
     (if data = [] \<or> length data < 1 + unat (hd data) then Err UnexpectedEOF
      else Ok (take (unat (hd data)) (tl data), drop (1 + unat (hd data)) data))"

definition read_auth :: "u32 \<Rightarrow> bytes \<Rightarrow> (bytes \<times> bytes) res" where
  "read_auth caps data =
     (if caps AND ClientPluginAuthLenencClientData \<noteq> 0 then read_lenenc data
      else if caps AND ClientSecureConnection \<noteq> 0 then read_short data
      else bind_res (read_nul data) (\<lambda>(s, rest). Ok (bytes_of s, rest)))"

text \<open>The attributes are read from a block of known length; every attribute takes at least a byte.\<close>

fun read_attrs :: "nat \<Rightarrow> bytes \<Rightarrow> (string \<times> string) list res" where
  "read_attrs 0 data = (if data = [] then Ok [] else Err UnexpectedEOF)"
| "read_attrs (Suc n) data =
     (if data = [] then Ok []
      else
        bind_res (read_lenenc data) (\<lambda>(k, data).
        bind_res (read_lenenc data) (\<lambda>(v, data).
        bind_res (read_attrs n data) (\<lambda>attrs. Ok ((string_of k, string_of v) # attrs)))))"

definition read_attr_block :: "bytes \<Rightarrow> ((string \<times> string) list \<times> bytes) res" where
  "read_attr_block data =
     bind_res (read_lenenc data) (\<lambda>(block, rest).
     bind_res (read_attrs (length block) block) (\<lambda>attrs. Ok (attrs, rest)))"

definition read_response :: "bytes \<Rightarrow> (response \<times> bytes) res" where
  "read_response packet =
     (if length packet < 32 then Err UnexpectedEOF
      else
        let caps = le_word (take 4 packet)
        in bind_res (read_nul (drop 32 packet)) (\<lambda>(user, data).
           bind_res (read_auth caps data) (\<lambda>(auth, data).
           bind_res (read_if (caps AND ClientConnectWithDB \<noteq> 0) read_nul data) (\<lambda>(db, data).
           bind_res (read_if (caps AND ClientPluginAuth \<noteq> 0) read_nul data) (\<lambda>(plugin, data).
           bind_res (read_if (caps AND ClientConnectAttrs \<noteq> 0) read_attr_block data) (\<lambda>(attrs, data).
             Ok (\<lparr>rCaps = caps, rMaxPacket = le_word (subslice 4 8 packet), rCollation = packet ! 8,
                  rProxyCaps = le_word (subslice 28 32 packet), rUser = user, rAuth = auth, rDatabase = db,
                  rPlugin = plugin, rAttrs = attrs\<rparr>, data)))))))"

subsection \<open>The fields\<close>

definition no_nul :: "string \<Rightarrow> bool" where
  "no_nul s \<longleftrightarrow> CHR 0x00 \<notin> set s"

definition nul_string :: "string \<Rightarrow> bytes" where
  "nul_string s = bytes_of s @ [0]"

lemma readNullTerminated_string:
  "no_nul s \<Longrightarrow> readNullTerminated (bytes_of s @ 0 # rest) = Ok (s, length s + 1)"
proof (induction s)
  case (Cons c s)
  have "c \<noteq> CHR 0x00" using Cons.prems by (auto simp: no_nul_def)
  moreover have "char_of (0 :: nat) = CHR 0x00" by (simp add: char_of_def)
  ultimately have "(of_char c :: nat) \<noteq> 0" by (metis char_of_char)
  moreover have "(of_char c :: nat) < 256" by simp
  ultimately have "(word_of_nat (of_char c) :: byte) \<noteq> 0"
    by (simp add: word_unat_eq_iff unat_of_nat take_bit_eq_mod)
  moreover have "string_of [word_of_nat (of_char c)] = [c]"
    using string_of_bytes_of [of "[c]"] by (simp add: bytes_of_def)
  ultimately show ?case using Cons by (simp add: no_nul_def bytes_of_def)
qed (simp add: bytes_of_def)

lemma read_nul_string: "no_nul s \<Longrightarrow> read_nul (nul_string s @ rest) = Ok (s, rest)"
  by (simp add: read_nul_def nul_string_def readNullTerminated_string)

lemma read_lenenc_Put: "go_len s \<Longrightarrow> read_lenenc (PutLengthEncodedString [] s @ rest) = Ok (s, rest)"
  by (simp add: read_lenenc_def ReadLengthEncodedString_Put)

lemma ucast_word_of_nat: "ucast (word_of_nat n :: u64) = (word_of_nat n :: byte)"
  by (rule bit_word_eqI) (auto simp: bit_simps)

lemma short_Put:
  "length s < 251 \<Longrightarrow> PutLengthEncodedString [] s = word_of_nat (length s) # s"
  by (simp add: PutLengthEncodedString_def PutLengthEncodedInt_def word_less_nat_alt unat_of_nat take_bit_eq_mod
      ucast_word_of_nat)

lemma PutLengthEncodedString_nonempty: "PutLengthEncodedString [] s \<noteq> []"
  using length_PutLengthEncodedInt [of "word_of_nat (length s)"] by (auto simp: PutLengthEncodedString_def split: if_splits)

lemma read_lenenc_short:
  assumes "length s < 251"
  shows "read_lenenc (word_of_nat (length s) # s @ rest) = Ok (s, rest)"
proof -
  have "go_len s" using assms by (simp add: go_len_def)
  then show ?thesis using read_lenenc_Put [of s rest] short_Put [OF assms] by simp
qed

lemma read_auth_Put:
  assumes "length s < 251" and "caps AND ClientPluginAuthLenencClientData \<noteq> 0 \<or> caps AND ClientSecureConnection \<noteq> 0"
  shows "read_auth caps (PutLengthEncodedString [] s @ rest) = Ok (s, rest)"
proof -
  have "unat (word_of_nat (length s) :: byte) = length s" using assms(1) by (intro unat_of_nat_small) simp
  then show ?thesis
    using assms by (auto simp: read_auth_def read_lenenc_short read_short_def short_Put)
qed

lemma read_if_field: "(present \<Longrightarrow> read (field @ rest) = Ok (x, rest)) \<Longrightarrow>
    read_if present read ((if present then field else []) @ rest) = Ok (if present then Some x else None, rest)"
  by (simp add: read_if_def)

subsection \<open>The attributes\<close>

definition attr_bytes :: "string \<times> string \<Rightarrow> bytes" where
  "attr_bytes = (\<lambda>(k, v). word_of_nat (length k) # bytes_of k @ PutLengthEncodedString [] (bytes_of v))"

lemma attr_payload_eq: "attr_payload attrs = concat (map attr_bytes attrs)"
proof -
  have "fold (\<lambda>(k, v) out. PutLengthEncodedString (out @ [word_of_nat (length k)] @ bytes_of k) (bytes_of v)) attrs out =
      out @ concat (map attr_bytes attrs)" for out
    by (induction attrs arbitrary: out) (auto simp: attr_bytes_def PutLengthEncodedString_append [of "_ @ _"])
  then show ?thesis by (simp add: attr_payload_def)
qed

definition attr_fits :: "string \<times> string \<Rightarrow> bool" where
  "attr_fits = (\<lambda>(k, v). length k < 251 \<and> go_len v)"

lemma read_attrs_bytes:
  assumes "list_all attr_fits attrs" and "length attrs \<le> n"
  shows "read_attrs n (concat (map attr_bytes attrs)) = Ok attrs"
  using assms
proof (induction attrs arbitrary: n)
  case Nil
  then show ?case by (cases n) simp_all
next
  case (Cons kv attrs)
  obtain k v where kv: "kv = (k, v)" by (cases kv)
  obtain m where n: "n = Suc m" using Cons.prems(2) by (cases n) auto
  have fits: "length k < 251" "go_len (bytes_of k)" "go_len (bytes_of v)"
    using Cons.prems(1) kv by (simp_all add: attr_fits_def go_len_def)
  have "attr_bytes kv = PutLengthEncodedString [] (bytes_of k) @ PutLengthEncodedString [] (bytes_of v)"
    using fits by (simp add: kv attr_bytes_def short_Put)
  with Cons fits n kv show ?case by (simp add: read_lenenc_Put PutLengthEncodedString_nonempty)
qed

lemma length_concat_attr_bytes: "length attrs \<le> length (concat (map attr_bytes attrs))"
  by (induction attrs) (auto simp: attr_bytes_def)

lemma read_attr_block_payload:
  assumes "list_all attr_fits attrs" and "go_len (attr_payload attrs)"
  shows "read_attr_block (PutLengthEncodedInt [] (word_of_nat (length (attr_payload attrs))) @ attr_payload attrs @ rest) =
    Ok (attrs, rest)"
proof -
  have "read_lenenc (PutLengthEncodedString [] (attr_payload attrs) @ rest) = Ok (attr_payload attrs, rest)"
    using assms(2) by (rule read_lenenc_Put)
  then show ?thesis
    using assms(1) by (simp add: read_attr_block_def PutLengthEncodedString_def attr_payload_eq read_attrs_bytes length_concat_attr_bytes)
qed

text \<open>A name whose length does not fit in the single byte the code writes for it.\<close>

lemma long_name_not_read:
  assumes "256 \<le> length k" and "length k < 507"
  shows "read_attrs n (attr_payload [(k, v)]) \<noteq> Ok [(k, v)]"
proof
  assume read: "read_attrs n (attr_payload [(k, v)]) = Ok [(k, v)]"
  define m where "m = length k - 256"
  have m: "m < 251" "length k = 256 + m" using assms by (simp_all add: m_def)
  let ?s = "take m (bytes_of k)" and ?rest = "drop m (bytes_of k) @ PutLengthEncodedString [] (bytes_of v)"
  have "(word_of_nat (length k) :: byte) = word_of_nat (length ?s)"
    using m by (simp add: word_unat_eq_iff unat_of_nat take_bit_eq_mod del: of_nat_add)
  then have "attr_payload [(k, v)] = word_of_nat (length ?s) # ?s @ ?rest"
    by (simp add: attr_payload_eq attr_bytes_def flip: append_assoc)
  moreover have "read_lenenc (word_of_nat (length ?s) # ?s @ ?rest) = Ok (?s, ?rest)"
    using m by (intro read_lenenc_short) simp
  ultimately have "string_of ?s = k" using read by (cases n) (auto split: if_splits)
  from arg_cong [OF this, of length] m show False by simp
qed

subsection \<open>The response\<close>

definition proxy_caps :: "config \<Rightarrow> u32" where
  "proxy_caps conf =
     (let caps = obClientCapFullLinkTrace OR obClientCapProxyNewExtraInfo OR obClientCapProxyFullLinkTraceShowTrace
      in ucast (if ProtocolV2 conf then caps OR obClientCapOBProtocolV2 else caps))"

definition announced :: "u32 \<Rightarrow> u32 \<Rightarrow> 'a \<Rightarrow> 'a option" where
  "announced caps cap x = (if caps AND cap \<noteq> 0 then Some x else None)"

definition sent_database :: "config \<Rightarrow> string \<Rightarrow> string" where
  "sent_database conf mode = (if mode = ''oracle'' then ToUpper (Database conf) else Database conf)"

text \<open>The response as a sequence of fields.\<close>

lemma response_fields:
  defines "caps \<equiv> \<lambda>env conf hs. client_caps_for env conf (capabilities hs)"
    and "attrs \<equiv> \<lambda>env conf hs. attr_payload (connectionAttributes env conf hs)"
  shows "buildHandshakeResponse env conf mode hs auth =
    (le_bytes 4 (caps env conf hs) @ le_bytes 4 DefaultMaxPacketSize @ [Collation conf] @ replicate 19 0 @ le_bytes 4 (proxy_caps conf)) @
    nul_string (User conf) @ PutLengthEncodedString [] auth @
    (if caps env conf hs AND ClientConnectWithDB \<noteq> 0 then nul_string (sent_database conf mode) else []) @
    (if caps env conf hs AND ClientPluginAuth \<noteq> 0 then nul_string (authPlugin hs) else []) @
    (if caps env conf hs AND ClientConnectAttrs \<noteq> 0
     then PutLengthEncodedInt [] (word_of_nat (length (attrs env conf hs))) @ attrs env conf hs else []) @ []"
  unfolding assms buildHandshakeResponse_def Let_def PutLengthEncodedInt_append [of "if _ then _ else _"]
    PutLengthEncodedString_append [of "_ @ _"]
  by (simp add: nul_string_def sent_database_def proxy_caps_def Let_def)

lemma no_nul_ToUpper: "no_nul s \<Longrightarrow> no_nul (ToUpper s)"
proof -
  have "to_upper c \<noteq> CHR 0x00" if "c \<noteq> CHR 0x00" for c
  proof
    assume "to_upper c = CHR 0x00"
    with that have l: "is_lower c" and "char_of (of_char c - 32 :: nat) = CHR 0x00"
      by (auto simp: to_upper_def split: if_splits)
    then have "of_char (char_of (of_char c - 32 :: nat)) = (0 :: nat)" by simp
    then have "(of_char c - 32 :: nat) mod 256 = 0" by (simp only: of_char_of)
    moreover from l have "97 \<le> (of_char c :: nat)" "(of_char c :: nat) \<le> 122"
      by (simp_all add: is_lower_def less_eq_char_def)
    ultimately show False using mod_less [of "of_char c - 32" "256 :: nat"] by linarith
  qed
  then show "no_nul s \<Longrightarrow> no_nul (ToUpper s)" unfolding no_nul_def ToUpper_def set_map by (metis imageE)
qed

lemma no_nul_sent: "no_nul (Database conf) \<Longrightarrow> no_nul (sent_database conf mode)"
  by (simp add: sent_database_def no_nul_ToUpper)

text \<open>What a server of either plugin keeps of a password, and how it checks a token.\<close>

definition stored_hash :: "string \<Rightarrow> string \<Rightarrow> bytes" where
  "stored_hash plugin password =
     (if plugin = ''mysql_native_password'' then sha1 (sha1 (bytes_of password)) else sha256 (sha256 (bytes_of password)))"

definition server_accepts :: "string \<Rightarrow> bytes \<Rightarrow> bytes \<Rightarrow> bytes \<Rightarrow> bool" where
  "server_accepts plugin stored seed token \<longleftrightarrow>
     (if plugin = ''mysql_native_password'' then sha1 (xor_bytes token (sha1 (seed @ stored))) = stored
      else sha256 (xor_bytes token (sha256 (stored @ seed))) = stored)"

lemma buildAuthResponse_token:
  assumes "buildAuthResponse plugin password seed = Ok auth"
  shows "length auth < 251" and "password \<noteq> [] \<Longrightarrow> server_accepts plugin (stored_hash plugin password) seed auth"
    and "password = [] \<Longrightarrow> auth = []"
proof -
  from assms consider "plugin = ''mysql_native_password''" "auth = NativePasswordAuth password seed"
    | "plugin = ''caching_sha2_password''" "auth = CachingSha2PasswordAuth password seed"
    by (auto simp: buildAuthResponse_def split: if_splits)
  note cases = this
  show "password = [] \<Longrightarrow> auth = []"
    using cases by cases (simp_all add: NativePasswordAuth_def CachingSha2PasswordAuth_def)
  show "length auth < 251"
    using cases by cases (simp_all add: NativePasswordAuth_def CachingSha2PasswordAuth_def Let_def)
  show "server_accepts plugin (stored_hash plugin password) seed auth" if "password \<noteq> []"
    using cases native.token_accepted [of "bytes_of password" seed] caching.token_accepted [of "bytes_of password" seed]
    by cases (simp_all add: server_accepts_def stored_hash_def that NativePasswordAuth_token CachingSha2PasswordAuth_token
        native.accepts_def caching.accepts_def)
qed

text \<open>
  C9: the handshake response.  A server that reads the packet by the layout the capabilities in it
  announce finds the capabilities, the user, the token, the database (in upper case for an Oracle
  tenant), the name of the plugin and the connection attributes in their order, each field exactly
  when its capability is announced, with no byte left; and it accepts the token if it stored the double hash of
  the configured password.  This needs names without NUL, attribute names of at most 250 bytes, and
  one of the two capabilities by which a server knows that a length comes before the token.  The
  length of an attribute's name is written as a single byte, so a name of 256 to 506 bytes
  is never read back.
  (The reader assumes the 4.1 layout: it does not look at \<open>CLIENT_PROTOCOL_41\<close>, which the driver
  leaves out when the server does not offer it, while it writes that layout all the same.)
\<close>

theorem response_read_back:
  assumes "no_nul (User conf)" and "no_nul (Database conf)" and "no_nul (authPlugin hs)"
    and "list_all attr_fits (connectionAttributes env conf hs)" and "go_len (attr_payload (connectionAttributes env conf hs))"
    and "client_caps_for env conf (capabilities hs) AND ClientPluginAuthLenencClientData \<noteq> 0 \<or>
      client_caps_for env conf (capabilities hs) AND ClientSecureConnection \<noteq> 0"
    and "buildAuthResponse (authPlugin hs) (Password conf) (authSeed hs) = Ok auth"
  shows "(let caps = client_caps_for env conf (capabilities hs)
    in read_response (buildHandshakeResponse env conf mode hs auth) =
      Ok (\<lparr>rCaps = caps, rMaxPacket = DefaultMaxPacketSize, rCollation = Collation conf, rProxyCaps = proxy_caps conf,
          rUser = User conf, rAuth = auth, rDatabase = announced caps ClientConnectWithDB (sent_database conf mode),
          rPlugin = announced caps ClientPluginAuth (authPlugin hs),
          rAttrs = announced caps ClientConnectAttrs (connectionAttributes env conf hs)\<rparr>, [])) \<and>
    (if Password conf = [] then auth = []
     else server_accepts (authPlugin hs) (stored_hash (authPlugin hs) (Password conf)) (authSeed hs) auth) \<and>
    (\<forall>k v n. length k \<in> {256..506} \<longrightarrow> read_attrs n (attr_payload [(k, v)]) \<noteq> Ok [(k, v)])"
proof -
  let ?caps = "client_caps_for env conf (capabilities hs)"
  define head where "head = le_bytes 4 ?caps @ le_bytes 4 DefaultMaxPacketSize @ [Collation conf] @ replicate 19 0 @ le_bytes 4 (proxy_caps conf)"
  have head: "length head = 32" "take 4 head = le_bytes 4 ?caps" "subslice 4 8 head = le_bytes 4 DefaultMaxPacketSize"
    "head ! 8 = Collation conf" "subslice 28 32 head = le_bytes 4 (proxy_caps conf)"
    by (simp_all add: head_def le_bytes_numerals subslice_def)
  have at_head: "take 4 (head @ xs) = take 4 head" "subslice 4 8 (head @ xs) = subslice 4 8 head" "(head @ xs) ! 8 = head ! 8"
    "subslice 28 32 (head @ xs) = subslice 28 32 head" for xs
    using head(1) by (simp_all add: subslice_def nth_append)
  have attrs: "read_attr_block ((PutLengthEncodedInt [] (word_of_nat (length (attr_payload (connectionAttributes env conf hs)))) @
      attr_payload (connectionAttributes env conf hs)) @ rest) = Ok (connectionAttributes env conf hs, rest)" for rest
    using read_attr_block_payload [OF assms(4,5), of rest] by simp
  note fields = read_nul_string [OF assms(1)] read_auth_Put [OF buildAuthResponse_token(1) [OF assms(7)] assms(6)]
    read_if_field [of _ read_nul, OF read_nul_string [OF no_nul_sent [OF assms(2)]]]
    read_if_field [of _ read_nul, OF read_nul_string [OF assms(3)]] read_if_field [of _ read_attr_block, OF attrs]
  have "read_response (buildHandshakeResponse env conf mode hs auth) =
      Ok (\<lparr>rCaps = ?caps, rMaxPacket = DefaultMaxPacketSize, rCollation = Collation conf, rProxyCaps = proxy_caps conf,
          rUser = User conf, rAuth = auth, rDatabase = announced ?caps ClientConnectWithDB (sent_database conf mode),
          rPlugin = announced ?caps ClientPluginAuth (authPlugin hs),
          rAttrs = announced ?caps ClientConnectAttrs (connectionAttributes env conf hs)\<rparr>, [])"
    unfolding response_fields head_def [symmetric] read_response_def Let_def at_head announced_def
    by (simp add: head fields le_word_le_bytes_id del: append_assoc append_Nil2)
  moreover have "\<forall>k v n. length k \<in> {256..506} \<longrightarrow> read_attrs n (attr_payload [(k, v)]) \<noteq> Ok [(k, v)]"
    by (intro allI impI long_name_not_read) auto
  ultimately show ?thesis using buildAuthResponse_token(2,3) [OF assms(7)] by (simp add: Let_def)
qed

definition login_env :: client_env where
  "login_env =
     \<lparr>hostEnv = \<lparr>Getenv = (\<lambda>_. []), ParseDuration = (\<lambda>_. None), ParseSeconds = (\<lambda>_. Err EOF), url_Parse = (\<lambda>_. Err EOF),
        ReadFile = (\<lambda>_. Err EOF), AppendCertsFromPEM = (\<lambda>_. False), LoadX509KeyPair = (\<lambda>_ _. Err EOF)\<rparr>,
      GOOS = ''linux'', GOARCH = ''amd64'', spareCap = (\<lambda>_. [])\<rparr>"

definition login_config :: config where
  "login_config = zero_config\<lparr>User := ''scott'', Password := ''tiger'', Database := ''hr'', Preset := ''connector-j'', ProtocolV2 := True\<rparr>"

definition login_hs :: handshake where
  "login_hs = \<lparr>serverVersion = ''5.7'', hsConnectionID = 7, capabilities = 0x1800200, authPlugin = ''mysql_native_password'',
     authSeed = [1, 2, 3], status = 2\<rparr>"

lemma set_update_subset: "set (AList.update k v al) \<subseteq> insert (k, v) (set al)"
  by (induction al) auto

lemma length_update_le: "length (AList.update k v al) \<le> Suc (length al)"
  by (induction al) auto

lemma set_fold_update: "set (fold (\<lambda>(k, v). AList.update k v) new al) \<subseteq> set new \<union> set al"
proof (induction new arbitrary: al)
  case (Cons kv new)
  show ?case using Cons [of "AList.update (fst kv) (snd kv) al"] set_update_subset [of "fst kv" "snd kv" al] by (auto simp: case_prod_beta)
qed simp

lemma length_fold_update: "length (fold (\<lambda>(k, v). AList.update k v) new al) \<le> length new + length al"
proof (induction new arbitrary: al)
  case (Cons kv new)
  show ?case using Cons [of "AList.update (fst kv) (snd kv) al"] length_update_le [of "fst kv" "snd kv" al] by (simp add: case_prod_beta)
qed simp

lemma attr_payload_length:
  "\<forall>(k, v) \<in> set attrs. length k < 100 \<and> length v < 100 \<Longrightarrow> length (attr_payload attrs) \<le> 300 * length attrs"
  unfolding attr_payload_eq by (induction attrs) (auto simp: attr_bytes_def short_Put)

lemma login_attrs: "list_all attr_fits (connectionAttributes login_env login_config login_hs)"
  "go_len (attr_payload (connectionAttributes login_env login_config login_hs))"
proof -
  let ?base = "[(''_client_name'', ''OceanBase Connector/Go''), (''_client_version'', ''2.2.10''), (''_os'', ''linux''),
    (''_platform'', ''amd64''), (''program_name'', ''obclient''), (''ob_server_version'', ''5.7'')]"
  let ?attrs = "connectionAttributes login_env login_config login_hs"
  define attrMap where "attrMap = fold (\<lambda>(k, v). AList.update k v) (presetAttributes ''connector-j'') ?base"
  have attrs: "?attrs = map (\<lambda>k. (k, the (map_of attrMap k))) (sort (map fst attrMap))"
    by (simp add: connectionAttributes_def login_env_def login_config_def login_hs_def zero_config_def attrMap_def Let_def)
  have "\<forall>(k, v) \<in> set attrMap. length k < 100 \<and> length v < 100"
    using set_fold_update [of "presetAttributes ''connector-j''" ?base]
    unfolding attrMap_def [symmetric] by (auto simp: presetAttributes_def)
  moreover have "(k, the (map_of attrMap k)) \<in> set attrMap" if "k \<in> fst ` set attrMap" for k
  proof -
    from that obtain v where "map_of attrMap k = Some v" by (auto dest: weak_map_of_SomeI)
    then show ?thesis by (simp add: map_of_SomeD)
  qed
  ultimately have short: "\<forall>(k, v) \<in> set ?attrs. length k < 100 \<and> length v < 100" unfolding attrs by force
  then show "list_all attr_fits ?attrs" by (auto simp: list_all_iff attr_fits_def go_len_def)
  have "length ?attrs \<le> 13"
    using length_fold_update [of "presetAttributes ''connector-j''" ?base] by (simp add: attrs attrMap_def presetAttributes_def)
  then show "go_len (attr_payload ?attrs)" using attr_payload_length [OF short] by (simp add: go_len_def)
qed

lemma login_caps: "client_caps_for login_env login_config (capabilities login_hs) AND ClientPluginAuthLenencClientData \<noteq> 0"
  "client_caps_for login_env login_config (capabilities login_hs) AND ClientConnectWithDB \<noteq> 0"
  by code_simp+

theorem response_read_back_witness:
  "\<exists>auth r. buildAuthResponse ''mysql_native_password'' ''tiger'' [1, 2, 3] = Ok auth \<and>
     read_response (buildHandshakeResponse login_env login_config ''oracle'' login_hs auth) = Ok (r, []) \<and>
     rUser r = ''scott'' \<and> rDatabase r = Some ''HR'' \<and>
     server_accepts ''mysql_native_password'' (stored_hash ''mysql_native_password'' ''tiger'') [1, 2, 3] (rAuth r)"
proof -
  obtain auth where auth: "buildAuthResponse (authPlugin login_hs) (Password login_config) (authSeed login_hs) = Ok auth"
    by (simp add: buildAuthResponse_def login_hs_def)
  have "no_nul (User login_config)" "no_nul (Database login_config)" "no_nul (authPlugin login_hs)"
    by (simp_all add: no_nul_def login_config_def login_hs_def)
  moreover have "ToUpper ''hr'' = ''HR''" by code_simp
  ultimately show ?thesis
    using response_read_back [OF _ _ _ login_attrs disjI1 [OF login_caps(1)] auth, of "''oracle''"] auth login_caps(2)
    by (simp add: Let_def login_config_def login_hs_def zero_config_def sent_database_def announced_def)
qed

end
