(* ===== verification/Failover.thy ===== *)
theory Failover
  imports Connect
begin

text \<open>
  Failover: how \<open>Connect\<close> chooses among the configured addresses.  The loop of
  \<open>dialAndHandshake\<close> is compared with the list of the outcomes that the addresses have on their own.
\<close>

text \<open>What becomes of one address: a connection past the handshake, or the error of the dial or the handshake.\<close>

definition attempt :: "client_env \<Rightarrow> network \<Rightarrow> zlib \<Rightarrow> go_ctx \<Rightarrow> config \<Rightarrow> nat \<times> string \<Rightarrow> conn res" where
  "attempt env net z ctx conf = (\<lambda>(i, addr).
     bind_res (DialContext net i addr) (\<lambda>t.
       let (r, c) = withDeadline ctx (conn_handshake env net z conf) (new_conn t conf)
       in bind_res r (\<lambda>_. Ok c)))"

text \<open>What a connection past the handshake becomes: the configured statements and the time zone come next.\<close>

definition initialised :: "zlib \<Rightarrow> go_ctx \<Rightarrow> config \<Rightarrow> conn \<Rightarrow> conn option res" where
  "initialised z ctx conf c = (let (r, c') = init_session z ctx conf c in bind_res r (\<lambda>_. Ok (Some c')))"

definition outcomes :: "client_env \<Rightarrow> network \<Rightarrow> zlib \<Rightarrow> go_ctx \<Rightarrow> config \<Rightarrow> nat \<Rightarrow> string list \<Rightarrow> conn res list" where
  "outcomes env net z ctx conf i addrs = map (attempt env net z ctx conf) (enumerate i addrs)"

definition failed :: "'a res \<Rightarrow> bool" where
  "failed r \<longleftrightarrow> (\<exists>e. r = Err e)"

lemma dial_loop_step:
  "dial_loop env net z ctx conf i (addr # addrs) lastErr =
     (case attempt env net z ctx conf (i, addr) of
        Err e \<Rightarrow> dial_loop env net z ctx conf (i + 1) addrs (Some e)
      | Panic \<Rightarrow> Panic
      | Ok c \<Rightarrow> initialised z ctx conf c)"
  by (auto simp: attempt_def initialised_def Let_def split: res.split prod.split)

lemma outcomes_Cons:
  "outcomes env net z ctx conf i (addr # addrs) =
     attempt env net z ctx conf (i, addr) # outcomes env net z ctx conf (i + 1) addrs"
  by (simp add: outcomes_def)

lemma length_outcomes [simp]: "length (outcomes env net z ctx conf i addrs) = length addrs"
  by (simp add: outcomes_def)

lemma outcomes_empty [simp]: "outcomes env net z ctx conf i addrs = [] \<longleftrightarrow> addrs = []"
  by (simp flip: length_0_conv)

lemma dial_loop_all_fail:
  assumes "\<forall>r \<in> set (outcomes env net z ctx conf i addrs). failed r"
  shows "dial_loop env net z ctx conf i addrs lastErr =
    (if addrs = [] then case lastErr of None \<Rightarrow> Ok None | Some e \<Rightarrow> Err e
     else bind_res (last (outcomes env net z ctx conf i addrs)) (\<lambda>_. Ok None))"
  using assms
proof (induction addrs arbitrary: i lastErr)
  case (Cons addr addrs)
  then obtain e where e: "attempt env net z ctx conf (i, addr) = Err e" by (auto simp: outcomes_Cons failed_def)
  with Cons show ?case unfolding dial_loop_step by (simp add: outcomes_Cons)
qed (simp add: outcomes_def)

lemma dial_loop_first:
  assumes "k < length addrs" and "\<forall>j < k. failed (outcomes env net z ctx conf i addrs ! j)"
    and "\<not> failed (outcomes env net z ctx conf i addrs ! k)"
  shows "dial_loop env net z ctx conf i addrs lastErr =
    bind_res (outcomes env net z ctx conf i addrs ! k) (initialised z ctx conf)"
  using assms
proof (induction addrs arbitrary: i k lastErr)
  case (Cons addr addrs)
  show ?case
  proof (cases k)
    case 0
    with Cons.prems(3) show ?thesis
      unfolding dial_loop_step by (auto simp: outcomes_Cons failed_def split: res.split)
  next
    case (Suc m)
    with Cons.prems(2) have "failed (outcomes env net z ctx conf i (addr # addrs) ! 0)" by blast
    then obtain e where e: "attempt env net z ctx conf (i, addr) = Err e" by (auto simp: outcomes_Cons failed_def)
    have "\<forall>j < m. failed (outcomes env net z ctx conf (i + 1) addrs ! j)"
    proof (intro allI impI)
      fix j assume "j < m"
      with Cons.prems(2) Suc have "failed (outcomes env net z ctx conf i (addr # addrs) ! Suc j)" by blast
      then show "failed (outcomes env net z ctx conf (i + 1) addrs ! j)" by (simp add: outcomes_Cons)
    qed
    with Cons.IH [of m "i + 1" "Some e"] Cons.prems Suc e show ?thesis
      unfolding dial_loop_step by (simp add: outcomes_Cons)
  qed
qed simp

lemma each_res_length: "each_res f xs = Ok ys \<Longrightarrow> length ys = length xs"
  by (induction xs arbitrary: ys) auto

lemma normalize_addrs_nonempty:
  assumes "normalize henv conf = (Ok (), conf')"
  shows "Addrs conf' \<noteq> []"
proof -
  from assms obtain as where as: "each_res normalize_addr (Addrs (default_addrs conf)) = Ok as"
    and opts: "normalize_options henv ((default_addrs conf)\<lparr>Addrs := as, Addr := as ! 0\<rparr>) = (Ok (), conf')"
    by (auto simp: normalize_def Let_def split: res.splits)
  from normalize_options_normal [OF opts] each_res_length [OF as] default_addrs_nonempty [of conf] show ?thesis by auto
qed

text \<open>
  C5: failover.  \<open>Connect\<close> tries the normalised addresses in their order, each with its own dial and
  handshake, and there is always one to try.  The first whose dial and handshake do not fail decides:
  the result is what its initialisation makes of it, and a failure of the initialisation is
  returned without trying the addresses behind it.  If all fail, the error of the last is returned.
  So \<open>Connect\<close> never returns neither a connection nor an error.
\<close>

theorem Connect_failover:
  fixes env :: client_env and net :: network and z :: zlib and ctx :: go_ctx
  assumes "normalize (hostEnv env) conf = (Ok (), conf')"
  defines "outs \<equiv> outcomes env net z ctx conf' 0 (Addrs conf')"
  shows "outs \<noteq> [] \<and>
    (\<forall>k < length outs. (\<forall>j < k. failed (outs ! j)) \<longrightarrow> \<not> failed (outs ! k) \<longrightarrow>
       Connect env net z ctx conf = (bind_res (outs ! k) (initialised z ctx conf'), conf')) \<and>
    ((\<forall>r \<in> set outs. failed r) \<longrightarrow>
       (\<exists>e. last outs = Err e \<and> Connect env net z ctx conf = (Err e, conf'))) \<and>
    fst (Connect env net z ctx conf) \<noteq> Ok None"
proof -
  have addrs: "Addrs conf' \<noteq> []" by (rule normalize_addrs_nonempty [OF assms(1)])
  then have ne: "outs \<noteq> []" and len: "length outs = length (Addrs conf')" by (simp_all add: outs_def)
  have con: "Connect env net z ctx conf = (dial_loop env net z ctx conf' 0 (Addrs conf') None, conf')"
    using assms(1) by (simp add: Connect_def bind_st_def dialAndHandshake_def)
  have first: "Connect env net z ctx conf = (bind_res (outs ! k) (initialised z ctx conf'), conf')"
    if "k < length outs" "\<forall>j < k. failed (outs ! j)" "\<not> failed (outs ! k)" for k
    unfolding con using dial_loop_first [of k "Addrs conf'" env net z ctx conf' 0 None] that len by (simp add: outs_def)
  have all: "\<exists>e. last outs = Err e \<and> Connect env net z ctx conf = (Err e, conf')" if "\<forall>r \<in> set outs. failed r"
  proof -
    from that ne obtain e where "last outs = Err e" unfolding failed_def using last_in_set by blast
    with dial_loop_all_fail [of env net z ctx conf' 0 "Addrs conf'" None] that addrs con show ?thesis by (simp add: outs_def)
  qed
  have "fst (Connect env net z ctx conf) \<noteq> Ok None"
  proof (cases "\<forall>r \<in> set outs. failed r")
    case True
    with all show ?thesis by auto
  next
    case False
    then have ex: "\<exists>k. k < length outs \<and> \<not> failed (outs ! k)" by (auto simp: in_set_conv_nth)
    define k where "k = (LEAST k. k < length outs \<and> \<not> failed (outs ! k))"
    have k: "k < length outs" "\<not> failed (outs ! k)" using LeastI_ex [OF ex] by (simp_all add: k_def)
    have "\<forall>j < k. failed (outs ! j)" using k(1) not_less_Least unfolding k_def by (metis (no_types, lifting) less_trans)
    from first [OF k(1) this k(2)] show ?thesis by (auto simp: initialised_def split: prod.splits)
  qed
  with ne first all show ?thesis by blast
qed

text \<open>Two addresses, neither of which can be dialled.\<close>

definition dead_network :: network where
  "dead_network =
     \<lparr>DialContext = (\<lambda>_ addr. Err (OtherError addr)), tlsHandshake = (\<lambda>_ _. Err EOF), isIP = (\<lambda>_. True)\<rparr>"

definition dead_env :: client_env where
  "dead_env = \<lparr>hostEnv = empty_env, GOOS = ''linux'', GOARCH = ''amd64'', spareCap = (\<lambda>_. [])\<rparr>"

definition idle_zlib :: zlib where
  "idle_zlib = \<lparr>zlibOpen = (\<lambda>_. Err EOF), zlibDeflate = (\<lambda>b. b)\<rparr>"

theorem Connect_failover_witness:
  "fst (Connect dead_env dead_network idle_zlib Background
      (zero_config\<lparr>User := ''root'', Addrs := [''db1'', ''db2''], Timeout := 5\<rparr>)) = Err (OtherError ''db2:2881'')"
proof -
  let ?c = "zero_config\<lparr>User := ''root'', Addrs := [''db1'', ''db2''], Timeout := 5\<rparr>"
  have d: "default_addrs ?c = ?c\<lparr>Addr := ''db1''\<rparr>" by (simp add: default_addrs_def zero_config_def)
  have addr: "normalize_addr ''db1'' = Ok ''db1:2881''" "normalize_addr ''db2'' = Ok ''db2:2881''" by code_simp+
  have mode: "normalizeOracleMode [] = Ok ''auto''" by code_simp
  obtain c' where c': "normalize (hostEnv dead_env) ?c = (Ok (), c')" and "Addrs c' = [''db1:2881'', ''db2:2881'']"
    using addr mode
    by (simp add: dead_env_def normalize_def d normalize_options_def default_timeout_simps default_fields_simps Let_def
        check_session_zone_def) (simp add: zero_config_def normalize_options_def bind_st_def check_session_zone_def default_trace_def)
  then have "outcomes dead_env dead_network idle_zlib Background c' 0 (Addrs c') =
      [Err (OtherError ''db1:2881''), Err (OtherError ''db2:2881'')]"
    by (simp add: outcomes_def attempt_def dead_network_def)
  with Connect_failover [OF c', of dead_network idle_zlib Background] show ?thesis by (auto simp: failed_def)
qed

end
