(* ===== verification/Diagnostics.thy ===== *)
theory Diagnostics
  imports Handshake
begin

text \<open>
  What the driver prints about itself: the text of a server error (\<open>errors.go\<close>), the names of the
  flags of an OB20 packet and the getters that \<open>Conn\<close> passes on (\<open>packet.go\<close>); and how the constants
  of \<open>preset.go\<close> relate to those of \<open>constants.go\<close>.
\<close>

definition ServerError_Error :: "u16 \<Rightarrow> string \<Rightarrow> string \<Rightarrow> string" where
  "ServerError_Error number sqlState msg =
     (if sqlState = [] then ''oceanbase: error '' @ FormatUint (ucast number) @ '': '' @ msg
      else ''oceanbase: error '' @ FormatUint (ucast number) @ '' ('' @ sqlState @ ''): '' @ msg)"

definition ob20FlagNames :: "u32 \<Rightarrow> string" where
  "ob20FlagNames flag =
     (let parts = (if flag AND OB20FlagExtraInfo \<noteq> 0 then [''EXTRA_INFO''] else []);
          parts = (if flag AND OB20FlagLast \<noteq> 0 then parts @ [''LAST''] else parts);
          parts = (if flag AND OB20FlagProxyReroute \<noteq> 0 then parts @ [''PROXY_REROUTE''] else parts);
          parts = (if flag AND OB20FlagNewExtraInfo \<noteq> 0 then parts @ [''NEW_EXTRA_INFO''] else parts)
      in if length parts = 0 then ''NONE'' else Join parts ''|'')"

definition PacketConn_IsOB20 :: "packet_conn \<Rightarrow> bool" where
  "PacketConn_IsOB20 p = ob20 p"

definition PacketConn_ConnectionID :: "packet_conn \<Rightarrow> u32" where
  "PacketConn_ConnectionID p = connectionID p"

text \<open>The names tell exactly which of the four flags are set.\<close>

lemma ob20FlagNames_exact:
  "ob20FlagNames f = ob20FlagNames g \<longleftrightarrow>
     (\<forall>b \<in> {OB20FlagExtraInfo, OB20FlagLast, OB20FlagProxyReroute, OB20FlagNewExtraInfo}. (f AND b = 0) = (g AND b = 0))"
  by (cases "f AND OB20FlagExtraInfo = 0"; cases "f AND OB20FlagLast = 0"; cases "f AND OB20FlagProxyReroute = 0";
      cases "f AND OB20FlagNewExtraInfo = 0"; cases "g AND OB20FlagExtraInfo = 0"; cases "g AND OB20FlagLast = 0";
      cases "g AND OB20FlagProxyReroute = 0"; cases "g AND OB20FlagNewExtraInfo = 0"; simp add: ob20FlagNames_def)

text \<open>The proxy flags the presets announce are the flags \<open>constants.go\<close> names; the attribute flags are another space.\<close>

lemma preset_caps_named:
  "obClientCapOBProtocolV2 = OBCapOBProtocolV2" "obClientCapFullLinkTrace = OBCapFullLinkTrace"
  "obClientCapProxyNewExtraInfo = OBCapNewExtraInfo"
  "obClientCapProxyFullLinkTraceShowTrace = OBCapFullLinkTraceShowTrace"
  "obClientCapOBLOBLocatorV2 = OBClientCapLobLocatorV2"
  by (simp_all add: ob_client_caps ob_caps)

end
