(* ===== verification/Spec2Isabelle.thy ===== *)
theory Spec2Isabelle
  imports Packet_Compressed Bulk_Rewrite Driver_Sessions Row_Types Prepared Dsn Obping_Check
    Response Failover Diagnostics
begin

text \<open>
  A verification of \<open>obconnector-go\<close>, a \<open>database/sql\<close> driver in Go for OceanBase, in its MySQL and its
  Oracle tenant modes.

  \<^bold>\<open>The program.\<close>  The package \<open>internal/protocol\<close> holds the wire format: length-encoded integers, packets
  in three framings (plain MySQL, zlib-compressed, OceanBase 2.0), the values of the binary protocol,
  Oracle's timestamps and the authentication tokens.  Above it a connection (\<open>conn.go\<close>) runs commands
  under a mutex.  It is opened by \<open>driver.go\<close> and \<open>conn_handshake.go\<close> from a configuration (\<open>config.go\<close>), sends
  statements with client-side interpolation (\<open>params.go\<close>) or as prepared statements (\<open>stmt.go\<close>,
  \<open>conn_stmt.go\<close>), and hands out result sets (\<open>rows.go\<close>) that stream from the connection and hold its
  mutex until they are finished.  Session time zones (\<open>session_timezone.go\<close>), transactions (\<open>tx.go\<close>) and
  bulk inserts (\<open>bulk.go\<close>) are built on these; \<open>cmd/obping\<close> is a command-line client.

  \<^bold>\<open>How code becomes definitions.\<close>  A Go function with an error result is a function into \<open>'a res\<close>, whose
  values are \<open>Ok\<close>, \<open>Err\<close> and \<open>Panic\<close> (an index out of range, a negative \<open>Repeat\<close>); a method that changes
  its receiver is a state transformer \<open>('s, 'a) st\<close>, composed with \<open>bind_st\<close>; a struct is a record, a
  fixed-width integer a word, a string of bytes a list.  Slices are lists with the capacity
  written out where the code can see it (\<open>parseHandshake\<close>).  The error values keep what \<open>errors.Is\<close> and
  \<open>errors.As\<close> can see of them.

  \<^bold>\<open>Theories\<close>, each with the files under \<open>src/\<close> that it models:
  \<^item> \<open>OB_Prelude\<close>: bytes, words, results and the state monad; \<open>Go_Error\<close>: error values and \<open>errors.go\<close>;
    \<open>Go_Strings\<close>, \<open>Go_Time\<close>: what the driver uses of \<open>strings\<close>, \<open>strconv\<close> and \<open>time\<close>.
  \<^item> \<open>Wire_Codec\<close>, \<open>Lenenc\<close> (\<open>lenenc.go\<close>): the contract of a reader and encoder of values, and its
    instances for length-encoded integers and strings.
  \<^item> \<open>Ob20\<close> (\<open>ob20.go\<close>): the OceanBase 2.0 header, extra information and both checksums; they are
    proved to be the bit-serial CRCs, which detect bursts of errors.
  \<^item> \<open>Packet\<close> (\<open>packet.go\<close>), with \<open>Packet_Framing\<close>, \<open>Packet_OB20\<close> and \<open>Packet_Compressed\<close>: \<open>ReadPacket\<close> and
    \<open>WritePacket\<close>.  The locale \<open>packet_framing\<close> states the contract of a sender and a receiver; it is
    interpreted for plain packets and for OceanBase 2.0 frames.  The limits (a payload
    at the chunk limit, extra information that exceeds the length field, short and stored packets in
    compressed mode) are theorems as well.
  \<^item> \<open>Column_Types\<close> (\<open>constants.go\<close>), \<open>Oracle_Time\<close> (\<open>oracle_time.go\<close>), \<open>Binary\<close> (\<open>binary.go\<close>), \<open>Sql_Values\<close>,
    \<open>Text_Rows\<close> (the decoding half of \<open>rows.go\<close>): values and rows, with round trips and panics.
  \<^item> \<open>Params\<close> (\<open>params.go\<close>): interpolation, which keeps the lexical structure of a statement
    whose placeholders stand apart, and does not after a minus sign;
    \<open>Session_Timezone\<close> (\<open>session_timezone.go\<close>); \<open>Config\<close> (\<open>config.go\<close>), with \<open>Url_Values\<close> (the escaping of \<open>net/url\<close>) and
    \<open>Dsn\<close>: an opaque DSN that was written from its parts is parsed back to them, a legacy one but for
    the escapes of its database.
  \<^item> \<open>Conn\<close> (\<open>conn.go\<close>, \<open>context.go\<close>), \<open>Result_Sets\<close> (\<open>rows.go\<close>), \<open>Session\<close> (the commands of \<open>conn.go\<close>, \<open>tx.go\<close>),
    \<open>Statements\<close> (\<open>stmt.go\<close>, \<open>conn_stmt.go\<close>): the state \<open>conn\<close> and every operation on it.
  \<^item> \<open>Auth\<close> (\<open>auth.go\<close>), \<open>Handshake\<close> (greeting and response, \<open>preset.go\<close>, \<open>capabilities.go\<close>), \<open>Connect\<close>
    (\<open>conn_handshake.go\<close>, \<open>driver.go\<close>): opening a connection.  \<open>Response\<close>: the response as a server reads
    it, composed with the server's check of the token; \<open>Failover\<close>: how \<open>Connect\<close> chooses among several addresses.
  \<^item> \<open>Bulk\<close>, \<open>Bulk_Rewrite\<close> (\<open>bulk.go\<close>); \<open>Obping\<close> (the flags of \<open>cmd/obping/main.go\<close>) and \<open>Obping_Check\<close> (the
    actions of \<open>cmd/obping\<close> as programs over \<open>database/sql\<close>, with triples about the log of their calls);
    \<open>Diagnostics\<close>: the texts of \<open>errors.go\<close> and \<open>packet.go\<close>, and the constants of \<open>preset.go\<close>.
  \<^item> \<open>State_Frames\<close>, \<open>Conn_Frames\<close>, \<open>Command_Frames\<close>: what a call may change.  A frame is a reflexive and
    transitive relation, the locale \<open>state_frame\<close> carries it through sequencing, and each operation's
    frame follows from those of the calls it makes.
  \<^item> \<open>Lifecycle\<close>: sessions as a step relation over the calls of the driver interface, the invariant
    \<open>session_ok\<close> and the abstract contract of a connection towards the pool.
  \<^item> \<open>Server_Messages\<close>, \<open>Conversation\<close>, \<open>Exchanges\<close>: what a server sends, the locale \<open>reply_stream\<close> of the
    laws a stream of replies has, its interpretation on both framings, and exchanges end to end;
    \<open>Prepared\<close>: the same for prepared statements, whose execute request a server can read back, and the
    bulk request, which it can read back if all rows have the types of the first.
  \<^item> \<open>Negotiation\<close>, \<open>Driver_Sessions\<close>, \<open>Row_Types\<close>: what the handshake settles, what holds of every
    connection the driver opens, and the types of the rows it delivers against those it announces.

  \<^bold>\<open>What is shown.\<close>  Bottom-up: values, headers, packets and rows are read back as they were written;
  damaged headers (but for a cleared checksum) and payloads are detected; argument values stay inside their literals.  For one
  exchange: a command is sent as its packet and nothing else, the rows a server sends arrive as
  they are, an error of the server leaves the connection usable, an unreadable reply retires it for
  good.  For the life of a connection: it starts with what was negotiated, keeps its invariant under every
  sequence of calls, refines the abstract contract, and reading a result set always ends and frees the lock.
  Before it: the first address that answers decides, and a server that holds the password's double hash
  reads the response as it was meant and lets the client in.  The actions of
  \<open>obping\<close> that are modelled release what they open.
  The theorems on error behaviour also state where the code falls short of its intention.

  \<^bold>\<open>Loops and bounds.\<close>  All definitions are total.  \<open>ReadPacket\<close> recurs on the number of unread bytes, which
  every frame diminishes, and \<open>WritePacket\<close> on the payload; the loop over \<open>Next\<close> ends because a row takes
  at least four bytes.  The drain loops and the authentication rounds have the bounds the code has,
  \<open>maxDrainRows\<close> and \<open>maxAuthRounds\<close>.  Go's \<open>int\<close> is 64 bits wide: where a 64-bit length is converted,
  the wrap-around is written out.

  \<^bold>\<open>Parameters.\<close>  zlib, the printing and parsing of floating-point numbers, \<open>url.Parse\<close> and \<open>URL.String\<close>,
  environment variables and files, dialling and TLS, \<open>database/sql\<close> as \<open>bulk.go\<close> and \<open>obping\<close> call it, and what
  \<open>reflect\<close> does with foreign types are arguments of the definitions.  The laws a theorem needs
  of one (such as: zlib inflates what it deflated) are its hypotheses.  The bytes a
  connection will read are a field of the packet layer, so that theorems quantify over all servers.

  \<^bold>\<open>Not modelled.\<close>  Trace output and, but for server errors, the rendering of error messages; the timing
  of deadlines, which is an outcome of the context instead; goroutines blocked on the mutex, which
  are calls not enabled; \<open>sql.Register\<close>; the parsing of \<open>obping\<close>'s command line by \<open>flag\<close>, and of its
  \<open>tests.go\<close> the smoke tests that run fixed statements against a live server and print what they see
  (\<open>runQuery\<close>, \<open>runExecTest\<close>, \<open>runParamTest\<close>, \<open>runPoolTest\<close>, \<open>runBulkTest\<close>, \<open>runFullTest\<close>).
\<close>

end
